theory Spec2Isabelle
  imports Complex_Main
begin

section \<open>The game world\<close>

text \<open>
  The game is one script over module-level variables. Its numbers are JavaScript numbers;
  they are modelled as exact rationals (\<^typ>\<open>rat\<close>), the score and the frame counters as
  integers. Every call of \<^verbatim>\<open>Math.random()\<close> is an argument of the function that makes it:
  the value the call returns. One product is rounded before it is floored, in
  \<^verbatim>\<open>generatePipe\<close>; there the argument is the product as the double multiplication
  returns it.
\<close>

subsection \<open>Constants\<close>

definition VIRTUAL_WIDTH :: rat where "VIRTUAL_WIDTH = 400"
definition VIRTUAL_HEIGHT :: rat where "VIRTUAL_HEIGHT = 600"
definition BIRD_X :: rat where "BIRD_X = 50"
definition BIRD_WIDTH :: rat where "BIRD_WIDTH = 28"
definition BIRD_HEIGHT :: rat where "BIRD_HEIGHT = 21"
definition GRAVITY :: rat where "GRAVITY = 3 / 10"
definition FLAP_STRENGTH :: rat where "FLAP_STRENGTH = - (15 / 2)"
definition PIPE_WIDTH :: rat where "PIPE_WIDTH = 48"
definition PIPE_GAP :: rat where "PIPE_GAP = 200"
definition PIPE_SPEED :: rat where "PIPE_SPEED = 18 / 10"
definition PIPE_INTERVAL :: int where "PIPE_INTERVAL = 160"

lemmas constants =
  VIRTUAL_WIDTH_def VIRTUAL_HEIGHT_def BIRD_X_def BIRD_WIDTH_def BIRD_HEIGHT_def
  GRAVITY_def FLAP_STRENGTH_def PIPE_WIDTH_def PIPE_GAP_def PIPE_SPEED_def PIPE_INTERVAL_def

subsection \<open>Entities\<close>

record bird =
  bird_x :: rat
  bird_y :: rat
  bird_width :: rat
  bird_height :: rat
  velocity :: rat

record pipe =
  pipe_x :: rat
  topHeight :: rat
  bottomY :: rat
  passed :: bool

record particle =
  part_x :: rat
  part_y :: rat
  part_size :: rat
  speedX :: rat
  speedY :: rat
  life :: int
  color :: string

record cloud =
  cloud_x :: rat
  cloud_y :: rat
  cloud_size :: rat
  cloud_speed :: rat

record rect =
  rect_x :: rat
  rect_y :: rat
  rect_width :: rat
  rect_height :: rat

subsection \<open>What the page shows and plays\<close>

text \<open>
  The DOM, the canvas and the audio elements are outside the game logic. What the script
  does to them is kept as a log, oldest first:
  \<^item> \<open>ScoreText n\<close>: the score readout is set to \<open>n\<close>;
  \<^item> \<open>ModalHidden\<close>: \<^verbatim>\<open>startGame\<close> hides the game-over panel;
  \<^item> \<open>MusicStarted\<close>: \<^verbatim>\<open>startGame\<close> rewinds and plays the background track;
  \<^item> \<open>GameOverUI n\<close>: \<^verbatim>\<open>endGame\<close> pauses the music, plays the crash cue, writes the
    final score \<open>n\<close> and the title, and shows the panel;
  \<^item> \<open>Painted\<close>: one draw pass of \<^verbatim>\<open>gameLoop\<close> (clear, clouds, pipes, particles, bird).
\<close>

datatype effect = ScoreText int | ModalHidden | MusicStarted | GameOverUI int | Painted

subsection \<open>The module state\<close>

text \<open>
  The fields up to \<open>animationFrameId\<close> are the script's variables. A variable that is
  still \<^verbatim>\<open>undefined\<close> is only ever tested for truth (\<open>gameRunning\<close>, \<open>animationFrameId\<close>):
  \<open>gameRunning\<close> is then \<open>False\<close> and \<open>animationFrameId\<close> is \<open>None\<close>.

  The last three fields are the browser: \<open>scheduled\<close> holds the handles of the
  \<^verbatim>\<open>gameLoop\<close> callbacks that \<^verbatim>\<open>requestAnimationFrame\<close> has queued and that have neither
  run nor been cancelled, \<open>nextHandle\<close> is the handle the next request returns, and
  \<open>effects\<close> is the log.
\<close>

record world =
  bird :: bird
  pipes :: "pipe list"
  particles :: "particle list"
  clouds :: "cloud list"
  score :: int
  gameRunning :: bool
  gameOver :: bool
  frameCount :: int
  spawnTimer :: int
  animationFrameId :: "nat option"
  scheduled :: "nat list"
  nextHandle :: nat
  effects :: "effect list"

section \<open>The collision predicate\<close>

definition isColliding :: "rect \<Rightarrow> rect \<Rightarrow> bool" where
  "isColliding rect1 rect2 \<longleftrightarrow>
     rect_x rect1 < rect_x rect2 + rect_width rect2 \<and>
     rect_x rect1 + rect_width rect1 > rect_x rect2 \<and>
     rect_y rect1 < rect_y rect2 + rect_height rect2 \<and>
     rect_y rect1 + rect_height rect1 > rect_y rect2"

section \<open>Animation frames\<close>

text \<open>
  \<^verbatim>\<open>requestAnimationFrame(gameLoop)\<close> queues one more run of \<^verbatim>\<open>gameLoop\<close> and returns
  its handle; \<^verbatim>\<open>cancelAnimationFrame(h)\<close> takes the callback with handle \<open>h\<close> off the
  queue, and does nothing when there is none.
\<close>

definition requestAnimationFrame :: "world \<Rightarrow> nat \<times> world" where
  "requestAnimationFrame s =
     (nextHandle s,
      s\<lparr>scheduled := scheduled s @ [nextHandle s], nextHandle := Suc (nextHandle s)\<rparr>)"

definition cancelAnimationFrame :: "nat \<Rightarrow> world \<Rightarrow> world" where
  "cancelAnimationFrame h s = s\<lparr>scheduled := removeAll h (scheduled s)\<rparr>"

text \<open>\<^verbatim>\<open>xs.splice(i, 1)\<close>: the list without its element at index \<open>i\<close>.\<close>

definition splice1 :: "nat \<Rightarrow> 'a list \<Rightarrow> 'a list" where
  "splice1 i xs = take i xs @ drop (Suc i) xs"

section \<open>Ending a game and flapping\<close>

definition endGame :: "world \<Rightarrow> world" where
  "endGame s =
     (let s1 = s\<lparr>gameRunning := False, gameOver := True\<rparr>;
          s2 = (case animationFrameId s1 of
                  Some h \<Rightarrow> if h \<noteq> 0 then cancelAnimationFrame h s1 else s1
                | None \<Rightarrow> s1)
      in s2\<lparr>effects := effects s2 @ [GameOverUI (score s2)]\<rparr>)"

text \<open>
  The feather that \<^verbatim>\<open>createFeathers\<close> pushes for a bird; the three draws are those of
  \<open>size\<close>, \<open>speedX\<close> and \<open>speedY\<close>, in the order the object literal makes them.
\<close>

definition feather :: "bird \<Rightarrow> rat \<times> rat \<times> rat \<Rightarrow> particle" where
  "feather b r =
     (case r of (r1, r2, r3) \<Rightarrow>
        \<lparr>part_x = bird_x b,
         part_y = bird_y b + bird_height b / 2,
         part_size = r1 * 3 + 2,
         speedX = r2 * (- 2) - 1,
         speedY = (r3 - 1 / 2) * 2,
         life = 30,
         color = ''white''\<rparr>)"

definition pushFeather :: "rat \<times> rat \<times> rat \<Rightarrow> world \<Rightarrow> world" where
  "pushFeather r s = s\<lparr>particles := particles s @ [feather (bird s) r]\<rparr>"

text \<open>\<^verbatim>\<open>for (let i = 0; i < amount; i++)\<close>, from \<open>i\<close> on; \<open>rs i\<close> are the draws of round \<open>i\<close>.\<close>

function feathersFrom :: "nat \<Rightarrow> nat \<Rightarrow> (nat \<Rightarrow> rat \<times> rat \<times> rat) \<Rightarrow> world \<Rightarrow> world" where
  "feathersFrom i amount rs s =
     (if i < amount then feathersFrom (Suc i) amount rs (pushFeather (rs i) s) else s)"
  by pat_completeness auto
termination
  by (relation "measure (\<lambda>(i, amount, rs, s). amount - i)") auto

declare feathersFrom.simps [simp del]

definition createFeathers :: "nat \<Rightarrow> (nat \<Rightarrow> rat \<times> rat \<times> rat) \<Rightarrow> world \<Rightarrow> world" where
  "createFeathers amount rs s = feathersFrom 0 amount rs s"

definition flap :: "(nat \<Rightarrow> rat \<times> rat \<times> rat) \<Rightarrow> world \<Rightarrow> world" where
  "flap rs s =
     (if gameRunning s
      then createFeathers 3 rs (s\<lparr>bird := (bird s)\<lparr>velocity := FLAP_STRENGTH\<rparr>\<rparr>)
      else s)"

section \<open>Clouds\<close>

text \<open>The four draws are those of \<open>x\<close>, \<open>y\<close>, \<open>size\<close> and \<open>speed\<close>.\<close>

definition generateCloud :: "bool \<Rightarrow> rat \<times> rat \<times> rat \<times> rat \<Rightarrow> world \<Rightarrow> world" where
  "generateCloud randomX r s =
     (case r of (r1, r2, r3, r4) \<Rightarrow>
        s\<lparr>clouds := clouds s @
          [\<lparr>cloud_x = (if randomX then r1 * VIRTUAL_WIDTH else VIRTUAL_WIDTH + r1 * 100),
            cloud_y = r2 * (VIRTUAL_HEIGHT / 2),
            cloud_size = r3 * 25 + 20,
            cloud_speed = r4 * (4 / 10) + 1 / 10\<rparr>]\<rparr>)"

text \<open>The body of the loop of \<^verbatim>\<open>updateClouds\<close> at index \<open>i\<close>.\<close>

definition cloudStep :: "nat \<Rightarrow> world \<Rightarrow> world" where
  "cloudStep i s =
     (let c = clouds s ! i;
          s1 = s\<lparr>clouds := (clouds s)[i := c\<lparr>cloud_x := cloud_x c - cloud_speed c\<rparr>]\<rparr>
      in if cloud_x (clouds s1 ! i) + cloud_size (clouds s1 ! i) * 3 < 0
         then s1\<lparr>clouds := splice1 i (clouds s1)\<rparr>
         else s1)"

text \<open>
  \<^verbatim>\<open>for (let i = xs.length - 1; i >= 0; i--)\<close>: \<open>cloudsLoop n\<close> runs the body at the indices
  \<open>n - 1\<close>, ..., \<open>0\<close>. The loops over the pipes and the particles have the same shape.
  The index is in range in every round: the loop starts at the last index, and a round
  removes at most the element it visits (for the pipes: \<open>pipeStep_frame\<close>).
\<close>

fun cloudsLoop :: "nat \<Rightarrow> world \<Rightarrow> world" where
  "cloudsLoop 0 s = s"
| "cloudsLoop (Suc i) s = cloudsLoop i (cloudStep i s)"

text \<open>
  \<open>roll\<close> is the draw compared with 0.005; it is made only while the game runs
  (\<^verbatim>\<open>&&\<close> evaluates its right side only then). \<open>r\<close> are the draws of the new cloud.
\<close>

definition updateClouds :: "rat \<Rightarrow> rat \<times> rat \<times> rat \<times> rat \<Rightarrow> world \<Rightarrow> world" where
  "updateClouds roll r s =
     (let s1 = cloudsLoop (length (clouds s)) s
      in if gameRunning s1 \<and> roll < 5 / 1000 then generateCloud False r s1 else s1)"

section \<open>Particles\<close>

definition particleStep :: "nat \<Rightarrow> world \<Rightarrow> world" where
  "particleStep i s =
     (let p = particles s ! i;
          s1 = s\<lparr>particles := (particles s)
                 [i := p\<lparr>part_x := part_x p + speedX p,
                         part_y := part_y p + speedY p,
                         life := life p - 1\<rparr>]\<rparr>
      in if life (particles s1 ! i) \<le> 0
         then s1\<lparr>particles := splice1 i (particles s1)\<rparr>
         else s1)"

fun particlesLoop :: "nat \<Rightarrow> world \<Rightarrow> world" where
  "particlesLoop 0 s = s"
| "particlesLoop (Suc i) s = particlesLoop i (particleStep i s)"

definition updateParticles :: "world \<Rightarrow> world" where
  "updateParticles s = particlesLoop (length (particles s)) s"

section \<open>Pipes\<close>

text \<open>
  \<open>product\<close> is the value of \<^verbatim>\<open>Math.random() * (maxHeight - minHeight + 1)\<close> as the
  double multiplication returns it: the draw times 241, rounded to a double. The code
  floors this rounded product, not the exact one, and the two floors differ for some
  draws next to a multiple of 1/241. \<^verbatim>\<open>Math.random()\<close> returns a double in \<open>[0, 1)\<close>; its
  largest value is 1 minus 2 to the power -53, whose product with 241 rounds to the double
  just below 241, so \<open>product\<close> lies in \<open>[0, 241)\<close>. \<open>xOverride\<close> is \<open>None\<close> when the argument is left
  out (\<^verbatim>\<open>typeof xOverride === 'number'\<close> fails).
\<close>

definition generatePipe :: "rat \<Rightarrow> rat option \<Rightarrow> world \<Rightarrow> world" where
  "generatePipe product xOverride s =
     (let minHeight = 80;
          maxHeight = VIRTUAL_HEIGHT - PIPE_GAP - minHeight;
          topPipeHeight = of_int \<lfloor>product\<rfloor> + minHeight;
          startX = (case xOverride of Some x \<Rightarrow> x | None \<Rightarrow> VIRTUAL_WIDTH)
      in s\<lparr>pipes := pipes s @
           [\<lparr>pipe_x = startX,
             topHeight = topPipeHeight,
             bottomY = topPipeHeight + PIPE_GAP,
             passed = False\<rparr>]\<rparr>)"

definition pipeStep :: "nat \<Rightarrow> world \<Rightarrow> world" where
  "pipeStep i s =
     (let p = pipes s ! i;
          s1 = s\<lparr>pipes := (pipes s)[i := p\<lparr>pipe_x := pipe_x p - PIPE_SPEED\<rparr>]\<rparr>;
          s2 = (if \<not> passed (pipes s1 ! i) \<and> pipe_x (pipes s1 ! i) + PIPE_WIDTH < bird_x (bird s1)
                then s1\<lparr>score := score s1 + 1,
                        effects := effects s1 @ [ScoreText (score s1 + 1)],
                        pipes := (pipes s1)[i := (pipes s1 ! i)\<lparr>passed := True\<rparr>]\<rparr>
                else s1)
      in if pipe_x (pipes s2 ! i) + PIPE_WIDTH < 0
         then s2\<lparr>pipes := splice1 i (pipes s2)\<rparr>
         else s2)"

fun pipesLoop :: "nat \<Rightarrow> world \<Rightarrow> world" where
  "pipesLoop 0 s = s"
| "pipesLoop (Suc i) s = pipesLoop i (pipeStep i s)"

text \<open>The head of \<^verbatim>\<open>updatePipes\<close>: the spawn timer, and the spawn when it is due.\<close>

definition spawnTick :: "rat \<Rightarrow> world \<Rightarrow> world" where
  "spawnTick r s =
     (let s1 = s\<lparr>spawnTimer := spawnTimer s + 1\<rparr>
      in if spawnTimer s1 \<ge> PIPE_INTERVAL
         then (generatePipe r None s1)\<lparr>spawnTimer := 0\<rparr>
         else s1)"

definition updatePipes :: "rat \<Rightarrow> world \<Rightarrow> world" where
  "updatePipes r s =
     (let s2 = spawnTick r s
      in pipesLoop (length (pipes s2)) s2)"

section \<open>The bird\<close>

definition updateBird :: "world \<Rightarrow> world" where
  "updateBird s =
     (let s1 = s\<lparr>bird := (bird s)\<lparr>velocity := velocity (bird s) + GRAVITY\<rparr>\<rparr>;
          s2 = s1\<lparr>bird := (bird s1)\<lparr>bird_y := bird_y (bird s1) + velocity (bird s1)\<rparr>\<rparr>;
          s3 = (if bird_y (bird s2) + bird_height (bird s2) > VIRTUAL_HEIGHT
                then endGame
                       (s2\<lparr>bird := (bird s2)\<lparr>bird_y := VIRTUAL_HEIGHT - bird_height (bird s2),
                                              velocity := 0\<rparr>\<rparr>)
                else s2)
      in if bird_y (bird s3) < 0
         then s3\<lparr>bird := (bird s3)\<lparr>bird_y := 0, velocity := 0\<rparr>\<rparr>
         else s3)"

section \<open>Collisions\<close>

definition birdRect :: "world \<Rightarrow> rect" where
  "birdRect s =
     \<lparr>rect_x = bird_x (bird s), rect_y = bird_y (bird s),
      rect_width = bird_width (bird s), rect_height = bird_height (bird s)\<rparr>"

definition topPipeRect :: "pipe \<Rightarrow> rect" where
  "topPipeRect p =
     \<lparr>rect_x = pipe_x p, rect_y = 0, rect_width = PIPE_WIDTH, rect_height = topHeight p\<rparr>"

definition bottomPipeRect :: "pipe \<Rightarrow> rect" where
  "bottomPipeRect p =
     \<lparr>rect_x = pipe_x p, rect_y = bottomY p,
      rect_width = PIPE_WIDTH, rect_height = VIRTUAL_HEIGHT - bottomY p\<rparr>"

text \<open>\<^verbatim>\<open>for (let pipe of pipes)\<close> over the pipes still to visit; a hit ends the game and returns.\<close>

fun collisionLoop :: "pipe list \<Rightarrow> world \<Rightarrow> world" where
  "collisionLoop [] s = s"
| "collisionLoop (p # ps) s =
     (if isColliding (birdRect s) (topPipeRect p) \<or> isColliding (birdRect s) (bottomPipeRect p)
      then endGame s
      else collisionLoop ps s)"

definition checkCollisions :: "world \<Rightarrow> world" where
  "checkCollisions s = collisionLoop (pipes s) s"

section \<open>The frame callback\<close>

text \<open>The draw pass reads the world and paints it; it changes no game variable.\<close>

definition draw :: "world \<Rightarrow> world" where
  "draw s = s\<lparr>effects := effects s @ [Painted]\<rparr>"

text \<open>
  The draws one frame can make: the cloud roll, the new cloud, and the new pipe (the
  rounded product of \<^verbatim>\<open>generatePipe\<close>).
\<close>

record frameDraws =
  cloudRoll :: rat
  cloudDraws :: "rat \<times> rat \<times> rat \<times> rat"
  pipeDraw :: rat

definition gameLoop :: "frameDraws \<Rightarrow> world \<Rightarrow> world" where
  "gameLoop fr s =
     (if \<not> gameRunning s then s
      else
        let s1 = updateClouds (cloudRoll fr) (cloudDraws fr) s;
            s2 = updateBird s1;
            s3 = updatePipes (pipeDraw fr) s2;
            s4 = updateParticles s3;
            s5 = draw s4;
            s6 = checkCollisions s5
        in case requestAnimationFrame s6 of
             (h, s7) \<Rightarrow> s7\<lparr>animationFrameId := Some h\<rparr>)"

section \<open>Starting a game\<close>

function initialCloudsFrom :: "nat \<Rightarrow> (nat \<Rightarrow> rat \<times> rat \<times> rat \<times> rat) \<Rightarrow> world \<Rightarrow> world" where
  "initialCloudsFrom i rs s =
     (if i < 5 then initialCloudsFrom (Suc i) rs (generateCloud True (rs i) s) else s)"
  by pat_completeness auto
termination
  by (relation "measure (\<lambda>(i, rs, s). 5 - i)") auto

declare initialCloudsFrom.simps [simp del]

function initialPipesFrom :: "nat \<Rightarrow> (nat \<Rightarrow> rat) \<Rightarrow> world \<Rightarrow> world" where
  "initialPipesFrom i rs s =
     (let initialPipes = 3
      in if i < initialPipes
         then
           let spacing = of_int PIPE_INTERVAL * PIPE_SPEED;
               xPos = VIRTUAL_WIDTH + of_nat i * spacing + 50
           in initialPipesFrom (Suc i) rs (generatePipe (rs i) (Some xPos) s)
         else s)"
  by pat_completeness auto
termination
  by (relation "measure (\<lambda>(i, rs, s). 3 - i)") auto

declare initialPipesFrom.simps [simp del]

text \<open>
  The draws of one start: the five clouds, the three pipes (their rounded products), and
  the first frame.
\<close>

record startDraws =
  seedClouds :: "nat \<Rightarrow> rat \<times> rat \<times> rat \<times> rat"
  seedPipes :: "nat \<Rightarrow> rat"
  firstFrame :: frameDraws

definition initialBird :: bird where
  "initialBird =
     \<lparr>bird_x = BIRD_X, bird_y = VIRTUAL_HEIGHT / 2 - BIRD_HEIGHT / 2,
      bird_width = BIRD_WIDTH, bird_height = BIRD_HEIGHT, velocity = 0\<rparr>"

text \<open>\<^verbatim>\<open>startGame\<close> up to its last statement, the call of \<^verbatim>\<open>gameLoop\<close>.\<close>

definition startSetup :: "startDraws \<Rightarrow> world \<Rightarrow> world" where
  "startSetup sr s =
     (let s1 = s\<lparr>bird := initialBird,
                 pipes := [], particles := [], clouds := [], score := 0,
                 gameRunning := True, gameOver := False, frameCount := 0, spawnTimer := 0\<rparr>;
          s2 = s1\<lparr>effects := effects s1 @ [ScoreText (score s1), ModalHidden]\<rparr>;
          s3 = (if length (clouds s2) = 0 then initialCloudsFrom 0 (seedClouds sr) s2 else s2);
          s4 = initialPipesFrom 0 (seedPipes sr) s3
      in s4\<lparr>effects := effects s4 @ [MusicStarted]\<rparr>)"

definition startGame :: "startDraws \<Rightarrow> world \<Rightarrow> world" where
  "startGame sr s = gameLoop (firstFrame sr) (startSetup sr s)"

section \<open>The page's events\<close>

text \<open>
  The script runs only in its handlers: the page's load and the restart control call
  \<^verbatim>\<open>startGame\<close>; the space key, a click and a touch call \<^verbatim>\<open>flap\<close>; the browser runs a
  queued \<^verbatim>\<open>gameLoop\<close> callback and takes it off the queue. A run is a list of such events.
\<close>

datatype event =
  Start startDraws
| Flap "nat \<Rightarrow> rat \<times> rat \<times> rat"
| Frame nat frameDraws

fun handle :: "event \<Rightarrow> world \<Rightarrow> world" where
  "handle (Start sr) s = startGame sr s"
| "handle (Flap rs) s = flap rs s"
| "handle (Frame h fr) s =
     (if h \<in> set (scheduled s)
      then gameLoop fr (s\<lparr>scheduled := removeAll h (scheduled s)\<rparr>)
      else s)"

fun run :: "event list \<Rightarrow> world \<Rightarrow> world" where
  "run [] s = s"
| "run (e # es) s = run es (handle e s)"

text \<open>
  When the script has been read and nothing has run yet: \<open>gameRunning\<close> and
  \<open>animationFrameId\<close> are undefined, no callback is queued, and handles are positive.
  \<open>bird\<close>, \<open>pipes\<close>, \<open>score\<close>, \<open>gameOver\<close> and \<open>frameCount\<close> are undefined too: no handler
  reads them before \<^verbatim>\<open>startGame\<close> has assigned them, so they are left open here.
\<close>

definition pageLoaded :: "world \<Rightarrow> bool" where
  "pageLoaded s \<longleftrightarrow>
     \<not> gameRunning s \<and> animationFrameId s = None \<and> scheduled s = [] \<and> 0 < nextHandle s \<and>
     particles s = [] \<and> clouds s = [] \<and> spawnTimer s = 0 \<and> effects s = []"

text \<open>The states of the page from its first start on (\<^verbatim>\<open>window.onload\<close> calls \<^verbatim>\<open>startGame\<close>).\<close>

inductive reachable :: "world \<Rightarrow> bool" where
  boot: "pageLoaded s \<Longrightarrow> reachable (startGame sr s)"
| event: "reachable s \<Longrightarrow> reachable (handle e s)"

section \<open>Notions the properties are stated with\<close>

text \<open>How often the log records the end of a game.\<close>

fun gameEnds :: "effect list \<Rightarrow> nat" where
  "gameEnds [] = 0"
| "gameEnds (GameOverUI n # es) = Suc (gameEnds es)"
| "gameEnds (e # es) = gameEnds es"

text \<open>
  What one round of the loop of \<^verbatim>\<open>updatePipes\<close> does to the pipe it visits, for a bird at
  \<open>bx\<close>: the pipe after the round, whether the round counts it, and whether the round
  removes it (the pipes it leaves are \<open>onScreen\<close>). \<open>pipesLoop_pipes\<close> and \<open>pipesLoop_score\<close> below show that the loop is these,
  pipe by pipe.
\<close>

definition pipeFrame :: "rat \<Rightarrow> pipe \<Rightarrow> pipe" where
  "pipeFrame bx p =
     p\<lparr>pipe_x := pipe_x p - PIPE_SPEED,
       passed := passed p \<or> pipe_x p - PIPE_SPEED + PIPE_WIDTH < bx\<rparr>"

definition scoresNow :: "rat \<Rightarrow> pipe \<Rightarrow> bool" where
  "scoresNow bx p \<longleftrightarrow> \<not> passed p \<and> pipe_x p - PIPE_SPEED + PIPE_WIDTH < bx"

definition onScreen :: "pipe \<Rightarrow> bool" where
  "onScreen q \<longleftrightarrow> \<not> pipe_x q + PIPE_WIDTH < 0"

definition prunedNow :: "pipe \<Rightarrow> bool" where
  "prunedNow p \<longleftrightarrow> pipe_x p - PIPE_SPEED + PIPE_WIDTH < 0"

text \<open>
  The score texts that the page shows while \<open>n\<close> pipes are counted one after the other,
  from the score \<open>sc\<close> on.
\<close>

definition scoreTexts :: "int \<Rightarrow> nat \<Rightarrow> effect list" where
  "scoreTexts sc n = map (\<lambda>j. ScoreText (sc + int j)) [1..<Suc n]"

text \<open>
  Three facts that hold from the first start on (\<open>reachable_invariant\<close>): the bird keeps
  the place and size \<^verbatim>\<open>startGame\<close> gives it, it stays between ceiling and floor, and a
  pipe not yet counted has not passed the bird.
\<close>

definition birdShape :: "world \<Rightarrow> bool" where
  "birdShape s \<longleftrightarrow>
     bird_x (bird s) = BIRD_X \<and> bird_width (bird s) = BIRD_WIDTH \<and>
     bird_height (bird s) = BIRD_HEIGHT"

definition birdInside :: "world \<Rightarrow> bool" where
  "birdInside s \<longleftrightarrow>
     0 \<le> bird_y (bird s) \<and> bird_y (bird s) \<le> VIRTUAL_HEIGHT - bird_height (bird s)"

definition pipesAhead :: "world \<Rightarrow> bool" where
  "pipesAhead s \<longleftrightarrow> (\<forall>p\<in>set (pipes s). \<not> passed p \<longrightarrow> BIRD_X \<le> pipe_x p + PIPE_WIDTH)"

text \<open>Whether the next \<^verbatim>\<open>updateBird\<close> takes the bird's bottom below the floor.\<close>

definition hitsFloor :: "world \<Rightarrow> bool" where
  "hitsFloor s \<longleftrightarrow>
     VIRTUAL_HEIGHT < bird_y (bird s) + (velocity (bird s) + GRAVITY) + bird_height (bird s)"

text \<open>The state a frame entered while the game runs hands to the collision check.\<close>

definition frameDrawn :: "frameDraws \<Rightarrow> world \<Rightarrow> world" where
  "frameDrawn fr s =
     draw (updateParticles (updatePipes (pipeDraw fr)
       (updateBird (updateClouds (cloudRoll fr) (cloudDraws fr) s))))"

text \<open>
  A running game whose bird has fallen for \<open>k\<close> frames since the start without a flap,
  with its pipes still far ahead.
\<close>

definition freeFall :: "nat \<Rightarrow> world \<Rightarrow> bool" where
  "freeFall k s \<longleftrightarrow>
     gameRunning s \<and> birdShape s \<and>
     velocity (bird s) = GRAVITY * of_nat k \<and>
     bird_y (bird s) = 579 / 2 + 3 / 20 * (of_nat k * (of_nat k + 1)) \<and>
     spawnTimer s = int k \<and>
     (\<forall>p\<in>set (pipes s). 450 - of_nat k * PIPE_SPEED \<le> pipe_x p)"

text \<open>
  A running game whose bird has climbed for \<open>k\<close> frames since the first one, with a flap
  before each, and whose next frame callback is the only one queued.
\<close>

definition climbing :: "nat \<Rightarrow> world \<Rightarrow> bool" where
  "climbing k s \<longleftrightarrow>
     gameRunning s \<and> birdShape s \<and>
     bird_y (bird s) = 1449 / 5 - 36 / 5 * of_nat k \<and>
     spawnTimer s = int (Suc k) \<and>
     (\<forall>p\<in>set (pipes s). 450 - of_nat (Suc k) * PIPE_SPEED \<le> pipe_x p) \<and>
     scheduled s = [Suc k] \<and> nextHandle s = Suc (Suc k)"

text \<open>The collision test that \<^verbatim>\<open>checkCollisions\<close> makes for one pipe.\<close>

definition hits :: "world \<Rightarrow> pipe \<Rightarrow> bool" where
  "hits s p \<longleftrightarrow>
     isColliding (birdRect s) (topPipeRect p) \<or> isColliding (birdRect s) (bottomPipeRect p)"

text \<open>The pipe that \<^verbatim>\<open>generatePipe\<close> pushes, with the constants worked out (\<open>generatePipe_eq\<close>).\<close>

definition newPipe :: "rat \<Rightarrow> rat option \<Rightarrow> pipe" where
  "newPipe m xo =
     \<lparr>pipe_x = (case xo of Some x \<Rightarrow> x | None \<Rightarrow> VIRTUAL_WIDTH),
      topHeight = of_int \<lfloor>m\<rfloor> + 80,
      bottomY = of_int \<lfloor>m\<rfloor> + 280,
      passed = False\<rparr>"

text \<open>The pipe after \<open>n\<close> rounds.\<close>

fun pipeAfter :: "nat \<Rightarrow> rat \<Rightarrow> pipe \<Rightarrow> pipe" where
  "pipeAfter 0 bx p = p"
| "pipeAfter (Suc n) bx p = pipeFrame bx (pipeAfter n bx p)"

section \<open>Sample states and draws\<close>

text \<open>
  A page that has just been loaded (its undefined variables hold zeros here), and draws
  that are all one half: no cloud is added, and a new pipe, with the product 241/2, has
  top height 200.
\<close>

definition loadedPage :: world where
  "loadedPage =
     \<lparr>bird = \<lparr>bird_x = 0, bird_y = 0, bird_width = 0, bird_height = 0, velocity = 0\<rparr>,
      pipes = [], particles = [], clouds = [], score = 0,
      gameRunning = False, gameOver = False, frameCount = 0, spawnTimer = 0,
      animationFrameId = None, scheduled = [], nextHandle = 1, effects = []\<rparr>"

definition calmFrame :: frameDraws where
  "calmFrame = \<lparr>cloudRoll = 1 / 2, cloudDraws = (1 / 2, 1 / 2, 1 / 2, 1 / 2), pipeDraw = 241 / 2\<rparr>"

definition calmStart :: startDraws where
  "calmStart =
     \<lparr>seedClouds = (\<lambda>i. (1 / 2, 1 / 2, 1 / 2, 1 / 2)), seedPipes = (\<lambda>i. 241 / 2),
      firstFrame = calmFrame\<rparr>"

definition calmFeathers :: "nat \<Rightarrow> rat \<times> rat \<times> rat" where
  "calmFeathers = (\<lambda>i. (1 / 2, 1 / 2, 1 / 2))"

definition midAir :: world where
  "midAir = loadedPage\<lparr>bird := initialBird, gameRunning := True\<rparr>"

text \<open>A running game whose bird is at the ceiling, just after a flap.\<close>

definition flappedAtCeiling :: world where
  "flappedAtCeiling =
     loadedPage\<lparr>bird := initialBird\<lparr>bird_y := 0, velocity := FLAP_STRENGTH\<rparr>, gameRunning := True\<rparr>"

text \<open>
  A running game, at the start of a frame callback (its handle 7 is off the queue): the
  bird is about to reach the floor, just in front of a pipe that is about to reach the bird.
\<close>

definition groundedAtPipe :: world where
  "groundedAtPipe =
     \<lparr>bird = \<lparr>bird_x = 50, bird_y = 570, bird_width = 28, bird_height = 21, velocity = 21 / 2\<rparr>,
      pipes = [\<lparr>pipe_x = 398 / 5, topHeight = 200, bottomY = 400, passed = False\<rparr>],
      particles = [], clouds = [], score = 0,
      gameRunning = True, gameOver = False, frameCount = 0, spawnTimer = 19,
      animationFrameId = Some 7, scheduled = [], nextHandle = 8, effects = []\<rparr>"

text \<open>The same, with the pipe far ahead; and with a bird that sinks into the pipe's lower part.\<close>

definition groundedFarFromPipes :: world where
  "groundedFarFromPipes =
     groundedAtPipe\<lparr>pipes := [\<lparr>pipe_x = 300, topHeight = 200, bottomY = 400, passed = False\<rparr>]\<rparr>"

definition sinkingAtPipe :: world where
  "sinkingAtPipe =
     groundedAtPipe\<lparr>bird := initialBird\<lparr>bird_y := 450, velocity := 3\<rparr>\<rparr>"


text \<open>
  A running game with a counted pipe that is about to leave the screen and a pipe that is
  about to pass the bird.
\<close>

definition pipesAtBird :: world where
  "pipesAtBird =
     midAir\<lparr>pipes := [\<lparr>pipe_x = - (232 / 5), topHeight = 200, bottomY = 400, passed = True\<rparr>,
                        \<lparr>pipe_x = 11 / 5, topHeight = 200, bottomY = 400, passed = False\<rparr>],
            score := 4\<rparr>"

text \<open>
  The run in which the game is lost by never flapping (the frames carry the handles 1,
  2, ... that the page hands out), the state it ends in, and that state after a click on
  the restart control.
\<close>

definition calmFrames :: "nat \<Rightarrow> nat \<Rightarrow> event list" where
  "calmFrames h n = map (\<lambda>k. Frame k calmFrame) [h..<h + n]"

definition gameOverPending :: world where
  "gameOverPending = run (Start calmStart # calmFrames 1 43) loadedPage"

definition restartedEarly :: world where
  "restartedEarly = run [Start calmStart, Flap calmFeathers] gameOverPending"

text \<open>
  The run in which the player flaps before every frame: the bird climbs by 36/5 a frame
  from 1449/5, is stopped at the ceiling in the 41st of these frames, and the player flaps
  once more.
\<close>

definition climbEvents :: "nat \<Rightarrow> event list" where
  "climbEvents n = concat (map (\<lambda>k. [Flap calmFeathers, Frame k calmFrame]) [1..<Suc n])"

definition atCeiling :: world where
  "atCeiling = run (Start calmStart # climbEvents 41 @ [Flap calmFeathers]) loadedPage"

section \<open>What each routine changes\<close>

lemma endGame_eq:
  "endGame s =
     s\<lparr>gameRunning := False, gameOver := True,
       scheduled := (case animationFrameId s of
                       Some h \<Rightarrow> if h \<noteq> 0 then removeAll h (scheduled s) else scheduled s
                     | None \<Rightarrow> scheduled s),
       effects := effects s @ [GameOverUI (score s)]\<rparr>"
  by (simp add: endGame_def cancelAnimationFrame_def split: option.split)

lemma gameEnds_append [simp]: "gameEnds (xs @ ys) = gameEnds xs + gameEnds ys"
  by (induction xs rule: gameEnds.induct) simp_all

lemma cloudStep_only_clouds: "\<exists>cs. cloudStep i s = s\<lparr>clouds := cs\<rparr>"
  by (auto simp: cloudStep_def Let_def)

lemma cloudsLoop_only_clouds: "\<exists>cs. cloudsLoop n s = s\<lparr>clouds := cs\<rparr>"
proof (induction n arbitrary: s)
  case 0
  have "s = s\<lparr>clouds := clouds s\<rparr>" by simp
  then show ?case by (metis cloudsLoop.simps(1))
next
  case (Suc n)
  obtain cs where a: "cloudStep n s = s\<lparr>clouds := cs\<rparr>"
    using cloudStep_only_clouds by blast
  obtain cs' where b: "cloudsLoop n (s\<lparr>clouds := cs\<rparr>) = s\<lparr>clouds := cs, clouds := cs'\<rparr>"
    using Suc.IH by blast
  show ?case by (auto simp: a b)
qed

lemma updateClouds_only_clouds: "\<exists>cs. updateClouds roll r s = s\<lparr>clouds := cs\<rparr>"
proof -
  obtain cs where a: "cloudsLoop (length (clouds s)) s = s\<lparr>clouds := cs\<rparr>"
    using cloudsLoop_only_clouds by blast
  show ?thesis
    by (auto simp: updateClouds_def Let_def a generateCloud_def split: prod.split)
qed

lemma particleStep_only_particles: "\<exists>ps. particleStep i s = s\<lparr>particles := ps\<rparr>"
  by (auto simp: particleStep_def Let_def)

lemma particlesLoop_only_particles: "\<exists>ps. particlesLoop n s = s\<lparr>particles := ps\<rparr>"
proof (induction n arbitrary: s)
  case 0
  have "s = s\<lparr>particles := particles s\<rparr>" by simp
  then show ?case by (metis particlesLoop.simps(1))
next
  case (Suc n)
  obtain ps where a: "particleStep n s = s\<lparr>particles := ps\<rparr>"
    using particleStep_only_particles by blast
  obtain ps' where b: "particlesLoop n (s\<lparr>particles := ps\<rparr>) = s\<lparr>particles := ps, particles := ps'\<rparr>"
    using Suc.IH by blast
  show ?case by (auto simp: a b)
qed

lemma updateParticles_only_particles: "\<exists>ps. updateParticles s = s\<lparr>particles := ps\<rparr>"
  unfolding updateParticles_def by (rule particlesLoop_only_particles)

lemma feathersFrom_eq:
  "feathersFrom i amount rs s =
     s\<lparr>particles := particles s @ map (\<lambda>j. feather (bird s) (rs j)) [i..<amount]\<rparr>"
proof (induction i amount rs s rule: feathersFrom.induct)
  case (1 i amount rs s)
  show ?case
  proof (cases "i < amount")
    case True
    then show ?thesis
      using "1.IH" [OF True]
      by (subst feathersFrom.simps) (simp add: pushFeather_def upt_conv_Cons)
  next
    case False
    then show ?thesis by (subst feathersFrom.simps) simp
  qed
qed

lemma flap_eq:
  "flap rs s =
     (if gameRunning s
      then s\<lparr>bird := (bird s)\<lparr>velocity := FLAP_STRENGTH\<rparr>,
             particles := particles s @
               [feather ((bird s)\<lparr>velocity := FLAP_STRENGTH\<rparr>) (rs 0),
                feather ((bird s)\<lparr>velocity := FLAP_STRENGTH\<rparr>) (rs 1),
                feather ((bird s)\<lparr>velocity := FLAP_STRENGTH\<rparr>) (rs 2)]\<rparr>
      else s)"
proof -
  have "[0..<3] = [0, 1, 2]" by (simp add: upt_conv_Cons)
  then show ?thesis
    by (simp add: flap_def createFeathers_def feathersFrom_eq)
qed

lemma pipeStep_eq:
  assumes "i < length (pipes s)"
  shows "pipeStep i s =
     s\<lparr>pipes := take i (pipes s) @
                 filter onScreen [pipeFrame (bird_x (bird s)) (pipes s ! i)] @
                 drop (Suc i) (pipes s),
       score := score s + (if scoresNow (bird_x (bird s)) (pipes s ! i) then 1 else 0),
       effects := effects s @
         (if scoresNow (bird_x (bird s)) (pipes s ! i) then [ScoreText (score s + 1)] else [])\<rparr>"
proof -
  have upd: "\<And>q. take i ((pipes s)[i := q]) @ drop (Suc i) ((pipes s)[i := q])
               = take i (pipes s) @ drop (Suc i) (pipes s)"
    by simp
  have keep: "\<And>q. (pipes s)[i := q] = take i (pipes s) @ [q] @ drop (Suc i) (pipes s)"
    using assms by (simp add: upd_conv_take_nth_drop)
  show ?thesis
    using assms
    by (simp add: pipeStep_def Let_def splice1_def scoresNow_def pipeFrame_def onScreen_def keep
        nth_append list_update_append)
qed

lemma pipeStep_bird [simp]: "i < length (pipes s) \<Longrightarrow> bird (pipeStep i s) = bird s"
  by (simp add: pipeStep_eq)

lemma pipesLoop_bird [simp]: "n \<le> length (pipes s) \<Longrightarrow> bird (pipesLoop n s) = bird s"
proof (induction n arbitrary: s)
  case 0
  show ?case by simp
next
  case (Suc n)
  then have lt: "n < length (pipes s)" by simp
  then have "n \<le> length (pipes (pipeStep n s))" by (simp add: pipeStep_eq)
  then show ?case using Suc.IH lt by simp
qed

lemma pipesLoop_pipes:
  "n \<le> length (pipes s) \<Longrightarrow>
   pipes (pipesLoop n s) =
     filter onScreen (map (pipeFrame (bird_x (bird s))) (take n (pipes s))) @ drop n (pipes s)"
proof (induction n arbitrary: s)
  case 0
  show ?case by simp
next
  case (Suc n)
  then have lt: "n < length (pipes s)" by simp
  let ?s' = "pipeStep n s"
  have le: "n \<le> length (pipes ?s')" using lt by (simp add: pipeStep_eq)
  have tk: "take n (pipes ?s') = take n (pipes s)" using lt by (simp add: pipeStep_eq)
  have dr: "drop n (pipes ?s') =
      filter onScreen [pipeFrame (bird_x (bird s)) (pipes s ! n)] @ drop (Suc n) (pipes s)"
    using lt by (simp add: pipeStep_eq)
  have "pipes (pipesLoop (Suc n) s) = pipes (pipesLoop n ?s')" by simp
  also have "\<dots> = filter onScreen (map (pipeFrame (bird_x (bird ?s'))) (take n (pipes ?s')))
      @ drop n (pipes ?s')"
    using Suc.IH [OF le] .
  also have "\<dots> = filter onScreen (map (pipeFrame (bird_x (bird s))) (take (Suc n) (pipes s)))
      @ drop (Suc n) (pipes s)"
    using lt by (simp add: tk dr take_Suc_conv_app_nth)
  finally show ?case .
qed

lemma pipesLoop_score:
  "n \<le> length (pipes s) \<Longrightarrow>
   score (pipesLoop n s) =
     score s + int (length (filter (scoresNow (bird_x (bird s))) (take n (pipes s))))"
proof (induction n arbitrary: s)
  case 0
  show ?case by simp
next
  case (Suc n)
  then have lt: "n < length (pipes s)" by simp
  let ?s' = "pipeStep n s"
  have le: "n \<le> length (pipes ?s')" using lt by (simp add: pipeStep_eq)
  have tk: "take n (pipes ?s') = take n (pipes s)" using lt by (simp add: pipeStep_eq)
  have "score (pipesLoop (Suc n) s) = score (pipesLoop n ?s')" by simp
  also have "\<dots> = score ?s' +
      int (length (filter (scoresNow (bird_x (bird ?s'))) (take n (pipes ?s'))))"
    using Suc.IH [OF le] .
  also have "\<dots> = score s +
      int (length (filter (scoresNow (bird_x (bird s))) (take (Suc n) (pipes s))))"
    using lt by (simp add: tk pipeStep_eq take_Suc_conv_app_nth)
  finally show ?case .
qed

lemma pipeStep_frame:
  "i < length (pipes s) \<Longrightarrow>
   \<exists>ps sc es. pipeStep i s = s\<lparr>pipes := ps, score := sc, effects := effects s @ es\<rparr> \<and>
     length ps \<le> length (pipes s) \<and> i \<le> length ps \<and> score s \<le> sc \<and>
     set es \<subseteq> range ScoreText"
proof -
  assume lt: "i < length (pipes s)"
  show ?thesis
    apply (subst pipeStep_eq [OF lt])
    apply (rule exI, rule exI, rule exI, rule conjI, rule refl)
    using lt apply (auto simp: onScreen_def)
    done
qed

lemma pipesLoop_frame:
  "n \<le> length (pipes s) \<Longrightarrow>
   \<exists>ps sc es. pipesLoop n s = s\<lparr>pipes := ps, score := sc, effects := effects s @ es\<rparr> \<and>
     set es \<subseteq> range ScoreText"
proof (induction n arbitrary: s)
  case 0
  have "s = s\<lparr>pipes := pipes s, score := score s, effects := effects s @ []\<rparr>" by simp
  then show ?case
    by (metis pipesLoop.simps(1) empty_set empty_subsetI)
next
  case (Suc n)
  then have lt: "n < length (pipes s)" by simp
  obtain ps sc es where a: "pipeStep n s = s\<lparr>pipes := ps, score := sc, effects := effects s @ es\<rparr>"
    and le: "n \<le> length ps" and es: "set es \<subseteq> range ScoreText"
    using pipeStep_frame [OF lt] by blast
  let ?s' = "s\<lparr>pipes := ps, score := sc, effects := effects s @ es\<rparr>"
  have "n \<le> length (pipes ?s')" using le by simp
  from Suc.IH [OF this]
  obtain ps' sc' es' where b: "pipesLoop n ?s' = ?s'\<lparr>pipes := ps', score := sc', effects := effects ?s' @ es'\<rparr>"
    and es': "set es' \<subseteq> range ScoreText"
    by blast
  have "pipesLoop (Suc n) s = s\<lparr>pipes := ps', score := sc', effects := effects s @ (es @ es')\<rparr>"
    by (simp add: a b)
  moreover have "set (es @ es') \<subseteq> range ScoreText" using es es' by simp
  ultimately show ?case by blast
qed


lemma generatePipe_eq: "generatePipe r xo s = s\<lparr>pipes := pipes s @ [newPipe r xo]\<rparr>"
  by (simp add: generatePipe_def newPipe_def Let_def constants)

lemma spawnTick_eq:
  "spawnTick r s =
     (if PIPE_INTERVAL \<le> spawnTimer s + 1
      then s\<lparr>spawnTimer := 0, pipes := pipes s @ [newPipe r None]\<rparr>
      else s\<lparr>spawnTimer := spawnTimer s + 1\<rparr>)"
  by (simp add: spawnTick_def generatePipe_eq)

lemma collisionLoop_eq:
  "collisionLoop ps s = (if \<exists>p\<in>set ps. hits s p then endGame s else s)"
  by (induction ps) (simp_all add: hits_def)

lemma checkCollisions_eq:
  "checkCollisions s = (if \<exists>p\<in>set (pipes s). hits s p then endGame s else s)"
  by (simp add: checkCollisions_def collisionLoop_eq)

lemma updateBird_floor:
  assumes "VIRTUAL_HEIGHT < bird_y (bird s) + (velocity (bird s) + GRAVITY) + bird_height (bird s)"
    and "bird_height (bird s) \<le> VIRTUAL_HEIGHT"
  shows "updateBird s =
     endGame (s\<lparr>bird := (bird s)\<lparr>velocity := 0, bird_y := VIRTUAL_HEIGHT - bird_height (bird s)\<rparr>\<rparr>)"
  using assms by (simp add: updateBird_def Let_def endGame_eq split: option.split)

lemma updateBird_ceiling:
  assumes "bird_y (bird s) + (velocity (bird s) + GRAVITY) < 0"
    and "bird_height (bird s) \<le> VIRTUAL_HEIGHT"
  shows "updateBird s = s\<lparr>bird := (bird s)\<lparr>velocity := 0, bird_y := 0\<rparr>\<rparr>"
  using assms by (simp add: updateBird_def Let_def)

lemma updateBird_free:
  assumes "0 \<le> bird_y (bird s) + (velocity (bird s) + GRAVITY)"
    and "bird_y (bird s) + (velocity (bird s) + GRAVITY) + bird_height (bird s) \<le> VIRTUAL_HEIGHT"
  shows "updateBird s =
     s\<lparr>bird := (bird s)\<lparr>velocity := velocity (bird s) + GRAVITY,
                         bird_y := bird_y (bird s) + (velocity (bird s) + GRAVITY)\<rparr>\<rparr>"
  using assms by (simp add: updateBird_def Let_def)

lemma updateClouds_fields [simp]:
  "bird (updateClouds roll r s) = bird s"
  "pipes (updateClouds roll r s) = pipes s"
  "particles (updateClouds roll r s) = particles s"
  "score (updateClouds roll r s) = score s"
  "gameRunning (updateClouds roll r s) = gameRunning s"
  "gameOver (updateClouds roll r s) = gameOver s"
  "frameCount (updateClouds roll r s) = frameCount s"
  "spawnTimer (updateClouds roll r s) = spawnTimer s"
  "animationFrameId (updateClouds roll r s) = animationFrameId s"
  "scheduled (updateClouds roll r s) = scheduled s"
  "nextHandle (updateClouds roll r s) = nextHandle s"
  "effects (updateClouds roll r s) = effects s"
proof -
  obtain cs where "updateClouds roll r s = s\<lparr>clouds := cs\<rparr>"
    using updateClouds_only_clouds by blast
  then show
    "bird (updateClouds roll r s) = bird s"
    "pipes (updateClouds roll r s) = pipes s"
    "particles (updateClouds roll r s) = particles s"
    "score (updateClouds roll r s) = score s"
    "gameRunning (updateClouds roll r s) = gameRunning s"
    "gameOver (updateClouds roll r s) = gameOver s"
    "frameCount (updateClouds roll r s) = frameCount s"
    "spawnTimer (updateClouds roll r s) = spawnTimer s"
    "animationFrameId (updateClouds roll r s) = animationFrameId s"
    "scheduled (updateClouds roll r s) = scheduled s"
    "nextHandle (updateClouds roll r s) = nextHandle s"
    "effects (updateClouds roll r s) = effects s"
    by simp_all
qed

lemma updateParticles_fields [simp]:
  "bird (updateParticles s) = bird s"
  "pipes (updateParticles s) = pipes s"
  "clouds (updateParticles s) = clouds s"
  "score (updateParticles s) = score s"
  "gameRunning (updateParticles s) = gameRunning s"
  "gameOver (updateParticles s) = gameOver s"
  "frameCount (updateParticles s) = frameCount s"
  "spawnTimer (updateParticles s) = spawnTimer s"
  "animationFrameId (updateParticles s) = animationFrameId s"
  "scheduled (updateParticles s) = scheduled s"
  "nextHandle (updateParticles s) = nextHandle s"
  "effects (updateParticles s) = effects s"
proof -
  obtain ps where "updateParticles s = s\<lparr>particles := ps\<rparr>"
    using updateParticles_only_particles by blast
  then show
    "bird (updateParticles s) = bird s"
    "pipes (updateParticles s) = pipes s"
    "clouds (updateParticles s) = clouds s"
    "score (updateParticles s) = score s"
    "gameRunning (updateParticles s) = gameRunning s"
    "gameOver (updateParticles s) = gameOver s"
    "frameCount (updateParticles s) = frameCount s"
    "spawnTimer (updateParticles s) = spawnTimer s"
    "animationFrameId (updateParticles s) = animationFrameId s"
    "scheduled (updateParticles s) = scheduled s"
    "nextHandle (updateParticles s) = nextHandle s"
    "effects (updateParticles s) = effects s"
    by simp_all
qed

lemma updatePipes_pipes:
  "pipes (updatePipes r s) =
     filter onScreen (map (pipeFrame (bird_x (bird s))) (pipes (spawnTick r s)))"
proof -
  have "bird (spawnTick r s) = bird s" by (simp add: spawnTick_eq)
  then show ?thesis
    using pipesLoop_pipes [of "length (pipes (spawnTick r s))" "spawnTick r s"]
    by (simp add: updatePipes_def Let_def)
qed

lemma updatePipes_score:
  "score (updatePipes r s) =
     score s + int (length (filter (scoresNow (bird_x (bird s))) (pipes (spawnTick r s))))"
proof -
  have "bird (spawnTick r s) = bird s" "score (spawnTick r s) = score s"
    by (simp_all add: spawnTick_eq)
  then show ?thesis
    using pipesLoop_score [of "length (pipes (spawnTick r s))" "spawnTick r s"]
    by (simp add: updatePipes_def Let_def)
qed

lemma updatePipes_frame:
  "\<exists>ps sc es t. updatePipes r s = s\<lparr>pipes := ps, score := sc, spawnTimer := t, effects := effects s @ es\<rparr>
     \<and> set es \<subseteq> range ScoreText"
proof -
  obtain ps sc es where a: "pipesLoop (length (pipes (spawnTick r s))) (spawnTick r s) =
      (spawnTick r s)\<lparr>pipes := ps, score := sc, effects := effects (spawnTick r s) @ es\<rparr>"
    and es: "set es \<subseteq> range ScoreText"
    using pipesLoop_frame [of "length (pipes (spawnTick r s))" "spawnTick r s"] by auto
  have "updatePipes r s =
      s\<lparr>pipes := ps, score := sc, spawnTimer := spawnTimer (spawnTick r s), effects := effects s @ es\<rparr>"
    by (simp add: updatePipes_def Let_def a) (simp add: spawnTick_eq)
  with es show ?thesis by blast
qed

lemma gameEnds_ScoreTexts: "set es \<subseteq> range ScoreText \<Longrightarrow> gameEnds es = 0"
  by (induction es rule: gameEnds.induct) auto

lemma updatePipes_fields [simp]:
  "bird (updatePipes r s) = bird s"
  "particles (updatePipes r s) = particles s"
  "clouds (updatePipes r s) = clouds s"
  "gameRunning (updatePipes r s) = gameRunning s"
  "gameOver (updatePipes r s) = gameOver s"
  "frameCount (updatePipes r s) = frameCount s"
  "animationFrameId (updatePipes r s) = animationFrameId s"
  "scheduled (updatePipes r s) = scheduled s"
  "nextHandle (updatePipes r s) = nextHandle s"
  "gameEnds (effects (updatePipes r s)) = gameEnds (effects s)"
proof -
  obtain ps sc es t where
    "updatePipes r s = s\<lparr>pipes := ps, score := sc, spawnTimer := t, effects := effects s @ es\<rparr>"
    and "set es \<subseteq> range ScoreText"
    using updatePipes_frame by blast
  then show
    "bird (updatePipes r s) = bird s"
    "particles (updatePipes r s) = particles s"
    "clouds (updatePipes r s) = clouds s"
    "gameRunning (updatePipes r s) = gameRunning s"
    "gameOver (updatePipes r s) = gameOver s"
    "frameCount (updatePipes r s) = frameCount s"
    "animationFrameId (updatePipes r s) = animationFrameId s"
    "scheduled (updatePipes r s) = scheduled s"
    "nextHandle (updatePipes r s) = nextHandle s"
    "gameEnds (effects (updatePipes r s)) = gameEnds (effects s)"
    by (simp_all add: gameEnds_ScoreTexts)
qed

lemma updateBird_fields [simp]:
  "pipes (updateBird s) = pipes s"
  "particles (updateBird s) = particles s"
  "clouds (updateBird s) = clouds s"
  "score (updateBird s) = score s"
  "frameCount (updateBird s) = frameCount s"
  "spawnTimer (updateBird s) = spawnTimer s"
  "animationFrameId (updateBird s) = animationFrameId s"
  "nextHandle (updateBird s) = nextHandle s"
  "bird_x (bird (updateBird s)) = bird_x (bird s)"
  "bird_width (bird (updateBird s)) = bird_width (bird s)"
  "bird_height (bird (updateBird s)) = bird_height (bird s)"
  by (simp_all add: updateBird_def Let_def endGame_eq)

lemma endGame_fields [simp]:
  "bird (endGame s) = bird s"
  "pipes (endGame s) = pipes s"
  "particles (endGame s) = particles s"
  "clouds (endGame s) = clouds s"
  "score (endGame s) = score s"
  "frameCount (endGame s) = frameCount s"
  "spawnTimer (endGame s) = spawnTimer s"
  "animationFrameId (endGame s) = animationFrameId s"
  "nextHandle (endGame s) = nextHandle s"
  "gameRunning (endGame s) = False"
  "gameOver (endGame s) = True"
  "effects (endGame s) = effects s @ [GameOverUI (score s)]"
  by (simp_all add: endGame_eq)

lemma checkCollisions_fields [simp]:
  "bird (checkCollisions s) = bird s"
  "pipes (checkCollisions s) = pipes s"
  "particles (checkCollisions s) = particles s"
  "clouds (checkCollisions s) = clouds s"
  "score (checkCollisions s) = score s"
  "frameCount (checkCollisions s) = frameCount s"
  "spawnTimer (checkCollisions s) = spawnTimer s"
  "animationFrameId (checkCollisions s) = animationFrameId s"
  "nextHandle (checkCollisions s) = nextHandle s"
  by (simp_all add: checkCollisions_eq)

lemma draw_fields [simp]:
  "bird (draw s) = bird s"
  "pipes (draw s) = pipes s"
  "particles (draw s) = particles s"
  "clouds (draw s) = clouds s"
  "score (draw s) = score s"
  "gameRunning (draw s) = gameRunning s"
  "gameOver (draw s) = gameOver s"
  "frameCount (draw s) = frameCount s"
  "spawnTimer (draw s) = spawnTimer s"
  "animationFrameId (draw s) = animationFrameId s"
  "scheduled (draw s) = scheduled s"
  "nextHandle (draw s) = nextHandle s"
  "effects (draw s) = effects s @ [Painted]"
  by (simp_all add: draw_def)

lemma hits_cong:
  "bird s = bird s' \<Longrightarrow> hits s p = hits s' p"
  by (simp add: hits_def birdRect_def)

lemma gameLoop_bird: "bird (gameLoop fr s) = (if gameRunning s then bird (updateBird s) else bird s)"
  by (simp add: gameLoop_def Let_def requestAnimationFrame_def updateBird_def endGame_eq)


lemma initialCloudsFrom_only_clouds: "\<exists>cs. initialCloudsFrom i rs s = s\<lparr>clouds := cs\<rparr>"
proof (induction i rs s rule: initialCloudsFrom.induct)
  case (1 i rs s)
  show ?case
  proof (cases "i < 5")
    case True
    obtain cs where "initialCloudsFrom (Suc i) rs (generateCloud True (rs i) s)
        = (generateCloud True (rs i) s)\<lparr>clouds := cs\<rparr>"
      using "1.IH" [OF True] by blast
    then have "initialCloudsFrom i rs s = s\<lparr>clouds := cs\<rparr>"
      using True
      by (subst initialCloudsFrom.simps) (simp add: generateCloud_def split: prod.split)
    then show ?thesis by blast
  next
    case False
    then have "initialCloudsFrom i rs s = s\<lparr>clouds := clouds s\<rparr>"
      by (subst initialCloudsFrom.simps) simp
    then show ?thesis by blast
  qed
qed

lemma initialPipesFrom_eq:
  "initialPipesFrom i rs s =
     s\<lparr>pipes := pipes s @
        map (\<lambda>j. newPipe (rs j) (Some (VIRTUAL_WIDTH + of_nat j * (of_int PIPE_INTERVAL * PIPE_SPEED) + 50)))
          [i..<3]\<rparr>"
proof (induction i rs s rule: initialPipesFrom.induct)
  case (1 i rs s)
  show ?case
  proof (cases "i < 3")
    case True
    then show ?thesis
      using "1.IH" [OF refl True refl refl]
      by (subst initialPipesFrom.simps) (simp add: generatePipe_eq upt_conv_Cons Let_def)
  next
    case False
    then show ?thesis by (subst initialPipesFrom.simps) simp
  qed
qed

lemma startSetup_fields [simp]:
  "bird (startSetup sr s) = initialBird"
  "pipes (startSetup sr s) =
     [newPipe (seedPipes sr 0) (Some 450), newPipe (seedPipes sr 1) (Some 738),
      newPipe (seedPipes sr 2) (Some 1026)]"
  "particles (startSetup sr s) = []"
  "score (startSetup sr s) = 0"
  "gameRunning (startSetup sr s) = True"
  "gameOver (startSetup sr s) = False"
  "frameCount (startSetup sr s) = 0"
  "spawnTimer (startSetup sr s) = 0"
  "animationFrameId (startSetup sr s) = animationFrameId s"
  "scheduled (startSetup sr s) = scheduled s"
  "nextHandle (startSetup sr s) = nextHandle s"
  "effects (startSetup sr s) = effects s @ [ScoreText 0, ModalHidden, MusicStarted]"
proof -
  let ?s2 = "s\<lparr>bird := initialBird,
                 pipes := [], particles := [], clouds := [], score := 0,
                 gameRunning := True, gameOver := False, frameCount := 0, spawnTimer := 0,
                 effects := effects s @ [ScoreText 0, ModalHidden]\<rparr>"
  obtain cs where c: "initialCloudsFrom 0 (seedClouds sr) ?s2 = ?s2\<lparr>clouds := cs\<rparr>"
    using initialCloudsFrom_only_clouds by blast
  have upt: "[0..<3] = [0, 1, 2]" by (simp add: upt_conv_Cons)
  have e: "startSetup sr s = ?s2\<lparr>clouds := cs,
      pipes := [newPipe (seedPipes sr 0) (Some 450), newPipe (seedPipes sr 1) (Some 738),
                newPipe (seedPipes sr 2) (Some 1026)],
      effects := effects s @ [ScoreText 0, ModalHidden, MusicStarted]\<rparr>"
    by (simp add: startSetup_def Let_def c initialPipesFrom_eq upt constants)
  show
  "bird (startSetup sr s) = initialBird"
  "pipes (startSetup sr s) =
     [newPipe (seedPipes sr 0) (Some 450), newPipe (seedPipes sr 1) (Some 738),
      newPipe (seedPipes sr 2) (Some 1026)]"
  "particles (startSetup sr s) = []"
  "score (startSetup sr s) = 0"
  "gameRunning (startSetup sr s) = True"
  "gameOver (startSetup sr s) = False"
  "frameCount (startSetup sr s) = 0"
  "spawnTimer (startSetup sr s) = 0"
  "animationFrameId (startSetup sr s) = animationFrameId s"
  "scheduled (startSetup sr s) = scheduled s"
  "nextHandle (startSetup sr s) = nextHandle s"
  "effects (startSetup sr s) = effects s @ [ScoreText 0, ModalHidden, MusicStarted]"
    by (simp_all add: e)
qed

lemma gameLoop_pipes:
  "gameRunning s \<Longrightarrow>
   pipes (gameLoop fr s) =
     filter onScreen (map (pipeFrame (bird_x (bird s))) (pipes (spawnTick (pipeDraw fr) s)))"
  by (simp add: gameLoop_def Let_def requestAnimationFrame_def updatePipes_pipes spawnTick_eq)

lemma gameLoop_score:
  "gameRunning s \<Longrightarrow>
   score (gameLoop fr s) =
     score s + int (length (filter (scoresNow (bird_x (bird s))) (pipes (spawnTick (pipeDraw fr) s))))"
  by (simp add: gameLoop_def Let_def requestAnimationFrame_def updatePipes_score spawnTick_eq)

lemma updateBird_inside:
  "bird_height (bird s) \<le> VIRTUAL_HEIGHT \<Longrightarrow> birdInside (updateBird s)"
  by (simp add: birdInside_def updateBird_def Let_def endGame_eq)

lemma birdShape_gameLoop: "birdShape s \<Longrightarrow> birdShape (gameLoop fr s)"
  by (simp add: birdShape_def gameLoop_bird)

lemma birdInside_gameLoop: "birdShape s \<Longrightarrow> birdInside s \<Longrightarrow> birdInside (gameLoop fr s)"
proof -
  assume sh: "birdShape s" and ins: "birdInside s"
  have "bird_height (bird s) \<le> VIRTUAL_HEIGHT"
    using sh by (simp add: birdShape_def constants)
  then have "birdInside (updateBird s)" by (rule updateBird_inside)
  then show ?thesis using ins by (simp add: birdInside_def gameLoop_bird)
qed

lemma pipeFrame_ahead: "\<not> passed (pipeFrame bx p) \<Longrightarrow> bx \<le> pipe_x (pipeFrame bx p) + PIPE_WIDTH"
  by (simp add: pipeFrame_def)

lemma pipesAhead_gameLoop: "birdShape s \<Longrightarrow> pipesAhead s \<Longrightarrow> pipesAhead (gameLoop fr s)"
proof (cases "gameRunning s")
  case True
  assume sh: "birdShape s"
  then have bx: "bird_x (bird s) = BIRD_X" by (simp add: birdShape_def)
  show ?thesis
    unfolding pipesAhead_def gameLoop_pipes [OF True] bx
    using pipeFrame_ahead by auto
next
  case False
  assume "pipesAhead s"
  then show ?thesis using False by (simp add: gameLoop_def)
qed

lemma startSetup_invariant:
  "birdShape (startSetup sr s) \<and> birdInside (startSetup sr s) \<and> pipesAhead (startSetup sr s)"
  by (simp add: birdShape_def birdInside_def pipesAhead_def initialBird_def newPipe_def constants)

lemma startGame_invariant:
  "birdShape (startGame sr s) \<and> birdInside (startGame sr s) \<and> pipesAhead (startGame sr s)"
  unfolding startGame_def
  using startSetup_invariant [of sr s] birdShape_gameLoop birdInside_gameLoop pipesAhead_gameLoop
  by blast

lemma flap_invariant:
  "birdShape s \<and> birdInside s \<and> pipesAhead s \<Longrightarrow>
   birdShape (flap rs s) \<and> birdInside (flap rs s) \<and> pipesAhead (flap rs s)"
  by (simp add: flap_eq birdShape_def birdInside_def pipesAhead_def)

lemma dequeue_invariant:
  "birdShape s \<and> birdInside s \<and> pipesAhead s \<Longrightarrow>
   birdShape (s\<lparr>scheduled := q\<rparr>) \<and> birdInside (s\<lparr>scheduled := q\<rparr>) \<and> pipesAhead (s\<lparr>scheduled := q\<rparr>)"
  by (simp add: birdShape_def birdInside_def pipesAhead_def)

lemma handle_invariant:
  assumes "birdShape s \<and> birdInside s \<and> pipesAhead s"
  shows "birdShape (handle e s) \<and> birdInside (handle e s) \<and> pipesAhead (handle e s)"
proof (cases e)
  case (Start sr)
  then show ?thesis using startGame_invariant by simp
next
  case (Flap rs)
  then show ?thesis using flap_invariant [OF assms] by simp
next
  case (Frame h fr)
  show ?thesis
  proof (cases "h \<in> set (scheduled s)")
    case True
    let ?s' = "s\<lparr>scheduled := removeAll h (scheduled s)\<rparr>"
    have "birdShape ?s' \<and> birdInside ?s' \<and> pipesAhead ?s'"
      using dequeue_invariant [OF assms] .
    then have "birdShape (gameLoop fr ?s') \<and> birdInside (gameLoop fr ?s') \<and> pipesAhead (gameLoop fr ?s')"
      using birdShape_gameLoop birdInside_gameLoop pipesAhead_gameLoop by blast
    then show ?thesis using Frame True by simp
  next
    case False
    then show ?thesis using Frame assms by simp
  qed
qed

lemma reachable_invariant:
  "reachable s \<Longrightarrow> birdShape s \<and> birdInside s \<and> pipesAhead s"
proof (induction rule: reachable.induct)
  case (boot s sr)
  show ?case by (rule startGame_invariant)
next
  case (event s e)
  from event.IH show ?case by (rule handle_invariant)
qed

lemma reachable_calm: "reachable (startGame calmStart loadedPage)"
  by (rule reachable.boot) (simp add: pageLoaded_def loadedPage_def)

section \<open>A frame, stage by stage\<close>

lemma updateBird_effects:
  "effects (updateBird s) = effects s @ (if hitsFloor s then [GameOverUI (score s)] else [])"
  by (simp add: updateBird_def Let_def endGame_eq hitsFloor_def)

lemma updateBird_gameRunning:
  "gameRunning (updateBird s) \<longleftrightarrow> gameRunning s \<and> \<not> hitsFloor s"
  by (simp add: updateBird_def Let_def endGame_eq hitsFloor_def)

lemma gameLoop_running:
  "gameRunning s \<Longrightarrow>
   gameLoop fr s =
     (checkCollisions (frameDrawn fr s))
       \<lparr>scheduled := scheduled (checkCollisions (frameDrawn fr s)) @ [nextHandle s],
        nextHandle := Suc (nextHandle s),
        animationFrameId := Some (nextHandle s)\<rparr>"
  by (simp add: gameLoop_def Let_def requestAnimationFrame_def frameDrawn_def)

lemma updateBird_bird_cong: "bird s = bird s' \<Longrightarrow> bird (updateBird s) = bird (updateBird s')"
  by (simp add: updateBird_def Let_def)

lemma frameDrawn_fields [simp]:
  "bird (frameDrawn fr s) = bird (updateBird s)"
  "pipes (frameDrawn fr s) = pipes (updatePipes (pipeDraw fr) s)"
  "score (frameDrawn fr s) = score (updatePipes (pipeDraw fr) s)"
  "nextHandle (frameDrawn fr s) = nextHandle s"
  "animationFrameId (frameDrawn fr s) = animationFrameId s"
  "gameRunning (frameDrawn fr s) \<longleftrightarrow> gameRunning s \<and> \<not> hitsFloor s"
  "gameEnds (effects (frameDrawn fr s)) = gameEnds (effects s) + (if hitsFloor s then 1 else 0)"
proof -
  let ?c = "updateClouds (cloudRoll fr) (cloudDraws fr) s"
  have hf: "hitsFloor ?c = hitsFloor s" by (simp add: hitsFloor_def)
  have b: "bird (updateBird ?c) = bird (updateBird s)"
    by (rule updateBird_bird_cong) simp
  show "bird (frameDrawn fr s) = bird (updateBird s)"
    by (simp add: frameDrawn_def b)
  show "pipes (frameDrawn fr s) = pipes (updatePipes (pipeDraw fr) s)"
    by (simp add: frameDrawn_def updatePipes_pipes spawnTick_eq)
  show "score (frameDrawn fr s) = score (updatePipes (pipeDraw fr) s)"
    by (simp add: frameDrawn_def updatePipes_score spawnTick_eq)
  show "nextHandle (frameDrawn fr s) = nextHandle s"
    by (simp add: frameDrawn_def)
  show "animationFrameId (frameDrawn fr s) = animationFrameId s"
    by (simp add: frameDrawn_def)
  show "gameRunning (frameDrawn fr s) \<longleftrightarrow> gameRunning s \<and> \<not> hitsFloor s"
    by (simp add: frameDrawn_def updateBird_gameRunning hf)
  show "gameEnds (effects (frameDrawn fr s)) = gameEnds (effects s) + (if hitsFloor s then 1 else 0)"
    by (simp add: frameDrawn_def updateBird_effects hf)
qed

lemma gameLoop_gameEnds:
  "gameRunning s \<Longrightarrow>
   gameEnds (effects (gameLoop fr s)) =
     gameEnds (effects s) + (if hitsFloor s then 1 else 0)
       + (if \<exists>p\<in>set (pipes (gameLoop fr s)). hits (gameLoop fr s) p then 1 else 0)"
proof -
  assume run: "gameRunning s"
  let ?d = "frameDrawn fr s"
  have b: "bird (gameLoop fr s) = bird ?d" and p: "pipes (gameLoop fr s) = pipes ?d"
    by (simp_all add: gameLoop_running [OF run])
  have h: "\<And>q. hits (gameLoop fr s) q = hits ?d q"
    by (rule hits_cong) (rule b)
  have "effects (gameLoop fr s) = effects (checkCollisions ?d)"
    by (simp add: gameLoop_running [OF run])
  then show ?thesis
    by (simp add: checkCollisions_eq p h)
qed

section \<open>The bird stays between ceiling and floor\<close>

text \<open>
  Claim C4. After the clamping of \<^verbatim>\<open>updateBird\<close> the bird's \<open>y\<close> lies in
  \<open>[0, VIRTUAL_HEIGHT - bird height]\<close>; \<^verbatim>\<open>flap\<close>, the pipe update, the particle update and
  the other stages of a frame leave \<open>y\<close> as it is; so from the first start on, in every
  state and after every event (a frame, a flap, a restart), \<open>y\<close> is in that range.
\<close>

theorem bird_stays_inside:
  "(bird_height (bird s) = BIRD_HEIGHT \<longrightarrow>
      0 \<le> bird_y (bird (updateBird s)) \<and>
      bird_y (bird (updateBird s)) \<le> VIRTUAL_HEIGHT - bird_height (bird (updateBird s))) \<and>
   bird_y (bird (flap rs s)) = bird_y (bird s) \<and>
   bird_y (bird (updatePipes r s)) = bird_y (bird s) \<and>
   bird_y (bird (updateParticles s)) = bird_y (bird s) \<and>
   bird_y (bird (updateClouds roll cr s)) = bird_y (bird s) \<and>
   bird_y (bird (draw s)) = bird_y (bird s) \<and>
   bird_y (bird (checkCollisions s)) = bird_y (bird s) \<and>
   (reachable s \<longrightarrow>
      0 \<le> bird_y (bird s) \<and> bird_y (bird s) \<le> VIRTUAL_HEIGHT - BIRD_HEIGHT \<and>
      0 \<le> bird_y (bird (handle e s)) \<and> bird_y (bird (handle e s)) \<le> VIRTUAL_HEIGHT - BIRD_HEIGHT)"
proof -
  have a: "bird_height (bird s) = BIRD_HEIGHT \<longrightarrow>
      0 \<le> bird_y (bird (updateBird s)) \<and>
      bird_y (bird (updateBird s)) \<le> VIRTUAL_HEIGHT - bird_height (bird (updateBird s))"
  proof
    assume "bird_height (bird s) = BIRD_HEIGHT"
    then have "bird_height (bird s) \<le> VIRTUAL_HEIGHT" by (simp add: constants)
    then have "birdInside (updateBird s)" by (rule updateBird_inside)
    then show "0 \<le> bird_y (bird (updateBird s)) \<and>
      bird_y (bird (updateBird s)) \<le> VIRTUAL_HEIGHT - bird_height (bird (updateBird s))"
      by (simp add: birdInside_def)
  qed
  have b: "bird_y (bird (flap rs s)) = bird_y (bird s)" by (simp add: flap_eq)
  have c: "reachable s \<longrightarrow>
      0 \<le> bird_y (bird s) \<and> bird_y (bird s) \<le> VIRTUAL_HEIGHT - BIRD_HEIGHT \<and>
      0 \<le> bird_y (bird (handle e s)) \<and> bird_y (bird (handle e s)) \<le> VIRTUAL_HEIGHT - BIRD_HEIGHT"
  proof
    assume r: "reachable s"
    then have r': "reachable (handle e s)" by (rule reachable.event)
    show "0 \<le> bird_y (bird s) \<and> bird_y (bird s) \<le> VIRTUAL_HEIGHT - BIRD_HEIGHT \<and>
      0 \<le> bird_y (bird (handle e s)) \<and> bird_y (bird (handle e s)) \<le> VIRTUAL_HEIGHT - BIRD_HEIGHT"
      using reachable_invariant [OF r] reachable_invariant [OF r']
      by (simp add: birdShape_def birdInside_def)
  qed
  show ?thesis using a b c by simp
qed

theorem bird_stays_inside_witness:
  "bird_height (bird (startSetup calmStart loadedPage)) = BIRD_HEIGHT \<and>
   0 \<le> bird_y (bird (updateBird (startSetup calmStart loadedPage))) \<and>
   bird_y (bird (updateBird (startSetup calmStart loadedPage)))
     \<le> VIRTUAL_HEIGHT - bird_height (bird (updateBird (startSetup calmStart loadedPage))) \<and>
   reachable (startGame calmStart loadedPage) \<and>
   0 \<le> bird_y (bird (startGame calmStart loadedPage)) \<and>
   bird_y (bird (startGame calmStart loadedPage)) \<le> VIRTUAL_HEIGHT - BIRD_HEIGHT \<and>
   0 \<le> bird_y (bird (handle (Flap calmFeathers) (startGame calmStart loadedPage))) \<and>
   bird_y (bird (handle (Flap calmFeathers) (startGame calmStart loadedPage)))
     \<le> VIRTUAL_HEIGHT - BIRD_HEIGHT"
proof -
  have h: "bird_height (bird (startSetup calmStart loadedPage)) = BIRD_HEIGHT"
    by (simp add: initialBird_def)
  show ?thesis
    using h reachable_calm
      bird_stays_inside [of "startSetup calmStart loadedPage"]
      bird_stays_inside [of "startGame calmStart loadedPage" _ _ _ _ "Flap calmFeathers"]
    by simp
qed

section \<open>The collision predicate is strict overlap\<close>

text \<open>
  Claim C2. \<^verbatim>\<open>isColliding(rect1, rect2)\<close> holds exactly when both axis projections
  overlap strictly. Hence two rectangles that are apart or only touch along an edge (one
  ends where the other begins, on either axis) do not collide, and a rectangle of
  positive width and height that lies inside another collides with it.
\<close>

theorem isColliding_strict_overlap:
  "(isColliding r1 r2 \<longleftrightarrow>
      rect_x r1 < rect_x r2 + rect_width r2 \<and> rect_x r1 + rect_width r1 > rect_x r2 \<and>
      rect_y r1 < rect_y r2 + rect_height r2 \<and> rect_y r1 + rect_height r1 > rect_y r2) \<and>
   (rect_x r1 + rect_width r1 \<le> rect_x r2 \<or> rect_x r2 + rect_width r2 \<le> rect_x r1 \<or>
    rect_y r1 + rect_height r1 \<le> rect_y r2 \<or> rect_y r2 + rect_height r2 \<le> rect_y r1
      \<longrightarrow> \<not> isColliding r1 r2) \<and>
   (0 < rect_width r1 \<and> 0 < rect_height r1 \<and>
    rect_x r2 \<le> rect_x r1 \<and> rect_x r1 + rect_width r1 \<le> rect_x r2 + rect_width r2 \<and>
    rect_y r2 \<le> rect_y r1 \<and> rect_y r1 + rect_height r1 \<le> rect_y r2 + rect_height r2
      \<longrightarrow> isColliding r1 r2)"
  unfolding isColliding_def by auto

theorem isColliding_strict_overlap_witness:
  "rect_x \<lparr>rect_x = 50, rect_y = 100, rect_width = 28, rect_height = 21\<rparr>
     + rect_width \<lparr>rect_x = 50, rect_y = 100, rect_width = 28, rect_height = 21\<rparr>
     \<le> rect_x \<lparr>rect_x = 78, rect_y = 0, rect_width = 48, rect_height = 300\<rparr> \<and>
   \<not> isColliding \<lparr>rect_x = 50, rect_y = 100, rect_width = 28, rect_height = 21\<rparr>
                  \<lparr>rect_x = 78, rect_y = 0, rect_width = 48, rect_height = 300\<rparr> \<and>
   rect_y \<lparr>rect_x = 40, rect_y = 300, rect_width = 48, rect_height = 300\<rparr>
     \<le> rect_y \<lparr>rect_x = 50, rect_y = 400, rect_width = 28, rect_height = 21\<rparr> \<and>
   isColliding \<lparr>rect_x = 50, rect_y = 400, rect_width = 28, rect_height = 21\<rparr>
               \<lparr>rect_x = 40, rect_y = 300, rect_width = 48, rect_height = 300\<rparr>"
  using isColliding_strict_overlap
      [of "\<lparr>rect_x = 50, rect_y = 100, rect_width = 28, rect_height = 21\<rparr>"
          "\<lparr>rect_x = 78, rect_y = 0, rect_width = 48, rect_height = 300\<rparr>"]
    isColliding_strict_overlap
      [of "\<lparr>rect_x = 50, rect_y = 400, rect_width = 28, rect_height = 21\<rparr>"
          "\<lparr>rect_x = 40, rect_y = 300, rect_width = 48, rect_height = 300\<rparr>"]
  by simp

section \<open>The height of a spawned pipe\<close>




section \<open>Flapping\<close>

text \<open>
  Claim C9. While the game runs, \<^verbatim>\<open>flap\<close> sets the bird's velocity to \<open>FLAP_STRENGTH\<close>,
  which is \<open>- 7.5\<close>, whatever it was, appends three feathers to the particles, and changes
  nothing else. While the game does not run, \<^verbatim>\<open>flap\<close> returns the state it was given.
  \<^verbatim>\<open>flap\<close> has no failing branch: it reads the bird only while the game runs, and
  \<^verbatim>\<open>startGame\<close> assigns the bird before it sets \<open>gameRunning\<close>.
\<close>

theorem flap_running_or_not:
  "(gameRunning s \<longrightarrow>
      flap rs s =
        s\<lparr>bird := (bird s)\<lparr>velocity := FLAP_STRENGTH\<rparr>,
          particles := particles s @
            [feather ((bird s)\<lparr>velocity := FLAP_STRENGTH\<rparr>) (rs 0),
             feather ((bird s)\<lparr>velocity := FLAP_STRENGTH\<rparr>) (rs 1),
             feather ((bird s)\<lparr>velocity := FLAP_STRENGTH\<rparr>) (rs 2)]\<rparr> \<and>
      velocity (bird (flap rs s)) = FLAP_STRENGTH \<and> FLAP_STRENGTH = - (15 / 2) \<and>
      length (particles (flap rs s)) = length (particles s) + 3 \<and>
      take (length (particles s)) (particles (flap rs s)) = particles s) \<and>
   (\<not> gameRunning s \<longrightarrow> flap rs s = s)"
  by (simp add: flap_eq FLAP_STRENGTH_def)

theorem flap_running_or_not_witness:
  "gameRunning midAir \<and>
   velocity (bird (flap calmFeathers (midAir))) = - (15 / 2) \<and>
   length (particles (flap calmFeathers (midAir))) = 3 \<and>
   \<not> gameRunning loadedPage \<and> flap calmFeathers loadedPage = loadedPage"
proof -
  have a: "gameRunning midAir" "particles midAir = []"
    by (simp_all add: midAir_def loadedPage_def)
  have b: "\<not> gameRunning loadedPage" by (simp add: loadedPage_def)
  show ?thesis
    using a b flap_running_or_not [of "midAir" calmFeathers]
      flap_running_or_not [of loadedPage calmFeathers]
    by simp
qed

section \<open>The bird at the floor and at the ceiling\<close>

text \<open>
  Claim C3, as stated, fails in its count for the frame: when the bird reaches the floor in
  the frame in which a pipe reaches the bird, \<^verbatim>\<open>updateBird\<close> ends the game, the frame goes
  on, and \<^verbatim>\<open>checkCollisions\<close> ends the game a second time. The log of that frame holds
  two game-over entries.
\<close>

theorem floor_hit_ends_twice_counterexample:
  "gameRunning groundedAtPipe \<and> hitsFloor groundedAtPipe \<and>
   effects groundedAtPipe = [] \<and>
   effects (updateBird groundedAtPipe) = [GameOverUI 0] \<and>
   effects (gameLoop calmFrame groundedAtPipe) = [GameOverUI 0, Painted, GameOverUI 0] \<and>
   gameEnds (effects (gameLoop calmFrame groundedAtPipe)) = 2"
  by (simp add: groundedAtPipe_def gameLoop_running frameDrawn_def checkCollisions_eq
      updateBird_effects hitsFloor_def updatePipes_def spawnTick_eq pipeStep_def Let_def
      draw_def hits_def isColliding_def birdRect_def topPipeRect_def bottomPipeRect_def
      updateBird_def endGame_eq calmFrame_def constants)

text \<open>
  Claim C3, amended. With the bird's height as \<^verbatim>\<open>startGame\<close> sets it: when velocity plus
  gravity takes the bird's bottom below the floor, \<^verbatim>\<open>updateBird\<close> puts the bird on the floor,
  sets its velocity to 0 and ends the game exactly once; when it takes the bird's top above
  the ceiling, \<^verbatim>\<open>updateBird\<close> puts the bird at \<open>y = 0\<close>, sets its velocity to 0 and changes
  nothing else, so it does not end the game. Over the whole frame of a floor hit the game
  is ended once by the bird update, and once more exactly when the collision check finds
  the bird in a pipe.
\<close>

theorem updateBird_floor_and_ceiling:
  assumes "bird_height (bird s) = BIRD_HEIGHT"
  shows "(hitsFloor s \<longrightarrow>
            bird_y (bird (updateBird s)) = VIRTUAL_HEIGHT - bird_height (bird s) \<and>
            velocity (bird (updateBird s)) = 0 \<and>
            effects (updateBird s) = effects s @ [GameOverUI (score s)] \<and>
            gameEnds (effects (updateBird s)) = gameEnds (effects s) + 1 \<and>
            \<not> gameRunning (updateBird s) \<and> gameOver (updateBird s)) \<and>
         (bird_y (bird s) + (velocity (bird s) + GRAVITY) < 0 \<longrightarrow>
            bird_y (bird (updateBird s)) = 0 \<and>
            velocity (bird (updateBird s)) = 0 \<and>
            updateBird s = s\<lparr>bird := (bird s)\<lparr>velocity := 0, bird_y := 0\<rparr>\<rparr> \<and>
            effects (updateBird s) = effects s \<and>
            gameRunning (updateBird s) = gameRunning s \<and> gameOver (updateBird s) = gameOver s) \<and>
         (gameRunning s \<and> hitsFloor s \<longrightarrow>
            gameEnds (effects (gameLoop fr s)) =
              gameEnds (effects s) + 1 +
              (if \<exists>p\<in>set (pipes (gameLoop fr s)). hits (gameLoop fr s) p then 1 else 0))"
proof -
  have h: "bird_height (bird s) \<le> VIRTUAL_HEIGHT"
    using assms by (simp add: constants)
  have floor: "hitsFloor s \<longrightarrow>
            bird_y (bird (updateBird s)) = VIRTUAL_HEIGHT - bird_height (bird s) \<and>
            velocity (bird (updateBird s)) = 0 \<and>
            effects (updateBird s) = effects s @ [GameOverUI (score s)] \<and>
            gameEnds (effects (updateBird s)) = gameEnds (effects s) + 1 \<and>
            \<not> gameRunning (updateBird s) \<and> gameOver (updateBird s)"
  proof
    assume f: "hitsFloor s"
    then have "VIRTUAL_HEIGHT < bird_y (bird s) + (velocity (bird s) + GRAVITY) + bird_height (bird s)"
      by (simp add: hitsFloor_def)
    from updateBird_floor [OF this h]
    show "bird_y (bird (updateBird s)) = VIRTUAL_HEIGHT - bird_height (bird s) \<and>
            velocity (bird (updateBird s)) = 0 \<and>
            effects (updateBird s) = effects s @ [GameOverUI (score s)] \<and>
            gameEnds (effects (updateBird s)) = gameEnds (effects s) + 1 \<and>
            \<not> gameRunning (updateBird s) \<and> gameOver (updateBird s)"
      by simp
  qed
  have ceil: "bird_y (bird s) + (velocity (bird s) + GRAVITY) < 0 \<longrightarrow>
            bird_y (bird (updateBird s)) = 0 \<and>
            velocity (bird (updateBird s)) = 0 \<and>
            updateBird s = s\<lparr>bird := (bird s)\<lparr>velocity := 0, bird_y := 0\<rparr>\<rparr> \<and>
            effects (updateBird s) = effects s \<and>
            gameRunning (updateBird s) = gameRunning s \<and> gameOver (updateBird s) = gameOver s"
  proof
    assume "bird_y (bird s) + (velocity (bird s) + GRAVITY) < 0"
    from updateBird_ceiling [OF this h]
    show "bird_y (bird (updateBird s)) = 0 \<and>
            velocity (bird (updateBird s)) = 0 \<and>
            updateBird s = s\<lparr>bird := (bird s)\<lparr>velocity := 0, bird_y := 0\<rparr>\<rparr> \<and>
            effects (updateBird s) = effects s \<and>
            gameRunning (updateBird s) = gameRunning s \<and> gameOver (updateBird s) = gameOver s"
      by simp
  qed
  have frame: "gameRunning s \<and> hitsFloor s \<longrightarrow>
            gameEnds (effects (gameLoop fr s)) =
              gameEnds (effects s) + 1 +
              (if \<exists>p\<in>set (pipes (gameLoop fr s)). hits (gameLoop fr s) p then 1 else 0)"
    using gameLoop_gameEnds [of s fr] by simp
  show ?thesis using floor ceil frame by blast
qed

theorem updateBird_floor_and_ceiling_witness:
  "bird_height (bird groundedAtPipe) = BIRD_HEIGHT \<and> gameRunning groundedAtPipe \<and>
   hitsFloor groundedAtPipe \<and>
   bird_y (bird (updateBird groundedAtPipe)) = 579 \<and>
   velocity (bird (updateBird groundedAtPipe)) = 0 \<and>
   effects (updateBird groundedAtPipe) = [GameOverUI 0] \<and>
   bird_height (bird flappedAtCeiling) = BIRD_HEIGHT \<and>
   bird_y (bird flappedAtCeiling) + (velocity (bird flappedAtCeiling) + GRAVITY) < 0 \<and>
   bird_y (bird (updateBird flappedAtCeiling)) = 0 \<and>
   velocity (bird (updateBird flappedAtCeiling)) = 0 \<and>
   effects (updateBird flappedAtCeiling) = []"
proof -
  have g: "bird_height (bird groundedAtPipe) = BIRD_HEIGHT" "gameRunning groundedAtPipe"
    "hitsFloor groundedAtPipe" "effects groundedAtPipe = []" "score groundedAtPipe = 0"
    by (simp_all add: groundedAtPipe_def hitsFloor_def constants)
  have f: "bird_height (bird flappedAtCeiling) = BIRD_HEIGHT"
    "bird_y (bird flappedAtCeiling) + (velocity (bird flappedAtCeiling) + GRAVITY) < 0"
    "effects flappedAtCeiling = []"
    by (simp_all add: flappedAtCeiling_def loadedPage_def initialBird_def constants)
  show ?thesis
    using g f updateBird_floor_and_ceiling [OF g(1)] updateBird_floor_and_ceiling [OF f(1)]
    by (simp add: constants)
qed

section \<open>After the end of a game\<close>

lemma far_clouds:
  "updateClouds (cloudRoll calmFrame) (cloudDraws calmFrame) groundedFarFromPipes
     = groundedFarFromPipes"
  by (simp add: groundedFarFromPipes_def groundedAtPipe_def updateClouds_def calmFrame_def)

text \<open>
  Claim C8, as stated, fails within the frame that ends the game: after \<^verbatim>\<open>updateBird\<close> has
  ended it, the same frame still moves the pipe (from 300 to 298.2) and paints.
\<close>

theorem end_mid_frame_counterexample:
  "gameRunning groundedFarFromPipes \<and>
   updateClouds (cloudRoll calmFrame) (cloudDraws calmFrame) groundedFarFromPipes
     = groundedFarFromPipes \<and>
   \<not> gameRunning (updateBird groundedFarFromPipes) \<and>
   effects (updateBird groundedFarFromPipes) = [GameOverUI 0] \<and>
   map pipe_x (pipes (updateBird groundedFarFromPipes)) = [300] \<and>
   map pipe_x (pipes (gameLoop calmFrame groundedFarFromPipes)) = [1491 / 5] \<and>
   effects (gameLoop calmFrame groundedFarFromPipes) = [GameOverUI 0, Painted]"
proof -
  let ?w = groundedFarFromPipes
  let ?b = "updateBird ?w"
  have w: "gameRunning ?w" "bird_x (bird ?w) = 50" "bird_width (bird ?w) = 28"
    "bird_height (bird ?w) = 21"
    "pipes ?w = [\<lparr>pipe_x = 300, topHeight = 200, bottomY = 400, passed = False\<rparr>]"
    "spawnTimer ?w = 19" "effects ?w = []" "score ?w = 0"
    by (simp_all add: groundedFarFromPipes_def groundedAtPipe_def feather_def)
  have fl: "hitsFloor ?w"
    by (simp add: hitsFloor_def groundedFarFromPipes_def groundedAtPipe_def constants)
  have yb: "bird_y (bird ?b) = 579"
    by (simp add: groundedFarFromPipes_def groundedAtPipe_def updateBird_def Let_def constants)
  have b1: "\<not> gameRunning ?b" "effects ?b = [GameOverUI 0]" "map pipe_x (pipes ?b) = [300]"
    using fl by (simp_all add: updateBird_gameRunning updateBird_effects w)
  let ?d = "frameDrawn calmFrame ?w"
  have dp: "pipes (updatePipes (pipeDraw calmFrame) ?w) = [\<lparr>pipe_x = 1491 / 5, topHeight = 200, bottomY = 400, passed = False\<rparr>]"
    by (simp add: updatePipes_pipes spawnTick_eq w pipeFrame_def onScreen_def constants)
  have de: "effects ?d = [GameOverUI 0, Painted]"
  proof -
    have "pipes (spawnTick (pipeDraw calmFrame) ?b) = pipes ?w"
      by (simp add: spawnTick_eq w constants)
    then have "effects (updatePipes (pipeDraw calmFrame) ?b) = effects ?b"
      by (simp add: updatePipes_def Let_def w pipeStep_def spawnTick_eq constants)
    then show ?thesis
      by (simp add: frameDrawn_def far_clouds b1)
  qed
  have nohit: "\<not> (\<exists>p\<in>set (pipes ?d). hits ?d p)"
    by (simp add: dp hits_def isColliding_def birdRect_def topPipeRect_def bottomPipeRect_def
        w yb constants)
  have g: "gameLoop calmFrame ?w =
      ?d\<lparr>scheduled := scheduled ?d @ [nextHandle ?w],
        nextHandle := Suc (nextHandle ?w), animationFrameId := Some (nextHandle ?w)\<rparr>"
    using nohit by (simp add: gameLoop_running [OF w(1)] checkCollisions_eq)
  show ?thesis using w(1) far_clouds b1 dp de by (simp add: g)
qed

section \<open>Scoring\<close>

lemma pipeAfter_x: "pipe_x (pipeAfter n bx p) = pipe_x p - of_nat n * PIPE_SPEED"
  by (induction n) (simp_all add: pipeFrame_def algebra_simps)

lemma speed_pos: "0 < PIPE_SPEED"
  by (simp add: PIPE_SPEED_def)

lemma edge_mono:
  "m \<le> n \<Longrightarrow> pipe_x p - of_nat n * PIPE_SPEED \<le> pipe_x p - of_nat m * PIPE_SPEED"
proof -
  assume "m \<le> n"
  then have "(of_nat m :: rat) \<le> of_nat n" by simp
  then have "of_nat m * PIPE_SPEED \<le> of_nat n * PIPE_SPEED"
    using speed_pos by (simp add: mult_right_mono)
  then show ?thesis by simp
qed

lemma pipeAfter_passed:
  "passed (pipeAfter n bx p) \<longleftrightarrow>
     passed p \<or> (0 < n \<and> pipe_x p - of_nat n * PIPE_SPEED + PIPE_WIDTH < bx)"
proof (induction n)
  case 0
  show ?case by simp
next
  case (Suc n)
  have step: "pipe_x p - of_nat (Suc n) * PIPE_SPEED \<le> pipe_x p - of_nat n * PIPE_SPEED"
    by (rule edge_mono) simp
  have "passed (pipeAfter (Suc n) bx p) \<longleftrightarrow>
      passed (pipeAfter n bx p) \<or> pipe_x (pipeAfter n bx p) - PIPE_SPEED + PIPE_WIDTH < bx"
    by (simp add: pipeFrame_def)
  also have "pipe_x (pipeAfter n bx p) - PIPE_SPEED = pipe_x p - of_nat (Suc n) * PIPE_SPEED"
    by (simp add: pipeAfter_x algebra_simps)
  finally show ?case using Suc.IH step by auto
qed

lemma scoresNow_pipeAfter:
  "\<not> passed p \<Longrightarrow>
   scoresNow bx (pipeAfter n bx p) \<longleftrightarrow>
     pipe_x p - of_nat (Suc n) * PIPE_SPEED + PIPE_WIDTH < bx \<and>
     \<not> (0 < n \<and> pipe_x p - of_nat n * PIPE_SPEED + PIPE_WIDTH < bx)"
proof -
  assume np: "\<not> passed p"
  have "pipe_x (pipeAfter n bx p) - PIPE_SPEED = pipe_x p - of_nat (Suc n) * PIPE_SPEED"
    by (simp add: pipeAfter_x algebra_simps)
  then show ?thesis
    using np by (auto simp: scoresNow_def pipeAfter_passed)
qed

lemma scoresNow_first_frame:
  assumes "\<not> passed p"
  shows "scoresNow bx (pipeAfter n bx p) \<longleftrightarrow>
     pipe_x (pipeAfter (Suc n) bx p) + PIPE_WIDTH < bx \<and>
     (\<forall>m. 0 < m \<and> m \<le> n \<longrightarrow> \<not> pipe_x (pipeAfter m bx p) + PIPE_WIDTH < bx)"
proof -
  have "(\<forall>m. 0 < m \<and> m \<le> n \<longrightarrow> \<not> pipe_x p - of_nat m * PIPE_SPEED + PIPE_WIDTH < bx)
      \<longleftrightarrow> \<not> (0 < n \<and> pipe_x p - of_nat n * PIPE_SPEED + PIPE_WIDTH < bx)"
  proof
    assume a: "\<forall>m. 0 < m \<and> m \<le> n \<longrightarrow> \<not> pipe_x p - of_nat m * PIPE_SPEED + PIPE_WIDTH < bx"
    show "\<not> (0 < n \<and> pipe_x p - of_nat n * PIPE_SPEED + PIPE_WIDTH < bx)"
      using a by auto
  next
    assume b: "\<not> (0 < n \<and> pipe_x p - of_nat n * PIPE_SPEED + PIPE_WIDTH < bx)"
    show "\<forall>m. 0 < m \<and> m \<le> n \<longrightarrow> \<not> pipe_x p - of_nat m * PIPE_SPEED + PIPE_WIDTH < bx"
    proof (intro allI impI)
      fix m assume m: "0 < m \<and> m \<le> n"
      then have "0 < n" by simp
      with b have "bx \<le> pipe_x p - of_nat n * PIPE_SPEED + PIPE_WIDTH" by simp
      moreover have "pipe_x p - of_nat n * PIPE_SPEED \<le> pipe_x p - of_nat m * PIPE_SPEED"
        using m by (intro edge_mono) simp
      ultimately show "\<not> pipe_x p - of_nat m * PIPE_SPEED + PIPE_WIDTH < bx" by simp
    qed
  qed
  then show ?thesis
    by (simp add: scoresNow_pipeAfter [OF assms] pipeAfter_x del: of_nat_Suc pipeAfter.simps)
qed

lemma scoresNow_unique:
  assumes np: "\<not> passed p"
    and n: "scoresNow bx (pipeAfter n bx p)" and m: "scoresNow bx (pipeAfter m bx p)"
  shows "m = n"
proof -
  have less: False if ab: "a < b" and sa: "scoresNow bx (pipeAfter a bx p)"
    and sb: "scoresNow bx (pipeAfter b bx p)" for a b
  proof -
    have 1: "pipe_x p - of_nat (Suc a) * PIPE_SPEED + PIPE_WIDTH < bx"
      using sa scoresNow_pipeAfter [OF np] by blast
    have 2: "\<not> pipe_x p - of_nat b * PIPE_SPEED + PIPE_WIDTH < bx"
      using sb ab scoresNow_pipeAfter [OF np, of bx b] by auto
    have "pipe_x p - of_nat b * PIPE_SPEED \<le> pipe_x p - of_nat (Suc a) * PIPE_SPEED"
      using ab by (intro edge_mono) simp
    with 1 2 show False by simp
  qed
  show ?thesis
  proof (rule ccontr)
    assume "m \<noteq> n"
    then consider "m < n" | "n < m" by linarith
    then show False using less n m by cases blast+
  qed
qed

lemma scoresNow_exists:
  assumes np: "\<not> passed p"
  shows "\<exists>n. scoresNow bx (pipeAfter n bx p)"
proof -
  let ?P = "\<lambda>n. pipe_x p - of_nat (Suc n) * PIPE_SPEED + PIPE_WIDTH < bx"
  obtain k :: nat where k: "(pipe_x p + PIPE_WIDTH - bx) / PIPE_SPEED < of_nat k"
    using reals_Archimedean2 by blast
  then have "pipe_x p + PIPE_WIDTH - bx < of_nat k * PIPE_SPEED"
    using speed_pos by (simp add: pos_divide_less_eq)
  also have "of_nat k * PIPE_SPEED \<le> of_nat (Suc k) * PIPE_SPEED"
    using speed_pos by (intro mult_right_mono) simp_all
  finally have "?P k" by (simp add: algebra_simps)
  then have ex: "\<exists>n. ?P n" ..
  let ?N = "LEAST n. ?P n"
  have PN: "?P ?N" using ex by (rule LeastI_ex)
  have "\<not> (0 < ?N \<and> pipe_x p - of_nat ?N * PIPE_SPEED + PIPE_WIDTH < bx)"
  proof
    assume a: "0 < ?N \<and> pipe_x p - of_nat ?N * PIPE_SPEED + PIPE_WIDTH < bx"
    then obtain j where j: "?N = Suc j" by (cases ?N) auto
    then have "?P j" using a by simp
    then have "?N \<le> j" by (rule Least_le)
    then show False using j by simp
  qed
  then have "scoresNow bx (pipeAfter ?N bx p)"
    using PN scoresNow_pipeAfter [OF np, of bx ?N] by blast
  then show ?thesis ..
qed

lemma updatePipes_score_mono: "score s \<le> score (updatePipes r s)"
  by (simp add: updatePipes_score)

lemma gameLoop_score_mono: "score s \<le> score (gameLoop fr s)"
proof (cases "gameRunning s")
  case True
  then show ?thesis
    by (simp add: gameLoop_running checkCollisions_eq updatePipes_score)
next
  case False
  then show ?thesis by (simp add: gameLoop_def)
qed

text \<open>
  Claim C1. One run of \<^verbatim>\<open>updatePipes\<close> adds to the score the number of pipes it visits
  that are not yet marked and whose right edge, after the move, is strictly left of the
  bird; it marks exactly those, together with the increment, and a marked pipe stays
  marked and is never counted. So for an unmarked pipe, followed through the rounds that
  visit it, the round that counts it is the first whose move takes its right edge strictly
  left of the bird, and there is exactly one such round. The score never goes down in
  \<^verbatim>\<open>updatePipes\<close>, in a frame, or by a flap.
\<close>

theorem score_once_per_pipe:
  "score (updatePipes r s) =
     score s + int (length (filter (scoresNow (bird_x (bird s))) (pipes (spawnTick r s)))) \<and>
   pipes (updatePipes r s) =
     filter onScreen (map (pipeFrame (bird_x (bird s))) (pipes (spawnTick r s))) \<and>
   (scoresNow bx p \<longleftrightarrow> \<not> passed p \<and> pipe_x (pipeFrame bx p) + PIPE_WIDTH < bx) \<and>
   (scoresNow bx p \<longrightarrow> passed (pipeFrame bx p)) \<and>
   (passed p \<longrightarrow> passed (pipeFrame bx p) \<and> \<not> scoresNow bx p) \<and>
   (\<not> passed p \<longrightarrow>
      (scoresNow bx (pipeAfter n bx p) \<longleftrightarrow>
         pipe_x (pipeAfter (Suc n) bx p) + PIPE_WIDTH < bx \<and>
         (\<forall>m. 0 < m \<and> m \<le> n \<longrightarrow> \<not> pipe_x (pipeAfter m bx p) + PIPE_WIDTH < bx)) \<and>
      (\<exists>!k. scoresNow bx (pipeAfter k bx p))) \<and>
   score s \<le> score (updatePipes r s) \<and>
   score s \<le> score (gameLoop fr s) \<and>
   score (flap rs s) = score s \<and>
   score s \<le> score (handle (Frame h fr) s) \<and>
   score (handle (Flap rs) s) = score s"
proof -
  have once: "\<exists>!k. scoresNow bx (pipeAfter k bx p)" if np: "\<not> passed p"
  proof -
    obtain k where k: "scoresNow bx (pipeAfter k bx p)"
      using scoresNow_exists [OF np] by blast
    show ?thesis
    proof (rule ex1I [of _ k])
      show "scoresNow bx (pipeAfter k bx p)" by (rule k)
    next
      fix j assume "scoresNow bx (pipeAfter j bx p)"
      then show "j = k" using scoresNow_unique [OF np k] by blast
    qed
  qed
  have fr: "score s \<le> score (handle (Frame h fr) s)"
    using gameLoop_score_mono [of "s\<lparr>scheduled := removeAll h (scheduled s)\<rparr>" fr] by simp
  have flag: "(scoresNow bx p \<longleftrightarrow> \<not> passed p \<and> pipe_x (pipeFrame bx p) + PIPE_WIDTH < bx) \<and>
      (scoresNow bx p \<longrightarrow> passed (pipeFrame bx p)) \<and>
      (passed p \<longrightarrow> passed (pipeFrame bx p) \<and> \<not> scoresNow bx p)"
    by (auto simp: scoresNow_def pipeFrame_def)
  show ?thesis
    using once scoresNow_first_frame [of p bx n] fr flag
    by (simp add: updatePipes_score updatePipes_pipes gameLoop_score_mono flap_eq)
qed

theorem score_once_per_pipe_witness:
  "score pipesAtBird = 4 \<and> score (updatePipes (1 / 2) pipesAtBird) = 5 \<and>
   pipes (updatePipes (1 / 2) pipesAtBird) =
     [\<lparr>pipe_x = 2 / 5, topHeight = 200, bottomY = 400, passed = True\<rparr>] \<and>
   \<not> passed (pipes pipesAtBird ! 1) \<and>
   scoresNow 50 (pipeAfter 0 50 (pipes pipesAtBird ! 1)) \<and>
   pipe_x (pipeAfter (Suc 0) 50 (pipes pipesAtBird ! 1)) + PIPE_WIDTH < 50 \<and>
   passed (pipeFrame 50 (pipes pipesAtBird ! 1)) \<and>
   passed (pipes pipesAtBird ! 0) \<and> \<not> scoresNow 50 (pipes pipesAtBird ! 0)"
proof -
  have w: "score pipesAtBird = 4" "bird_x (bird pipesAtBird) = 50" "spawnTimer pipesAtBird = 0"
    "pipes pipesAtBird =
       [\<lparr>pipe_x = - (232 / 5), topHeight = 200, bottomY = 400, passed = True\<rparr>,
        \<lparr>pipe_x = 11 / 5, topHeight = 200, bottomY = 400, passed = False\<rparr>]"
    by (simp_all add: pipesAtBird_def midAir_def loadedPage_def initialBird_def constants)
  have sp: "pipes (spawnTick (1 / 2) pipesAtBird) = pipes pipesAtBird"
    by (simp add: spawnTick_eq w constants)
  show ?thesis
    using score_once_per_pipe [of "1 / 2" pipesAtBird 50 "pipes pipesAtBird ! 1" 0]
      score_once_per_pipe [of "1 / 2" pipesAtBird 50 "pipes pipesAtBird ! 0" 0]
    by (simp add: w sp scoresNow_def pipeFrame_def onScreen_def constants)
qed

section \<open>Pruning comes after counting\<close>

text \<open>
  The number of marked pipes in the list against the score: a round that counts a pipe
  marks it, a round that prunes a pipe takes a marked pipe away, so the score exceeds the
  number of marked pipes by the number of pipes pruned so far.
\<close>

lemma flagged_count:
  assumes "\<forall>q\<in>set P. (pr q \<longrightarrow> pa q) \<and> \<not> (pa q \<and> sn q)"
  shows "int (length (filter (\<lambda>q. \<not> pr q \<and> (pa q \<or> sn q)) P)) =
     int (length (filter pa P)) + int (length (filter sn P)) - int (length (filter pr P))"
  using assms by (induction P) auto

lemma pruned_were_flagged:
  assumes sh: "birdShape s" and ah: "pipesAhead s"
  shows "\<forall>q\<in>set (pipes (spawnTick r s)). prunedNow q \<longrightarrow> passed q \<and> \<not> scoresNow BIRD_X q"
proof -
  have old: "prunedNow q \<longrightarrow> passed q" if "q \<in> set (pipes s)" for q
  proof
    assume pr: "prunedNow q"
    show "passed q"
    proof (rule ccontr)
      assume "\<not> passed q"
      then have "BIRD_X \<le> pipe_x q + PIPE_WIDTH"
        using ah that by (simp add: pipesAhead_def)
      then show False using pr by (simp add: prunedNow_def constants)
    qed
  qed
  have new: "\<not> prunedNow (newPipe r None)"
    by (simp add: prunedNow_def newPipe_def constants)
  have "\<forall>q\<in>set (pipes (spawnTick r s)). prunedNow q \<longrightarrow> passed q"
    using old new by (auto simp: spawnTick_eq generatePipe_eq)
  then show ?thesis by (auto simp: scoresNow_def)
qed

lemma spawnTick_flagged:
  "filter passed (pipes (spawnTick r s)) = filter passed (pipes s)"
  by (simp add: spawnTick_eq generatePipe_eq newPipe_def)

lemma updatePipes_surplus:
  assumes sh: "birdShape s" and ah: "pipesAhead s"
  shows "score (updatePipes r s) - int (length (filter passed (pipes (updatePipes r s)))) =
     score s - int (length (filter passed (pipes s))) +
     int (length (filter prunedNow (pipes (spawnTick r s))))"
proof -
  let ?P = "pipes (spawnTick r s)"
  have bx: "bird_x (bird s) = BIRD_X" using sh by (simp add: birdShape_def)
  have a: "\<forall>q\<in>set ?P. (prunedNow q \<longrightarrow> passed q) \<and> \<not> (passed q \<and> scoresNow BIRD_X q)"
    using pruned_were_flagged [OF sh ah, of r] by (auto simp: scoresNow_def)
  have f: "filter passed (filter onScreen (map (pipeFrame BIRD_X) ?P)) =
      map (pipeFrame BIRD_X) (filter (\<lambda>q. \<not> prunedNow q \<and> (passed q \<or> scoresNow BIRD_X q)) ?P)"
    by (simp add: filter_map comp_def onScreen_def pipeFrame_def prunedNow_def scoresNow_def)
       (rule arg_cong [where f = "map _"], rule filter_cong, auto)
  have "int (length (filter passed (pipes (updatePipes r s)))) =
      int (length (filter passed ?P)) + int (length (filter (scoresNow BIRD_X) ?P))
        - int (length (filter prunedNow ?P))"
    by (simp only: updatePipes_pipes bx f length_map flagged_count [OF a])
  then show ?thesis
    by (simp add: updatePipes_score bx spawnTick_flagged)
qed

lemma gameLoop_surplus:
  assumes sh: "birdShape s" and ah: "pipesAhead s"
  shows "score (gameLoop fr s) - int (length (filter passed (pipes (gameLoop fr s)))) =
     score s - int (length (filter passed (pipes s))) +
     (if gameRunning s then int (length (filter prunedNow (pipes (spawnTick (pipeDraw fr) s))))
      else 0)"
proof (cases "gameRunning s")
  case True
  have "pipes (gameLoop fr s) = pipes (updatePipes (pipeDraw fr) s)"
    "score (gameLoop fr s) = score (updatePipes (pipeDraw fr) s)"
    by (simp_all add: gameLoop_running [OF True])
  then show ?thesis
    using updatePipes_surplus [OF sh ah, of "pipeDraw fr"] True by simp
next
  case False
  then show ?thesis by (simp add: gameLoop_def)
qed

lemma startGame_surplus:
  "score (startGame sr s) = 0 \<and> filter passed (pipes (startGame sr s)) = []"
proof -
  let ?t = "startSetup sr s"
  have run: "gameRunning ?t" by simp
  have "score (startGame sr s) = 0"
    unfolding startGame_def
    by (simp add: gameLoop_score [OF run] spawnTick_eq scoresNow_def newPipe_def initialBird_def
        constants)
  moreover have "filter passed (pipes (startGame sr s)) = []"
    unfolding startGame_def
    by (simp add: gameLoop_pipes [OF run] spawnTick_eq pipeFrame_def onScreen_def newPipe_def
        initialBird_def constants)
  ultimately show ?thesis by simp
qed

lemma handle_surplus:
  assumes inv: "birdShape s \<and> pipesAhead s"
    and le: "int (length (filter passed (pipes s))) \<le> score s"
  shows "int (length (filter passed (pipes (handle e s)))) \<le> score (handle e s)"
proof (cases e)
  case (Start sr)
  then show ?thesis using startGame_surplus [of sr s] by simp
next
  case (Flap rs)
  then show ?thesis using le by (simp add: flap_eq)
next
  case (Frame h fr)
  show ?thesis
  proof (cases "h \<in> set (scheduled s)")
    case True
    let ?s = "s\<lparr>scheduled := removeAll h (scheduled s)\<rparr>"
    have sh: "birdShape ?s" and ah: "pipesAhead ?s"
      using inv by (simp_all add: birdShape_def pipesAhead_def)
    have "score (gameLoop fr ?s) - int (length (filter passed (pipes (gameLoop fr ?s)))) \<ge>
        score s - int (length (filter passed (pipes s)))"
      using gameLoop_surplus [OF sh ah, of fr] by simp
    then show ?thesis using Frame True le by simp
  next
    case False
    then show ?thesis using Frame le by simp
  qed
qed

lemma reachable_surplus:
  "reachable s \<Longrightarrow> int (length (filter passed (pipes s))) \<le> score s"
proof (induction rule: reachable.induct)
  case (boot s sr)
  show ?case using startGame_surplus [of sr s] by simp
next
  case (event s e)
  have "birdShape s \<and> pipesAhead s" using reachable_invariant [OF event.hyps] by blast
  then show ?case using event.IH by (rule handle_surplus)
qed


text \<open>
  Claim C10. In one round, the test for counting precedes the test for pruning, so for a
  bird right of 0 a pipe that the round prunes has its flag set by then; and a round sets
  the flag exactly when it counts the pipe. From the first start on, the bird is at
  \<open>BIRD_X = 50\<close>, every unmarked pipe has its right edge at or right of the bird, and
  the score is at least the number of marked pipes (a game starts with score 0 and no
  marked pipe). In such a state \<^verbatim>\<open>updatePipes\<close> keeps the pipes that are still on screen
  after the move and adds to the score the number of pipes it marks; every pipe it prunes
  was marked, and so counted, before this frame, and is not counted again; the score
  less the number of marked pipes grows by the number of pipes pruned, in \<^verbatim>\<open>updatePipes\<close>
  and in the whole frame, so that every pruned pipe stays in the score; and the state it
  returns is such a state again. (\<^verbatim>\<open>startGame\<close> replaces the whole list by a new one and
  sets the score to 0: that starts a new game and is no pruning.)
\<close>

theorem pruned_pipes_were_counted:
  "(0 < bx \<and> prunedNow p \<longrightarrow> passed (pipeFrame bx p)) \<and>
   (prunedNow p \<longleftrightarrow> \<not> onScreen (pipeFrame bx p)) \<and>
   (passed (pipeFrame bx p) \<longleftrightarrow> passed p \<or> scoresNow bx p) \<and>
   0 < BIRD_X \<and>
   score (startGame sr s) = 0 \<and> filter passed (pipes (startGame sr s)) = [] \<and>
   (reachable s \<longrightarrow>
      birdShape s \<and> pipesAhead s \<and> int (length (filter passed (pipes s))) \<le> score s) \<and>
   (birdShape s \<and> pipesAhead s \<longrightarrow>
      pipes (updatePipes r s) =
        filter onScreen (map (pipeFrame BIRD_X) (pipes (spawnTick r s))) \<and>
      score (updatePipes r s) =
        score s + int (length (filter (scoresNow BIRD_X) (pipes (spawnTick r s)))) \<and>
      (\<forall>q\<in>set (pipes (spawnTick r s)). prunedNow q \<longrightarrow> passed q \<and> \<not> scoresNow BIRD_X q) \<and>
      score (updatePipes r s) - int (length (filter passed (pipes (updatePipes r s)))) =
        score s - int (length (filter passed (pipes s))) +
        int (length (filter prunedNow (pipes (spawnTick r s)))) \<and>
      score (gameLoop fr s) - int (length (filter passed (pipes (gameLoop fr s)))) =
        score s - int (length (filter passed (pipes s))) +
        (if gameRunning s
         then int (length (filter prunedNow (pipes (spawnTick (pipeDraw fr) s)))) else 0) \<and>
      pipesAhead (updatePipes r s))"
proof -
  have a: "0 < bx \<and> prunedNow p \<longrightarrow> passed (pipeFrame bx p)"
    by (auto simp: prunedNow_def pipeFrame_def)
  have b: "prunedNow p \<longleftrightarrow> \<not> onScreen (pipeFrame bx p)"
    by (simp add: prunedNow_def onScreen_def pipeFrame_def)
  have b': "passed (pipeFrame bx p) \<longleftrightarrow> passed p \<or> scoresNow bx p"
    by (auto simp: pipeFrame_def scoresNow_def)
  have c: "reachable s \<longrightarrow>
      birdShape s \<and> pipesAhead s \<and> int (length (filter passed (pipes s))) \<le> score s"
    using reachable_invariant reachable_surplus by blast
  have d: "birdShape s \<and> pipesAhead s \<longrightarrow>
      pipes (updatePipes r s) =
        filter onScreen (map (pipeFrame BIRD_X) (pipes (spawnTick r s))) \<and>
      score (updatePipes r s) =
        score s + int (length (filter (scoresNow BIRD_X) (pipes (spawnTick r s)))) \<and>
      (\<forall>q\<in>set (pipes (spawnTick r s)). prunedNow q \<longrightarrow> passed q \<and> \<not> scoresNow BIRD_X q) \<and>
      score (updatePipes r s) - int (length (filter passed (pipes (updatePipes r s)))) =
        score s - int (length (filter passed (pipes s))) +
        int (length (filter prunedNow (pipes (spawnTick r s)))) \<and>
      score (gameLoop fr s) - int (length (filter passed (pipes (gameLoop fr s)))) =
        score s - int (length (filter passed (pipes s))) +
        (if gameRunning s
         then int (length (filter prunedNow (pipes (spawnTick (pipeDraw fr) s)))) else 0) \<and>
      pipesAhead (updatePipes r s)"
  proof
    assume inv: "birdShape s \<and> pipesAhead s"
    then have sh: "birdShape s" and ah: "pipesAhead s" by simp_all
    have bx: "bird_x (bird s) = BIRD_X" using sh by (simp add: birdShape_def)
    have p: "pipes (updatePipes r s) =
        filter onScreen (map (pipeFrame BIRD_X) (pipes (spawnTick r s)))"
      by (simp add: updatePipes_pipes bx)
    have sc: "score (updatePipes r s) =
        score s + int (length (filter (scoresNow BIRD_X) (pipes (spawnTick r s))))"
      by (simp add: updatePipes_score bx)
    have nx: "pipesAhead (updatePipes r s)"
      unfolding pipesAhead_def p using pipeFrame_ahead by auto
    show "pipes (updatePipes r s) =
        filter onScreen (map (pipeFrame BIRD_X) (pipes (spawnTick r s))) \<and>
      score (updatePipes r s) =
        score s + int (length (filter (scoresNow BIRD_X) (pipes (spawnTick r s)))) \<and>
      (\<forall>q\<in>set (pipes (spawnTick r s)). prunedNow q \<longrightarrow> passed q \<and> \<not> scoresNow BIRD_X q) \<and>
      score (updatePipes r s) - int (length (filter passed (pipes (updatePipes r s)))) =
        score s - int (length (filter passed (pipes s))) +
        int (length (filter prunedNow (pipes (spawnTick r s)))) \<and>
      score (gameLoop fr s) - int (length (filter passed (pipes (gameLoop fr s)))) =
        score s - int (length (filter passed (pipes s))) +
        (if gameRunning s
         then int (length (filter prunedNow (pipes (spawnTick (pipeDraw fr) s)))) else 0) \<and>
      pipesAhead (updatePipes r s)"
      by (intro conjI p sc nx pruned_were_flagged [OF sh ah] updatePipes_surplus [OF sh ah]
          gameLoop_surplus [OF sh ah])
  qed
  have e: "0 < BIRD_X" by (simp add: BIRD_X_def)
  show ?thesis
    by (intro conjI a b b' c d e startGame_surplus [THEN conjunct1]
        startGame_surplus [THEN conjunct2])
qed

theorem pruned_pipes_were_counted_witness:
  "reachable (startGame calmStart loadedPage) \<and>
   birdShape (startGame calmStart loadedPage) \<and> pipesAhead (startGame calmStart loadedPage) \<and>
   int (length (filter passed (pipes (startGame calmStart loadedPage))))
     \<le> score (startGame calmStart loadedPage) \<and>
   birdShape pipesAtBird \<and> pipesAhead pipesAtBird \<and>
   (0::rat) < 50 \<and> prunedNow (pipes pipesAtBird ! 0) \<and> passed (pipes pipesAtBird ! 0) \<and>
   \<not> scoresNow 50 (pipes pipesAtBird ! 0) \<and>
   passed (pipeFrame 50 (pipes pipesAtBird ! 0)) \<and>
   scoresNow 50 (pipes pipesAtBird ! 1) \<and> \<not> prunedNow (pipes pipesAtBird ! 1) \<and>
   pipes (updatePipes (1 / 2) pipesAtBird) =
     [\<lparr>pipe_x = 2 / 5, topHeight = 200, bottomY = 400, passed = True\<rparr>] \<and>
   score pipesAtBird = 4 \<and> score (updatePipes (1 / 2) pipesAtBird) = 5 \<and>
   score pipesAtBird - int (length (filter passed (pipes pipesAtBird))) = 3 \<and>
   score (updatePipes (1 / 2) pipesAtBird)
     - int (length (filter passed (pipes (updatePipes (1 / 2) pipesAtBird)))) = 4"
proof -
  have w: "birdShape pipesAtBird" "spawnTimer pipesAtBird = 0" "score pipesAtBird = 4"
    "pipes pipesAtBird =
       [\<lparr>pipe_x = - (232 / 5), topHeight = 200, bottomY = 400, passed = True\<rparr>,
        \<lparr>pipe_x = 11 / 5, topHeight = 200, bottomY = 400, passed = False\<rparr>]"
    by (simp_all add: pipesAtBird_def midAir_def loadedPage_def initialBird_def birdShape_def)
  have ah: "pipesAhead pipesAtBird"
    by (simp add: pipesAhead_def w constants)
  have sp: "pipes (spawnTick (1 / 2) pipesAtBird) = pipes pipesAtBird"
    by (simp add: spawnTick_eq w constants)
  have pr: "(0::rat) < 50 \<and> prunedNow (pipes pipesAtBird ! 0)"
    by (simp add: w prunedNow_def constants)
  note start = pruned_pipes_were_counted
      [of 50 "pipes pipesAtBird ! 0" calmStart "startGame calmStart loadedPage" "1 / 2" calmFrame,
       THEN conjunct2, THEN conjunct2, THEN conjunct2, THEN conjunct2, THEN conjunct2,
       THEN conjunct2, THEN conjunct1, THEN mp, OF reachable_calm]
  note flag = pruned_pipes_were_counted
      [of 50 "pipes pipesAtBird ! 0" calmStart pipesAtBird "1 / 2" calmFrame,
       THEN conjunct1, THEN mp, OF pr]
  note frame = pruned_pipes_were_counted
      [of 50 "pipes pipesAtBird ! 0" calmStart pipesAtBird "1 / 2" calmFrame,
       THEN conjunct2, THEN conjunct2, THEN conjunct2, THEN conjunct2, THEN conjunct2,
       THEN conjunct2, THEN conjunct2, THEN mp, OF conjI [OF w(1) ah]]
  have f1: "pipes (updatePipes (1 / 2) pipesAtBird) =
      [\<lparr>pipe_x = 2 / 5, topHeight = 200, bottomY = 400, passed = True\<rparr>]"
    using frame [THEN conjunct1]
    by (simp add: w sp pipeFrame_def onScreen_def constants)
  have f2: "score (updatePipes (1 / 2) pipesAtBird) = 5"
    using frame [THEN conjunct2, THEN conjunct1]
    by (simp add: w sp scoresNow_def constants)
  have f3: "score (updatePipes (1 / 2) pipesAtBird)
     - int (length (filter passed (pipes (updatePipes (1 / 2) pipesAtBird)))) = 4"
    using frame [THEN conjunct2, THEN conjunct2, THEN conjunct2, THEN conjunct1]
    by (simp only: sp) (simp add: w prunedNow_def constants)
  have rest: "passed (pipes pipesAtBird ! 0) \<and> \<not> scoresNow 50 (pipes pipesAtBird ! 0) \<and>
      scoresNow 50 (pipes pipesAtBird ! 1) \<and> \<not> prunedNow (pipes pipesAtBird ! 1) \<and>
      score pipesAtBird - int (length (filter passed (pipes pipesAtBird))) = 3"
    by (simp add: w scoresNow_def prunedNow_def constants)
  show ?thesis
    using reachable_calm start w(1,3) ah pr flag f1 f2 f3 rest by simp
qed

section \<open>Restarting while a callback is queued\<close>

text \<open>
  \<^verbatim>\<open>endGame\<close> cancels the callback whose handle is in \<open>animationFrameId\<close>; called from
  inside a frame, that is the callback now running, and the frame goes on to request the
  next one. \<^verbatim>\<open>startGame\<close> cancels nothing (\<open>startGame_queue\<close>). The lemmas follow a bird
  that falls from the start to the floor without a flap.
\<close>

lemma updateBird_scheduled:
  "scheduled (updateBird s) =
     (if hitsFloor s
      then (case animationFrameId s of
              Some h \<Rightarrow> if h \<noteq> 0 then removeAll h (scheduled s) else scheduled s
            | None \<Rightarrow> scheduled s)
      else scheduled s)"
  by (simp add: updateBird_def Let_def endGame_eq hitsFloor_def split: option.split)

lemma updateBird_gameOver: "gameOver (updateBird s) \<longleftrightarrow> gameOver s \<or> hitsFloor s"
  by (simp add: updateBird_def Let_def endGame_eq hitsFloor_def)

lemma updatePipes_spawnTimer: "spawnTimer (updatePipes r s) = spawnTimer (spawnTick r s)"
proof -
  obtain ps sc es where "pipesLoop (length (pipes (spawnTick r s))) (spawnTick r s) =
      (spawnTick r s)\<lparr>pipes := ps, score := sc, effects := effects (spawnTick r s) @ es\<rparr>"
    using pipesLoop_frame [of "length (pipes (spawnTick r s))" "spawnTick r s"] by auto
  then show ?thesis by (simp add: updatePipes_def Let_def)
qed

lemma frameDrawn_queue:
  "scheduled (frameDrawn fr s) = scheduled (updateBird s)"
  "gameOver (frameDrawn fr s) \<longleftrightarrow> gameOver s \<or> hitsFloor s"
  "spawnTimer (frameDrawn fr s) = spawnTimer (spawnTick (pipeDraw fr) s)"
proof -
  let ?c = "updateClouds (cloudRoll fr) (cloudDraws fr) s"
  have hf: "hitsFloor ?c = hitsFloor s" by (simp add: hitsFloor_def)
  show "scheduled (frameDrawn fr s) = scheduled (updateBird s)"
    by (simp add: frameDrawn_def updateBird_scheduled hf split: option.split)
  show "gameOver (frameDrawn fr s) \<longleftrightarrow> gameOver s \<or> hitsFloor s"
    by (simp add: frameDrawn_def updateBird_gameOver hf)
  show "spawnTimer (frameDrawn fr s) = spawnTimer (spawnTick (pipeDraw fr) s)"
    by (simp add: frameDrawn_def updatePipes_spawnTimer spawnTick_eq)
qed

lemma far_pipe_no_hit:
  "bird_x (bird s) + bird_width (bird s) \<le> pipe_x p \<Longrightarrow> \<not> hits s p"
  by (simp add: hits_def isColliding_def birdRect_def topPipeRect_def bottomPipeRect_def)

lemma gameLoop_live:
  assumes run: "gameRunning s" and nf: "\<not> hitsFloor s"
    and far: "\<forall>p\<in>set (pipes (updatePipes (pipeDraw fr) s)).
                bird_x (bird s) + bird_width (bird s) \<le> pipe_x p"
  shows "gameLoop fr s =
     (frameDrawn fr s)
       \<lparr>scheduled := scheduled s @ [nextHandle s],
        nextHandle := Suc (nextHandle s),
        animationFrameId := Some (nextHandle s)\<rparr>"
proof -
  have "\<not> hits (frameDrawn fr s) p" if "p \<in> set (pipes (frameDrawn fr s))" for p
  proof (rule far_pipe_no_hit)
    show "bird_x (bird (frameDrawn fr s)) + bird_width (bird (frameDrawn fr s)) \<le> pipe_x p"
      using far that by simp
  qed
  then have "checkCollisions (frameDrawn fr s) = frameDrawn fr s"
    by (simp add: checkCollisions_eq)
  then show ?thesis
    using nf by (simp add: gameLoop_running [OF run] frameDrawn_queue updateBird_scheduled)
qed

lemma gameLoop_grounded:
  assumes run: "gameRunning s" and hf: "hitsFloor s"
    and far: "\<forall>p\<in>set (pipes (updatePipes (pipeDraw fr) s)).
                bird_x (bird s) + bird_width (bird s) \<le> pipe_x p"
  shows "gameLoop fr s =
     (frameDrawn fr s)
       \<lparr>scheduled := scheduled (updateBird s) @ [nextHandle s],
        nextHandle := Suc (nextHandle s),
        animationFrameId := Some (nextHandle s)\<rparr>"
proof -
  have "\<not> hits (frameDrawn fr s) p" if "p \<in> set (pipes (frameDrawn fr s))" for p
  proof (rule far_pipe_no_hit)
    show "bird_x (bird (frameDrawn fr s)) + bird_width (bird (frameDrawn fr s)) \<le> pipe_x p"
      using far that by simp
  qed
  then have "checkCollisions (frameDrawn fr s) = frameDrawn fr s"
    by (simp add: checkCollisions_eq)
  then show ?thesis
    by (simp add: gameLoop_running [OF run] frameDrawn_queue)
qed

lemma startSetup_far:
  "\<forall>p\<in>set (pipes (updatePipes r (startSetup sr s))).
     bird_x (bird (startSetup sr s)) + bird_width (bird (startSetup sr s)) \<le> pipe_x p"
  by (simp add: updatePipes_pipes spawnTick_eq initialBird_def newPipe_def pipeFrame_def
      onScreen_def constants)

lemma startSetup_no_floor: "\<not> hitsFloor (startSetup sr s)"
  by (simp add: hitsFloor_def initialBird_def constants)

lemma startGame_live:
  "startGame sr s =
     (frameDrawn (firstFrame sr) (startSetup sr s))
       \<lparr>scheduled := scheduled s @ [nextHandle s],
        nextHandle := Suc (nextHandle s),
        animationFrameId := Some (nextHandle s)\<rparr>"
  unfolding startGame_def
  using gameLoop_live [OF _ startSetup_no_floor startSetup_far, of sr s "firstFrame sr"]
  by simp

lemma startGame_queue:
  "gameRunning (startGame sr s)"
  "scheduled (startGame sr s) = scheduled s @ [nextHandle s]"
  "nextHandle (startGame sr s) = Suc (nextHandle s)"
  "animationFrameId (startGame sr s) = Some (nextHandle s)"
  by (simp_all add: startGame_live startSetup_no_floor)

lemma freeFall_queue [simp]: "freeFall k (s\<lparr>scheduled := q\<rparr>) = freeFall k s"
  by (simp add: freeFall_def birdShape_def)

lemma fall_bound:
  fixes k :: nat
  assumes "k \<le> 43"
  shows "(of_nat k :: rat) * (of_nat k + 1) \<le> 1892"
proof -
  have a: "(of_nat k :: rat) \<le> 43" using assms by simp
  then have b: "(of_nat k :: rat) + 1 \<le> 44" by simp
  have "(of_nat k :: rat) * (of_nat k + 1) \<le> 43 * 44"
    using a b by (intro mult_mono) simp_all
  then show ?thesis by simp
qed

lemma freeFall_far:
  assumes ff: "freeFall k s" and k: "k \<le> 43"
  shows "\<forall>p\<in>set (pipes (updatePipes r s)).
           bird_x (bird s) + bird_width (bird s) \<le> pipe_x p \<and>
           450 - of_nat (Suc k) * PIPE_SPEED \<le> pipe_x p"
proof
  fix p assume "p \<in> set (pipes (updatePipes r s))"
  moreover have "pipes (spawnTick r s) = pipes s"
    using ff k by (simp add: spawnTick_eq freeFall_def constants)
  ultimately obtain q where q: "q \<in> set (pipes s)" and p: "p = pipeFrame (bird_x (bird s)) q"
    by (auto simp: updatePipes_pipes)
  have "450 - of_nat k * PIPE_SPEED \<le> pipe_x q"
    using ff q by (simp add: freeFall_def)
  then have x: "450 - of_nat (Suc k) * PIPE_SPEED \<le> pipe_x p"
    by (simp add: p pipeFrame_def algebra_simps)
  have "(of_nat (Suc k) :: rat) \<le> 44" using k by simp
  then have "of_nat (Suc k) * PIPE_SPEED \<le> 44 * PIPE_SPEED"
    by (intro mult_right_mono) (simp_all add: PIPE_SPEED_def)
  moreover have "44 * PIPE_SPEED = 396 / 5" by (simp add: PIPE_SPEED_def)
  ultimately have "of_nat (Suc k) * PIPE_SPEED \<le> 396 / 5" by simp
  then have "78 \<le> pipe_x p" using x by linarith
  moreover have "bird_x (bird s) + bird_width (bird s) = 78"
    using ff by (simp add: freeFall_def birdShape_def constants)
  ultimately show "bird_x (bird s) + bird_width (bird s) \<le> pipe_x p \<and>
           450 - of_nat (Suc k) * PIPE_SPEED \<le> pipe_x p"
    using x by simp
qed

lemma freeFall_frame:
  assumes ff: "freeFall k s" and k: "k < 43"
  shows "freeFall (Suc k) (gameLoop fr s) \<and>
         scheduled (gameLoop fr s) = scheduled s @ [nextHandle s] \<and>
         nextHandle (gameLoop fr s) = Suc (nextHandle s) \<and>
         animationFrameId (gameLoop fr s) = Some (nextHandle s)"
proof -
  have run: "gameRunning s" and sh: "birdShape s" using ff by (simp_all add: freeFall_def)
  have v: "velocity (bird s) = GRAVITY * of_nat k"
    and y: "bird_y (bird s) = 579 / 2 + 3 / 20 * (of_nat k * (of_nat k + 1))"
    using ff by (simp_all add: freeFall_def)
  define m :: rat where "m = of_nat (Suc k) * (of_nat (Suc k) + 1)"
  have y': "bird_y (bird s) + (velocity (bird s) + GRAVITY) = 579 / 2 + 3 / 20 * m"
    by (simp add: v y m_def GRAVITY_def field_simps)
  have bound: "m \<le> 1892"
    unfolding m_def using k by (intro fall_bound) simp
  have m0: "0 \<le> m" unfolding m_def by simp
  have lo: "0 \<le> bird_y (bird s) + (velocity (bird s) + GRAVITY)"
    unfolding y' using m0 by simp
  have hi: "bird_y (bird s) + (velocity (bird s) + GRAVITY) + bird_height (bird s) \<le> VIRTUAL_HEIGHT"
    unfolding y' using bound sh by (simp add: birdShape_def constants)
  have nf: "\<not> hitsFloor s" using hi by (simp add: hitsFloor_def)
  have far: "\<forall>p\<in>set (pipes (updatePipes (pipeDraw fr) s)).
           bird_x (bird s) + bird_width (bird s) \<le> pipe_x p \<and>
           450 - of_nat (Suc k) * PIPE_SPEED \<le> pipe_x p"
    using ff k by (intro freeFall_far) simp_all
  then have far': "\<forall>p\<in>set (pipes (updatePipes (pipeDraw fr) s)).
           bird_x (bird s) + bird_width (bird s) \<le> pipe_x p"
    by blast
  note g = gameLoop_live [OF run nf far']
  have b: "bird (gameLoop fr s) =
      (bird s)\<lparr>velocity := velocity (bird s) + GRAVITY,
                bird_y := bird_y (bird s) + (velocity (bird s) + GRAVITY)\<rparr>"
    by (simp add: g updateBird_free [OF lo hi])
  have t: "spawnTimer (gameLoop fr s) = int (Suc k)"
    using ff k by (simp add: g frameDrawn_queue spawnTick_eq freeFall_def constants)
  have "freeFall (Suc k) (gameLoop fr s)"
    unfolding freeFall_def
  proof (intro conjI)
    show "gameRunning (gameLoop fr s)" using run nf by (simp add: g)
    show "birdShape (gameLoop fr s)" using sh by (rule birdShape_gameLoop)
    show "velocity (bird (gameLoop fr s)) = GRAVITY * of_nat (Suc k)"
      by (simp add: b v algebra_simps)
    show "bird_y (bird (gameLoop fr s)) = 579 / 2 + 3 / 20 * (of_nat (Suc k) * (of_nat (Suc k) + 1))"
      using y' by (simp add: b m_def)
    show "spawnTimer (gameLoop fr s) = int (Suc k)" by (rule t)
    show "\<forall>p\<in>set (pipes (gameLoop fr s)). 450 - of_nat (Suc k) * PIPE_SPEED \<le> pipe_x p"
      using far by (simp add: g)
  qed
  then show ?thesis by (simp add: g)
qed

lemma freeFall_floor:
  assumes ff: "freeFall 43 s"
  shows "\<not> gameRunning (gameLoop fr s) \<and> gameOver (gameLoop fr s) \<and>
         scheduled (gameLoop fr s) = scheduled (updateBird s) @ [nextHandle s] \<and>
         nextHandle (gameLoop fr s) = Suc (nextHandle s)"
proof -
  have run: "gameRunning s" and sh: "birdShape s" using ff by (simp_all add: freeFall_def)
  have hf: "hitsFloor s"
    using ff by (simp add: hitsFloor_def freeFall_def birdShape_def constants)
  have "\<forall>p\<in>set (pipes (updatePipes (pipeDraw fr) s)).
           bird_x (bird s) + bird_width (bird s) \<le> pipe_x p \<and>
           450 - of_nat (Suc 43) * PIPE_SPEED \<le> pipe_x p"
    using ff by (intro freeFall_far) simp_all
  then have far': "\<forall>p\<in>set (pipes (updatePipes (pipeDraw fr) s)).
           bird_x (bird s) + bird_width (bird s) \<le> pipe_x p"
    by blast
  note g = gameLoop_grounded [OF run hf far']
  show ?thesis using hf by (simp add: g frameDrawn_queue)
qed

lemma freeFall_start: "freeFall 1 (startGame sr s)"
proof -
  let ?s = "startSetup sr s"
  have lo: "0 \<le> bird_y (bird ?s) + (velocity (bird ?s) + GRAVITY)"
    by (simp add: initialBird_def constants)
  have hi: "bird_y (bird ?s) + (velocity (bird ?s) + GRAVITY) + bird_height (bird ?s) \<le> VIRTUAL_HEIGHT"
    by (simp add: initialBird_def constants)
  show ?thesis
    unfolding freeFall_def
  proof (intro conjI)
    show "gameRunning (startGame sr s)" by (rule startGame_queue)
    show "birdShape (startGame sr s)" using startGame_invariant by blast
    show "velocity (bird (startGame sr s)) = GRAVITY * of_nat 1"
      by (simp add: startGame_live updateBird_free [OF lo hi] initialBird_def)
    show "bird_y (bird (startGame sr s)) = 579 / 2 + 3 / 20 * (of_nat 1 * (of_nat 1 + 1))"
      by (simp add: startGame_live updateBird_free [OF lo hi] initialBird_def constants)
    show "spawnTimer (startGame sr s) = int 1"
      by (simp add: startGame_live frameDrawn_queue spawnTick_eq constants)
    show "\<forall>p\<in>set (pipes (startGame sr s)). 450 - of_nat 1 * PIPE_SPEED \<le> pipe_x p"
      by (simp add: startGame_live updatePipes_pipes spawnTick_eq newPipe_def pipeFrame_def
          onScreen_def constants)
  qed
qed

lemma run_append: "run (xs @ ys) s = run ys (run xs s)"
  by (induction xs arbitrary: s) simp_all

lemma calmFrames_Suc: "calmFrames 1 (Suc n) = calmFrames 1 n @ [Frame (Suc n) calmFrame]"
  by (simp add: calmFrames_def)

lemma reachable_run: "reachable s \<Longrightarrow> reachable (run es s)"
  by (induction es arbitrary: s) (simp_all add: reachable.event)

lemma frame_on_queue:
  "scheduled s = [h] \<Longrightarrow> run [Frame h fr] s = gameLoop fr (s\<lparr>scheduled := []\<rparr>)"
  by simp

lemma falling_run:
  "k \<le> 42 \<Longrightarrow>
   freeFall (Suc k) (run (Start calmStart # calmFrames 1 k) loadedPage) \<and>
   scheduled (run (Start calmStart # calmFrames 1 k) loadedPage) = [Suc k] \<and>
   nextHandle (run (Start calmStart # calmFrames 1 k) loadedPage) = Suc (Suc k) \<and>
   animationFrameId (run (Start calmStart # calmFrames 1 k) loadedPage) = Some (Suc k)"
proof (induction k)
  case 0
  have "run (Start calmStart # calmFrames 1 0) loadedPage = startGame calmStart loadedPage"
    by (simp add: calmFrames_def)
  then show ?case
    using freeFall_start [of calmStart loadedPage]
    by (simp add: startGame_queue) (simp add: loadedPage_def)
next
  case (Suc k)
  define t where "t = run (Start calmStart # calmFrames 1 k) loadedPage"
  have ih: "freeFall (Suc k) t" "scheduled t = [Suc k]" "nextHandle t = Suc (Suc k)"
    using Suc by (simp_all add: t_def)
  have "run (Start calmStart # calmFrames 1 (Suc k)) loadedPage =
      run ((Start calmStart # calmFrames 1 k) @ [Frame (Suc k) calmFrame]) loadedPage"
    by (simp only: calmFrames_Suc append_Cons)
  also have "\<dots> = run [Frame (Suc k) calmFrame] t"
    unfolding t_def by (rule run_append)
  also have "\<dots> = gameLoop calmFrame (t\<lparr>scheduled := []\<rparr>)"
    using ih(2) by (rule frame_on_queue)
  finally have e: "run (Start calmStart # calmFrames 1 (Suc k)) loadedPage =
      gameLoop calmFrame (t\<lparr>scheduled := []\<rparr>)" .
  have "freeFall (Suc k) (t\<lparr>scheduled := []\<rparr>)" using ih(1) by simp
  moreover have "Suc k < 43" using Suc.prems by simp
  ultimately have
    "freeFall (Suc (Suc k)) (gameLoop calmFrame (t\<lparr>scheduled := []\<rparr>)) \<and>
     scheduled (gameLoop calmFrame (t\<lparr>scheduled := []\<rparr>)) = [Suc (Suc k)] \<and>
     nextHandle (gameLoop calmFrame (t\<lparr>scheduled := []\<rparr>)) = Suc (Suc (Suc k)) \<and>
     animationFrameId (gameLoop calmFrame (t\<lparr>scheduled := []\<rparr>)) = Some (Suc (Suc k))"
    using freeFall_frame [of "Suc k" "t\<lparr>scheduled := []\<rparr>" calmFrame]
    by (simp add: ih)
  then show ?case unfolding e .
qed

lemma gameOverPending_facts:
  "\<not> gameRunning gameOverPending" "gameOver gameOverPending"
  "scheduled gameOverPending = [44]" "nextHandle gameOverPending = 45"
  "reachable gameOverPending"
proof -
  define t where "t = run (Start calmStart # calmFrames 1 42) loadedPage"
  have ih: "freeFall 43 t" "scheduled t = [43]" "nextHandle t = 44" "animationFrameId t = Some 43"
    using falling_run [of 42] by (simp_all add: t_def)
  have "gameOverPending =
      run ((Start calmStart # calmFrames 1 42) @ [Frame 43 calmFrame]) loadedPage"
    unfolding gameOverPending_def using calmFrames_Suc [of 42] by (simp only: append_Cons) simp
  also have "\<dots> = run [Frame 43 calmFrame] t"
    unfolding t_def by (rule run_append)
  also have "\<dots> = gameLoop calmFrame (t\<lparr>scheduled := []\<rparr>)"
    using ih(2) by (rule frame_on_queue)
  finally have e: "gameOverPending = gameLoop calmFrame (t\<lparr>scheduled := []\<rparr>)" .
  have ff: "freeFall 43 (t\<lparr>scheduled := []\<rparr>)" using ih(1) by simp
  have hf: "hitsFloor (t\<lparr>scheduled := []\<rparr>)"
    using ih(1) by (simp add: hitsFloor_def freeFall_def birdShape_def constants)
  have u: "scheduled (updateBird (t\<lparr>scheduled := []\<rparr>)) = []"
    using hf by (simp add: updateBird_scheduled ih)
  show "\<not> gameRunning gameOverPending" "gameOver gameOverPending"
    "scheduled gameOverPending = [44]" "nextHandle gameOverPending = 45"
    using freeFall_floor [OF ff, of calmFrame] by (simp_all add: e u ih)
  have "run (Start calmStart # calmFrames 1 43) loadedPage =
      run (calmFrames 1 43) (startGame calmStart loadedPage)"
    by simp
  then show "reachable gameOverPending"
    unfolding gameOverPending_def using reachable_run [OF reachable_calm] by simp
qed

lemma second_chain_frame:
  assumes run: "gameRunning s" and sh: "birdShape s"
    and lo: "0 \<le> bird_y (bird s) + (velocity (bird s) + GRAVITY)"
    and hi: "bird_y (bird s) + (velocity (bird s) + GRAVITY) + bird_height (bird s) \<le> VIRTUAL_HEIGHT"
    and far: "\<forall>p\<in>set (pipes s). 100 \<le> pipe_x p"
    and timer: "spawnTimer s + 1 < PIPE_INTERVAL"
    and q: "scheduled s = [a, b]" and ab: "a \<noteq> b"
  shows "gameRunning (run [Frame a fr] s) \<and> birdShape (run [Frame a fr] s) \<and>
         velocity (bird (run [Frame a fr] s)) = velocity (bird s) + GRAVITY \<and>
         bird_y (bird (run [Frame a fr] s)) = bird_y (bird s) + (velocity (bird s) + GRAVITY) \<and>
         map pipe_x (pipes (run [Frame a fr] s)) = map (\<lambda>p. pipe_x p - PIPE_SPEED) (pipes s) \<and>
         spawnTimer (run [Frame a fr] s) = spawnTimer s + 1 \<and>
         scheduled (run [Frame a fr] s) = [b, nextHandle s] \<and>
         nextHandle (run [Frame a fr] s) = Suc (nextHandle s)"
proof -
  let ?s = "s\<lparr>scheduled := [b]\<rparr>"
  have e: "run [Frame a fr] s = gameLoop fr ?s"
    using q ab by simp
  have nf: "\<not> hitsFloor ?s" using hi by (simp add: hitsFloor_def)
  have sp: "pipes (spawnTick (pipeDraw fr) ?s) = pipes s"
    using timer by (simp add: spawnTick_eq)
  have on: "onScreen (pipeFrame bx p)" if "p \<in> set (pipes s)" for p bx
    using far that by (auto simp: onScreen_def pipeFrame_def constants)
  have ps: "pipes (updatePipes (pipeDraw fr) ?s) = map (pipeFrame (bird_x (bird s))) (pipes s)"
    using on by (simp add: updatePipes_pipes sp filter_id_conv)
  have far': "\<forall>p\<in>set (pipes (updatePipes (pipeDraw fr) ?s)).
      bird_x (bird ?s) + bird_width (bird ?s) \<le> pipe_x p"
    using far sh by (auto simp: ps pipeFrame_def birdShape_def constants)
  have g: "gameLoop fr ?s =
      (frameDrawn fr ?s)\<lparr>scheduled := [b, nextHandle s], nextHandle := Suc (nextHandle s),
        animationFrameId := Some (nextHandle s)\<rparr>"
    using gameLoop_live [of ?s fr] run nf far' by simp
  have b: "bird (updateBird ?s) =
      (bird s)\<lparr>velocity := velocity (bird s) + GRAVITY,
                bird_y := bird_y (bird s) + (velocity (bird s) + GRAVITY)\<rparr>"
    using updateBird_free [of ?s] lo hi by simp
  have sh': "birdShape (gameLoop fr ?s)"
    using sh by (intro birdShape_gameLoop) (simp add: birdShape_def)
  have t: "spawnTimer (gameLoop fr ?s) = spawnTimer s + 1"
    using timer by (simp add: g frameDrawn_queue spawnTick_eq)
  have px: "map pipe_x (pipes (gameLoop fr ?s)) = map (\<lambda>p. pipe_x p - PIPE_SPEED) (pipes s)"
    by (simp add: g ps pipeFrame_def comp_def)
  show ?thesis
    unfolding e using run nf sh' t px by (simp add: g b)
qed

text \<open>
  Claim C7 fails on the code. The page is loaded and the player never flaps: the 44th
  frame puts the bird on the floor and ends the game, and leaves callback 44 queued. The
  restart control is clicked before the browser runs it (the click reaches the window
  too, so a flap follows the start). \<^verbatim>\<open>startGame\<close> queues callback 45 beside callback 44,
  and since the game runs again, callback 44 passes the guard of \<^verbatim>\<open>gameLoop\<close>: both
  callbacks update the world and queue a successor each. Two chains run from then on: in
  one display refresh the bird gains gravity twice and the pipes move twice.
\<close>

theorem restart_before_pending_callback:
  "pageLoaded loadedPage \<and>
   reachable gameOverPending \<and>
   \<not> gameRunning gameOverPending \<and> gameOver gameOverPending \<and>
   scheduled gameOverPending = [44] \<and>
   reachable restartedEarly \<and>
   gameRunning restartedEarly \<and> scheduled restartedEarly = [44, 45] \<and>
   velocity (bird restartedEarly) = - (15 / 2) \<and>
   map pipe_x (pipes restartedEarly) = [2241 / 5, 3681 / 5, 5121 / 5] \<and>
   gameRunning (run [Frame 44 calmFrame] restartedEarly) \<and>
   scheduled (run [Frame 44 calmFrame] restartedEarly) = [45, 46] \<and>
   velocity (bird (run [Frame 44 calmFrame] restartedEarly)) = - (36 / 5) \<and>
   map pipe_x (pipes (run [Frame 44 calmFrame] restartedEarly)) = [2232 / 5, 3672 / 5, 5112 / 5] \<and>
   gameRunning (run [Frame 44 calmFrame, Frame 45 calmFrame] restartedEarly) \<and>
   scheduled (run [Frame 44 calmFrame, Frame 45 calmFrame] restartedEarly) = [46, 47] \<and>
   velocity (bird (run [Frame 44 calmFrame, Frame 45 calmFrame] restartedEarly)) = - (69 / 10) \<and>
   map pipe_x (pipes (run [Frame 44 calmFrame, Frame 45 calmFrame] restartedEarly))
     = [2223 / 5, 3663 / 5, 5103 / 5]"
proof -
  have pl: "pageLoaded loadedPage" by (simp add: pageLoaded_def loadedPage_def)
  define r where "r = startGame calmStart gameOverPending"
  have re: "restartedEarly = flap calmFeathers r"
    by (simp add: restartedEarly_def r_def)
  have r0: "freeFall 1 r" unfolding r_def by (rule freeFall_start)
  have r1: "gameRunning r" "scheduled r = [44, 45]" "nextHandle r = 46"
    by (simp_all add: r_def startGame_queue gameOverPending_facts)
  have rp: "pipes r = map (pipeFrame BIRD_X)
      [newPipe (241 / 2) (Some 450), newPipe (241 / 2) (Some 738), newPipe (241 / 2) (Some 1026)]"
    by (simp add: r_def startGame_live updatePipes_pipes spawnTick_eq calmStart_def
        initialBird_def onScreen_def pipeFrame_def newPipe_def constants)
  have w: "gameRunning restartedEarly" "birdShape restartedEarly"
    "velocity (bird restartedEarly) = - (15 / 2)" "bird_y (bird restartedEarly) = 1449 / 5"
    "spawnTimer restartedEarly = 1" "scheduled restartedEarly = [44, 45]"
    "nextHandle restartedEarly = 46"
    "map pipe_x (pipes restartedEarly) = [2241 / 5, 3681 / 5, 5121 / 5]"
    using r0 r1
    by (simp_all add: re flap_eq freeFall_def birdShape_def rp pipeFrame_def newPipe_def constants)
  have rr: "reachable restartedEarly"
    unfolding restartedEarly_def using gameOverPending_facts(5) by (rule reachable_run)
  have wfar: "\<forall>p\<in>set (pipes restartedEarly). 100 \<le> pipe_x p"
    using r1 by (simp add: re flap_eq rp pipeFrame_def newPipe_def constants)
  define u where "u = run [Frame 44 calmFrame] restartedEarly"
  have u0: "gameRunning u \<and> birdShape u \<and>
         velocity (bird u) = velocity (bird restartedEarly) + GRAVITY \<and>
         bird_y (bird u) = bird_y (bird restartedEarly) + (velocity (bird restartedEarly) + GRAVITY) \<and>
         map pipe_x (pipes u) = map (\<lambda>p. pipe_x p - PIPE_SPEED) (pipes restartedEarly) \<and>
         spawnTimer u = spawnTimer restartedEarly + 1 \<and>
         scheduled u = [45, nextHandle restartedEarly] \<and>
         nextHandle u = Suc (nextHandle restartedEarly)"
    unfolding u_def
    using w wfar
    by (intro second_chain_frame) (simp_all add: birdShape_def constants)
  have ux: "map pipe_x (pipes u) = [2232 / 5, 3672 / 5, 5112 / 5]"
    using u0 w(8) by (simp add: map_eq_Cons_conv constants)
  have u1: "gameRunning u" "birdShape u" "velocity (bird u) = - (36 / 5)"
    "bird_y (bird u) = 1413 / 5" "spawnTimer u = 2" "scheduled u = [45, 46]"
    "nextHandle u = 47"
    using u0 w by (simp_all add: constants)
  have ufar: "\<forall>p\<in>set (pipes u). 100 \<le> pipe_x p"
  proof
    fix p assume "p \<in> set (pipes u)"
    then have "pipe_x p \<in> set (map pipe_x (pipes u))" by simp
    then show "100 \<le> pipe_x p" unfolding ux by auto
  qed
  define v where "v = run [Frame 45 calmFrame] u"
  have v0: "gameRunning v \<and> birdShape v \<and>
         velocity (bird v) = velocity (bird u) + GRAVITY \<and>
         bird_y (bird v) = bird_y (bird u) + (velocity (bird u) + GRAVITY) \<and>
         map pipe_x (pipes v) = map (\<lambda>p. pipe_x p - PIPE_SPEED) (pipes u) \<and>
         spawnTimer v = spawnTimer u + 1 \<and>
         scheduled v = [46, nextHandle u] \<and>
         nextHandle v = Suc (nextHandle u)"
    unfolding v_def
    using u1 ufar
    by (intro second_chain_frame) (simp_all add: birdShape_def constants)
  have vx: "map pipe_x (pipes v) = [2223 / 5, 3663 / 5, 5103 / 5]"
    using v0 ux by (simp add: map_eq_Cons_conv constants)
  have v1: "gameRunning v" "velocity (bird v) = - (69 / 10)" "scheduled v = [46, 47]"
    using v0 u1 by (simp_all add: constants)
  have vv: "run [Frame 44 calmFrame, Frame 45 calmFrame] restartedEarly = v"
    using run_append [of "[Frame 44 calmFrame]" "[Frame 45 calmFrame]" restartedEarly]
    by (simp only: v_def u_def append_Cons append_Nil)
  show ?thesis
    unfolding vv u_def [symmetric]
    using pl gameOverPending_facts rr w u1 ux v1 vx by simp
qed

section \<open>A rising bird at the ceiling\<close>

text \<open>
  The bird's velocity is set to 0 by \<^verbatim>\<open>startGame\<close> and by the two clamps, to
  \<open>FLAP_STRENGTH\<close>, which is \<open>- 25\<close> times \<open>GRAVITY\<close>, by \<^verbatim>\<open>flap\<close>, and is raised by
  \<open>GRAVITY\<close> in every other frame: with the exact numbers of this model it is always a
  whole multiple of \<open>GRAVITY\<close>, so that a rising bird rises at least as fast as gravity
  pulls.
\<close>

lemma updateBird_velocity:
  "velocity (bird (updateBird s)) = 0 \<or>
   velocity (bird (updateBird s)) = velocity (bird s) + GRAVITY"
  by (simp add: updateBird_def Let_def)

lemma gameLoop_velocity:
  "velocity (bird (gameLoop fr s)) = velocity (bird s) \<or>
   velocity (bird (gameLoop fr s)) = 0 \<or>
   velocity (bird (gameLoop fr s)) = velocity (bird s) + GRAVITY"
  using updateBird_velocity [of s] by (simp add: gameLoop_bird)

lemma grid_step:
  fixes v w :: rat
  assumes "\<exists>n::int. v = GRAVITY * of_int n" and "w = v \<or> w = 0 \<or> w = v + GRAVITY"
  shows "\<exists>n::int. w = GRAVITY * of_int n"
proof -
  obtain n :: int where n: "v = GRAVITY * of_int n" using assms(1) by blast
  have z: "(0::rat) = GRAVITY * of_int 0" by simp
  have s: "v + GRAVITY = GRAVITY * of_int (n + 1)" by (simp add: n algebra_simps)
  show ?thesis using assms(2) n z s by blast
qed

lemma startGame_velocity: "\<exists>n::int. velocity (bird (startGame sr s)) = GRAVITY * of_int n"
proof -
  have "\<exists>n::int. velocity (bird (startSetup sr s)) = GRAVITY * of_int n"
    by (intro exI [of _ 0]) (simp add: initialBird_def)
  then show ?thesis
    unfolding startGame_def using gameLoop_velocity by (rule grid_step)
qed

lemma handle_velocity:
  assumes "\<exists>n::int. velocity (bird s) = GRAVITY * of_int n"
  shows "\<exists>n::int. velocity (bird (handle e s)) = GRAVITY * of_int n"
proof (cases e)
  case (Start sr)
  then show ?thesis using startGame_velocity by simp
next
  case (Flap rs)
  have "FLAP_STRENGTH = GRAVITY * of_int (- 25)" by (simp add: constants)
  then have "\<exists>n::int. FLAP_STRENGTH = GRAVITY * of_int n" by blast
  then show ?thesis using Flap assms by (simp add: flap_eq)
next
  case (Frame h fr)
  show ?thesis
  proof (cases "h \<in> set (scheduled s)")
    case True
    let ?s = "s\<lparr>scheduled := removeAll h (scheduled s)\<rparr>"
    have "\<exists>n::int. velocity (bird ?s) = GRAVITY * of_int n" using assms by simp
    then have "\<exists>n::int. velocity (bird (gameLoop fr ?s)) = GRAVITY * of_int n"
      using gameLoop_velocity by (rule grid_step)
    then show ?thesis using Frame True by simp
  next
    case False
    then show ?thesis using Frame assms by simp
  qed
qed

lemma reachable_velocity:
  "reachable s \<Longrightarrow> \<exists>n::int. velocity (bird s) = GRAVITY * of_int n"
proof (induction rule: reachable.induct)
  case (boot s sr)
  show ?case by (rule startGame_velocity)
next
  case (event s e)
  from event.IH show ?case by (rule handle_velocity)
qed

lemma rising_at_least_gravity:
  assumes "\<exists>n::int. v = GRAVITY * of_int n" and "v < 0"
  shows "v \<le> - GRAVITY"
proof -
  obtain n :: int where n: "v = GRAVITY * of_int n" using assms(1) by blast
  have "n < 0"
  proof (rule ccontr)
    assume "\<not> n < 0"
    then have "(0::rat) \<le> of_int n" by simp
    then have "0 \<le> v" unfolding n by (simp add: GRAVITY_def)
    with assms(2) show False by simp
  qed
  then have "n \<le> - 1" by simp
  then have "(of_int n :: rat) \<le> - 1" by (metis of_int_le_iff of_int_minus of_int_1)
  then have "GRAVITY * of_int n \<le> GRAVITY * (- 1)"
    by (intro mult_left_mono) (simp_all add: GRAVITY_def)
  then show ?thesis by (simp add: n)
qed


text \<open>The run of \<open>climbEvents\<close>, frame by frame.\<close>

lemma single_chain_frame:
  assumes run: "gameRunning s" and sh: "birdShape s"
    and hi: "bird_y (bird s) + (velocity (bird s) + GRAVITY) + bird_height (bird s) \<le> VIRTUAL_HEIGHT"
    and far: "\<forall>p\<in>set (pipes s). 100 \<le> pipe_x p"
    and timer: "spawnTimer s + 1 < PIPE_INTERVAL"
    and q: "scheduled s = [a]"
  shows "gameRunning (run [Frame a fr] s) \<and> birdShape (run [Frame a fr] s) \<and>
         bird (run [Frame a fr] s) = bird (updateBird s) \<and>
         map pipe_x (pipes (run [Frame a fr] s)) = map (\<lambda>p. pipe_x p - PIPE_SPEED) (pipes s) \<and>
         spawnTimer (run [Frame a fr] s) = spawnTimer s + 1 \<and>
         scheduled (run [Frame a fr] s) = [nextHandle s] \<and>
         nextHandle (run [Frame a fr] s) = Suc (nextHandle s)"
proof -
  let ?s = "s\<lparr>scheduled := []\<rparr>"
  have e: "run [Frame a fr] s = gameLoop fr ?s"
    using q by (rule frame_on_queue)
  have nf: "\<not> hitsFloor ?s" using hi by (simp add: hitsFloor_def)
  have sp: "pipes (spawnTick (pipeDraw fr) ?s) = pipes s"
    using timer by (simp add: spawnTick_eq)
  have on: "onScreen (pipeFrame bx p)" if "p \<in> set (pipes s)" for p bx
    using far that by (auto simp: onScreen_def pipeFrame_def constants)
  have ps: "pipes (updatePipes (pipeDraw fr) ?s) = map (pipeFrame (bird_x (bird s))) (pipes s)"
    using on by (simp add: updatePipes_pipes sp filter_id_conv)
  have far': "\<forall>p\<in>set (pipes (updatePipes (pipeDraw fr) ?s)).
      bird_x (bird ?s) + bird_width (bird ?s) \<le> pipe_x p"
    using far sh by (auto simp: ps pipeFrame_def birdShape_def constants)
  have g: "gameLoop fr ?s =
      (frameDrawn fr ?s)\<lparr>scheduled := [nextHandle s], nextHandle := Suc (nextHandle s),
        animationFrameId := Some (nextHandle s)\<rparr>"
    using gameLoop_live [of ?s fr] run nf far' by simp
  have b: "bird (updateBird ?s) = bird (updateBird s)"
    by (rule updateBird_bird_cong) simp
  have sh': "birdShape (gameLoop fr ?s)"
    using sh by (intro birdShape_gameLoop) (simp add: birdShape_def)
  have t: "spawnTimer (gameLoop fr ?s) = spawnTimer s + 1"
    using timer by (simp add: g frameDrawn_queue spawnTick_eq)
  have px: "map pipe_x (pipes (gameLoop fr ?s)) = map (\<lambda>p. pipe_x p - PIPE_SPEED) (pipes s)"
    by (simp add: g ps pipeFrame_def comp_def)
  show ?thesis
    unfolding e using run nf sh' t px by (simp add: g b)
qed

lemma moved_pipes_bound:
  assumes "map pipe_x ps' = map (\<lambda>p. pipe_x p - PIPE_SPEED) ps"
    and "\<forall>p\<in>set ps. c \<le> pipe_x p"
  shows "\<forall>p\<in>set ps'. c - PIPE_SPEED \<le> pipe_x p"
proof
  fix p assume "p \<in> set ps'"
  then have "pipe_x p \<in> set (map pipe_x ps')" by simp
  then have "pipe_x p \<in> set (map (\<lambda>p. pipe_x p - PIPE_SPEED) ps)"
    using assms(1) by simp
  then obtain q where "q \<in> set ps" "pipe_x p = pipe_x q - PIPE_SPEED" by auto
  then show "c - PIPE_SPEED \<le> pipe_x p" using assms(2) by simp
qed

lemma climbing_far:
  assumes "climbing k s" and "k \<le> 41"
  shows "\<forall>p\<in>set (pipes s). 100 \<le> pipe_x p"
proof
  fix p assume "p \<in> set (pipes s)"
  then have x: "450 - of_nat (Suc k) * PIPE_SPEED \<le> pipe_x p"
    using assms(1) by (simp add: climbing_def)
  have "(of_nat (Suc k) :: rat) \<le> 42" using assms(2) by simp
  then have "of_nat (Suc k) * PIPE_SPEED \<le> 42 * PIPE_SPEED"
    by (intro mult_right_mono) (simp_all add: PIPE_SPEED_def)
  moreover have "42 * PIPE_SPEED = 378 / 5" by (simp add: PIPE_SPEED_def)
  ultimately have "of_nat (Suc k) * PIPE_SPEED \<le> 378 / 5" by simp
  then show "100 \<le> pipe_x p" using x by linarith
qed

lemma climbing_flap_frame:
  assumes c: "climbing k s" and k: "k \<le> 40"
  shows "gameRunning (run [Flap rs, Frame (Suc k) fr] s) \<and>
         birdShape (run [Flap rs, Frame (Suc k) fr] s) \<and>
         bird (run [Flap rs, Frame (Suc k) fr] s) =
           bird (updateBird (s\<lparr>bird := (bird s)\<lparr>velocity := FLAP_STRENGTH\<rparr>\<rparr>)) \<and>
         spawnTimer (run [Flap rs, Frame (Suc k) fr] s) = int (Suc (Suc k)) \<and>
         (\<forall>p\<in>set (pipes (run [Flap rs, Frame (Suc k) fr] s)).
            450 - of_nat (Suc (Suc k)) * PIPE_SPEED \<le> pipe_x p) \<and>
         scheduled (run [Flap rs, Frame (Suc k) fr] s) = [Suc (Suc k)] \<and>
         nextHandle (run [Flap rs, Frame (Suc k) fr] s) = Suc (Suc (Suc k))"
proof -
  define f where "f = flap rs s"
  have run: "gameRunning s" and sh: "birdShape s" using c by (simp_all add: climbing_def)
  have y: "bird_y (bird s) = 1449 / 5 - 36 / 5 * of_nat k" using c by (simp add: climbing_def)
  have f1: "gameRunning f" "birdShape f" "velocity (bird f) = FLAP_STRENGTH"
    "bird_y (bird f) = bird_y (bird s)" "pipes f = pipes s" "spawnTimer f = int (Suc k)"
    "scheduled f = [Suc k]" "nextHandle f = Suc (Suc k)"
    "bird f = (bird s)\<lparr>velocity := FLAP_STRENGTH\<rparr>"
    using c by (simp_all add: f_def flap_eq climbing_def birdShape_def)
  have y0: "bird_y (bird s) \<le> 1449 / 5" unfolding y by simp
  have hi: "bird_y (bird f) + (velocity (bird f) + GRAVITY) + bird_height (bird f) \<le> VIRTUAL_HEIGHT"
    using y0 f1 by (simp add: birdShape_def constants)
  have far: "\<forall>p\<in>set (pipes f). 100 \<le> pipe_x p"
    unfolding f1(5) using c by (rule climbing_far) (use k in simp)
  have timer: "spawnTimer f + 1 < PIPE_INTERVAL"
    using k by (simp add: f1 constants)
  note fr = single_chain_frame [OF f1(1) f1(2) hi far timer f1(7), of fr]
  have e: "run [Flap rs, Frame (Suc k) fr] s = run [Frame (Suc k) fr] f"
    by (simp add: f_def)
  have b: "bird (updateBird f) = bird (updateBird (s\<lparr>bird := (bird s)\<lparr>velocity := FLAP_STRENGTH\<rparr>\<rparr>))"
    by (rule updateBird_bird_cong) (simp add: f1)
  have old: "\<forall>p\<in>set (pipes f). 450 - of_nat (Suc k) * PIPE_SPEED \<le> pipe_x p"
    unfolding f1(5) using c by (simp add: climbing_def)
  have "\<forall>p\<in>set (pipes (run [Frame (Suc k) fr] f)).
      450 - of_nat (Suc k) * PIPE_SPEED - PIPE_SPEED \<le> pipe_x p"
    using fr old by (intro moved_pipes_bound [of _ "pipes f"]) blast+
  then have new: "\<forall>p\<in>set (pipes (run [Frame (Suc k) fr] f)).
      450 - of_nat (Suc (Suc k)) * PIPE_SPEED \<le> pipe_x p"
    by (simp add: algebra_simps)
  show ?thesis
    unfolding e using fr new b by (simp add: f1)
qed

lemma climbEvents_Suc:
  "climbEvents (Suc n) = climbEvents n @ [Flap calmFeathers, Frame (Suc n) calmFrame]"
  by (simp add: climbEvents_def)

lemma climbing_run:
  "k \<le> 40 \<Longrightarrow> climbing k (run (Start calmStart # climbEvents k) loadedPage)"
proof (induction k)
  case 0
  have e: "run (Start calmStart # climbEvents 0) loadedPage =
      run (Start calmStart # calmFrames 1 0) loadedPage"
    by (simp add: climbEvents_def calmFrames_def)
  show ?case
    unfolding e using falling_run [of 0]
    by (simp add: climbing_def freeFall_def del: run.simps)
next
  case (Suc k)
  define t where "t = run (Start calmStart # climbEvents k) loadedPage"
  have c: "climbing k t" using Suc by (simp add: t_def)
  have k: "k \<le> 40" using Suc.prems by simp
  have "run (Start calmStart # climbEvents (Suc k)) loadedPage =
      run ((Start calmStart # climbEvents k) @ [Flap calmFeathers, Frame (Suc k) calmFrame]) loadedPage"
    by (simp only: climbEvents_Suc append_Cons)
  also have "\<dots> = run [Flap calmFeathers, Frame (Suc k) calmFrame] t"
    unfolding t_def by (rule run_append)
  finally have e: "run (Start calmStart # climbEvents (Suc k)) loadedPage =
      run [Flap calmFeathers, Frame (Suc k) calmFrame] t" .
  note st = climbing_flap_frame [OF c k, of calmFeathers calmFrame]
  let ?f = "t\<lparr>bird := (bird t)\<lparr>velocity := FLAP_STRENGTH\<rparr>\<rparr>"
  have y: "bird_y (bird t) = 1449 / 5 - 36 / 5 * of_nat k" using c by (simp add: climbing_def)
  have kk: "(of_nat k :: rat) \<le> 39" using Suc.prems by simp
  have lo: "0 \<le> bird_y (bird ?f) + (velocity (bird ?f) + GRAVITY)"
    using kk by (simp add: y constants)
  have hi: "bird_y (bird ?f) + (velocity (bird ?f) + GRAVITY) + bird_height (bird ?f) \<le> VIRTUAL_HEIGHT"
    using c by (simp add: y climbing_def birdShape_def constants)
  have b: "bird_y (bird (updateBird ?f)) = 1449 / 5 - 36 / 5 * of_nat (Suc k)"
    by (subst updateBird_free [OF lo hi]) (simp add: y constants field_simps)
  show ?case
    unfolding e climbing_def using st b by simp
qed

lemma atCeiling_facts:
  "reachable atCeiling" "gameRunning atCeiling" "bird_y (bird atCeiling) = 0"
  "velocity (bird atCeiling) = - (15 / 2)"
proof -
  define t where "t = run (Start calmStart # climbEvents 40) loadedPage"
  have c: "climbing 40 t" unfolding t_def by (rule climbing_run) simp
  define u where "u = run [Flap calmFeathers, Frame 41 calmFrame] t"
  have "atCeiling =
      run (((Start calmStart # climbEvents 40) @ [Flap calmFeathers, Frame 41 calmFrame])
        @ [Flap calmFeathers]) loadedPage"
    unfolding atCeiling_def using climbEvents_Suc [of 40] by (simp only: append_Cons append_assoc) simp
  also have "\<dots> = run [Flap calmFeathers] u"
    unfolding u_def t_def by (simp only: run_append)
  finally have e: "atCeiling = flap calmFeathers u" by simp
  note st = climbing_flap_frame [OF c, of calmFeathers calmFrame]
  let ?f = "t\<lparr>bird := (bird t)\<lparr>velocity := FLAP_STRENGTH\<rparr>\<rparr>"
  have y: "bird_y (bird t) = 9 / 5" using c by (simp add: climbing_def)
  have h: "bird_height (bird ?f) \<le> VIRTUAL_HEIGHT"
    using c by (simp add: climbing_def birdShape_def constants)
  have lo: "bird_y (bird ?f) + (velocity (bird ?f) + GRAVITY) < 0"
    by (simp add: y constants)
  have u1: "gameRunning u" "bird_y (bird u) = 0"
    using st by (simp_all only: u_def updateBird_ceiling [OF lo h]) simp_all
  show "gameRunning atCeiling" "bird_y (bird atCeiling) = 0"
    "velocity (bird atCeiling) = - (15 / 2)"
    using u1 by (simp_all add: e flap_eq constants)
  have "run (Start calmStart # climbEvents 41 @ [Flap calmFeathers]) loadedPage =
      run (climbEvents 41 @ [Flap calmFeathers]) (startGame calmStart loadedPage)"
    by simp
  then show "reachable atCeiling"
    unfolding atCeiling_def using reachable_run [OF reachable_calm] by simp
qed


text \<open>
  Claim C6. In every state that the page can reach from its first start by starts,
  flaps and frame callbacks, if the bird is at \<open>y = 0\<close> and rising (its velocity is
  negative), then one update of the bird leaves \<open>y\<close> at 0 and sets the velocity to 0, and
  it does not end the game: it changes nothing else, so \<open>gameRunning\<close>, \<open>gameOver\<close> and
  what the page shows are as before.
\<close>

theorem updateBird_at_ceiling:
  assumes "reachable s" and "bird_y (bird s) = 0" and "velocity (bird s) < 0"
  shows "bird_y (bird (updateBird s)) = 0 \<and>
         velocity (bird (updateBird s)) = 0 \<and>
         updateBird s = s\<lparr>bird := (bird s)\<lparr>velocity := 0\<rparr>\<rparr> \<and>
         gameRunning (updateBird s) = gameRunning s \<and>
         gameOver (updateBird s) = gameOver s \<and>
         effects (updateBird s) = effects s \<and>
         gameEnds (effects (updateBird s)) = gameEnds (effects s)"
proof -
  have sh: "birdShape s" using reachable_invariant [OF assms(1)] by blast
  then have h: "bird_height (bird s) \<le> VIRTUAL_HEIGHT" "bird_height (bird s) = 21"
    by (simp_all add: birdShape_def constants)
  have v: "velocity (bird s) \<le> - GRAVITY"
    using reachable_velocity [OF assms(1)] assms(3) by (rule rising_at_least_gravity)
  have e: "updateBird s = s\<lparr>bird := (bird s)\<lparr>velocity := 0\<rparr>\<rparr>"
  proof (cases "velocity (bird s) < - GRAVITY")
    case True
    then have "bird_y (bird s) + (velocity (bird s) + GRAVITY) < 0"
      using assms(2) by simp
    from updateBird_ceiling [OF this h(1)]
    have "updateBird s = s\<lparr>bird := (bird s)\<lparr>velocity := 0, bird_y := bird_y (bird s)\<rparr>\<rparr>"
      using assms(2) by simp
    then show ?thesis by simp
  next
    case False
    with v have eq: "velocity (bird s) + GRAVITY = 0" by simp
    have 1: "0 \<le> bird_y (bird s) + (velocity (bird s) + GRAVITY)"
      using assms(2) eq by simp
    have 2: "bird_y (bird s) + (velocity (bird s) + GRAVITY) + bird_height (bird s) \<le> VIRTUAL_HEIGHT"
      using assms(2) eq h by (simp add: constants)
    from updateBird_free [OF 1 2]
    have "updateBird s = s\<lparr>bird := (bird s)\<lparr>velocity := 0, bird_y := bird_y (bird s)\<rparr>\<rparr>"
      using assms(2) eq by simp
    then show ?thesis by simp
  qed
  show ?thesis
    using assms(2) by (simp add: e)
qed

theorem updateBird_at_ceiling_witness:
  "reachable atCeiling \<and> bird_y (bird atCeiling) = 0 \<and>
   velocity (bird atCeiling) = - (15 / 2) \<and> velocity (bird atCeiling) < 0 \<and>
   bird_y (bird (updateBird atCeiling)) = 0 \<and>
   velocity (bird (updateBird atCeiling)) = 0 \<and>
   gameRunning (updateBird atCeiling) \<and>
   gameEnds (effects (updateBird atCeiling)) = gameEnds (effects atCeiling)"
proof -
  have v: "velocity (bird atCeiling) < 0" by (simp add: atCeiling_facts)
  show ?thesis
    using updateBird_at_ceiling [OF atCeiling_facts(1) atCeiling_facts(3) v]
    by (simp add: atCeiling_facts)
qed

section \<open>A frame runs to its end\<close>

text \<open>
  What one run of \<^verbatim>\<open>updatePipes\<close> writes to the page, what one run of \<^verbatim>\<open>updateParticles\<close>
  reads, and what a frame entered while the game runs writes to the page.
\<close>

lemma scoreTexts_0 [simp]: "scoreTexts sc 0 = []"
  by (simp add: scoreTexts_def)

lemma scoreTexts_Suc: "scoreTexts sc (Suc n) = ScoreText (sc + 1) # scoreTexts (sc + 1) n"
proof -
  have "[1..<Suc (Suc n)] = 1 # map Suc [1..<Suc n]"
    by (simp only: map_Suc_upt) (simp add: upt_conv_Cons)
  then show ?thesis
    by (simp add: scoreTexts_def comp_def add.assoc)
qed

lemma pipesLoop_effects:
  "n \<le> length (pipes s) \<Longrightarrow>
   effects (pipesLoop n s) =
     effects s @ scoreTexts (score s)
       (length (filter (scoresNow (bird_x (bird s))) (take n (pipes s))))"
proof (induction n arbitrary: s)
  case 0
  show ?case by simp
next
  case (Suc n)
  then have lt: "n < length (pipes s)" by simp
  let ?s' = "pipeStep n s"
  have le: "n \<le> length (pipes ?s')" using lt by (simp add: pipeStep_eq)
  have tk: "take n (pipes ?s') = take n (pipes s)" using lt by (simp add: pipeStep_eq)
  have "effects (pipesLoop (Suc n) s) = effects (pipesLoop n ?s')" by simp
  also have "\<dots> = effects ?s' @ scoreTexts (score ?s')
      (length (filter (scoresNow (bird_x (bird ?s'))) (take n (pipes ?s'))))"
    using Suc.IH [OF le] .
  also have "\<dots> = effects s @ scoreTexts (score s)
      (length (filter (scoresNow (bird_x (bird s))) (take (Suc n) (pipes s))))"
  proof (cases "scoresNow (bird_x (bird s)) (pipes s ! n)")
    case True
    have a: "effects ?s' = effects s @ [ScoreText (score s + 1)]" "score ?s' = score s + 1"
      "bird ?s' = bird s"
      using lt True by (simp_all add: pipeStep_eq)
    have c: "length (filter (scoresNow (bird_x (bird s))) (take (Suc n) (pipes s))) =
        Suc (length (filter (scoresNow (bird_x (bird s))) (take n (pipes s))))"
      using lt True by (simp add: take_Suc_conv_app_nth)
    show ?thesis
      by (simp only: a tk c scoreTexts_Suc) simp
  next
    case False
    have a: "effects ?s' = effects s" "score ?s' = score s" "bird ?s' = bird s"
      using lt False by (simp_all add: pipeStep_eq)
    have c: "length (filter (scoresNow (bird_x (bird s))) (take (Suc n) (pipes s))) =
        length (filter (scoresNow (bird_x (bird s))) (take n (pipes s)))"
      using lt False by (simp add: take_Suc_conv_app_nth)
    show ?thesis
      by (simp only: a tk c)
  qed
  finally show ?case .
qed

lemma updatePipes_scoreTexts:
  "effects (updatePipes r s) =
     effects s @ scoreTexts (score s)
       (length (filter (scoresNow (bird_x (bird s))) (pipes (spawnTick r s))))"
proof -
  have "bird (spawnTick r s) = bird s" "score (spawnTick r s) = score s"
    "effects (spawnTick r s) = effects s"
    by (simp_all add: spawnTick_eq)
  then show ?thesis
    using pipesLoop_effects [of "length (pipes (spawnTick r s))" "spawnTick r s"]
    by (simp add: updatePipes_def Let_def)
qed

lemma particleStep_particles:
  "particles (particleStep i s) =
     (let p = particles s ! i;
          ps1 = (particles s)[i := p\<lparr>part_x := part_x p + speedX p,
                                     part_y := part_y p + speedY p,
                                     life := life p - 1\<rparr>]
      in if life (ps1 ! i) \<le> 0 then splice1 i ps1 else ps1)"
  by (simp add: particleStep_def Let_def)

lemma particleStep_cong:
  assumes "particles s = particles s'"
  shows "particles (particleStep i s) = particles (particleStep i s')"
  by (simp only: particleStep_particles assms)

lemma particlesLoop_cong:
  "particles s = particles s' \<Longrightarrow> particles (particlesLoop n s) = particles (particlesLoop n s')"
proof (induction n arbitrary: s s')
  case 0
  then show ?case by simp
next
  case (Suc n)
  have "particles (particleStep n s) = particles (particleStep n s')"
    using Suc.prems by (rule particleStep_cong)
  then have "particles (particlesLoop n (particleStep n s)) =
      particles (particlesLoop n (particleStep n s'))"
    by (rule Suc.IH)
  then show ?case by simp
qed

lemma updateParticles_cong:
  assumes "particles s = particles s'"
  shows "particles (updateParticles s) = particles (updateParticles s')"
  unfolding updateParticles_def assms by (rule particlesLoop_cong) (rule assms)

lemma frameDrawn_effects:
  "effects (frameDrawn fr s) =
     effects s @ (if hitsFloor s then [GameOverUI (score s)] else []) @
     scoreTexts (score s)
       (length (filter (scoresNow (bird_x (bird s))) (pipes (spawnTick (pipeDraw fr) s)))) @
     [Painted]"
proof -
  let ?c = "updateClouds (cloudRoll fr) (cloudDraws fr) s"
  let ?b = "updateBird ?c"
  have hf: "hitsFloor ?c = hitsFloor s" by (simp add: hitsFloor_def)
  have e: "effects ?b = effects s @ (if hitsFloor s then [GameOverUI (score s)] else [])"
    by (simp add: updateBird_effects hf)
  have p: "pipes (spawnTick (pipeDraw fr) ?b) = pipes (spawnTick (pipeDraw fr) s)"
    by (simp add: spawnTick_eq generatePipe_eq)
  have b: "bird_x (bird ?b) = bird_x (bird s)" by simp
  have sc: "score ?b = score s" by simp
  have "effects (frameDrawn fr s) = effects (updatePipes (pipeDraw fr) ?b) @ [Painted]"
    by (simp add: frameDrawn_def draw_def)
  also have "effects (updatePipes (pipeDraw fr) ?b) =
      effects ?b @ scoreTexts (score s)
        (length (filter (scoresNow (bird_x (bird s))) (pipes (spawnTick (pipeDraw fr) s))))"
    by (simp only: updatePipes_scoreTexts p b sc)
  finally show ?thesis by (simp only: e append_assoc)
qed

lemma frameDrawn_rest:
  "particles (frameDrawn fr s) = particles (updateParticles s)"
  "clouds (frameDrawn fr s) = clouds (updateClouds (cloudRoll fr) (cloudDraws fr) s)"
proof -
  show "particles (frameDrawn fr s) = particles (updateParticles s)"
    unfolding frameDrawn_def draw_def
    by (simp, rule updateParticles_cong) simp
  show "clouds (frameDrawn fr s) = clouds (updateClouds (cloudRoll fr) (cloudDraws fr) s)"
    by (simp add: frameDrawn_def draw_def)
qed

lemma gameEnds_scoreTexts [simp]: "gameEnds (scoreTexts sc n) = 0"
  by (rule gameEnds_ScoreTexts) (auto simp: scoreTexts_def)

lemma gameLoop_effects:
  assumes run: "gameRunning s"
  shows "effects (gameLoop fr s) =
     effects s @ (if hitsFloor s then [GameOverUI (score s)] else []) @
     scoreTexts (score s)
       (length (filter (scoresNow (bird_x (bird s))) (pipes (spawnTick (pipeDraw fr) s)))) @
     [Painted] @
     (if \<exists>p\<in>set (pipes (frameDrawn fr s)). hits (frameDrawn fr s) p
      then [GameOverUI (score (gameLoop fr s))] else [])"
proof -
  let ?d = "frameDrawn fr s"
  have sc: "score (gameLoop fr s) = score ?d"
    by (simp add: gameLoop_running [OF run])
  have "effects (gameLoop fr s) = effects (checkCollisions ?d)"
    by (simp add: gameLoop_running [OF run])
  also have "\<dots> = effects ?d @
      (if \<exists>p\<in>set (pipes ?d). hits ?d p then [GameOverUI (score ?d)] else [])"
  proof (cases "\<exists>p\<in>set (pipes ?d). hits ?d p")
    case True
    then show ?thesis by (simp only: checkCollisions_eq if_True endGame_fields)
  next
    case False
    then show ?thesis by (simp only: checkCollisions_eq if_False append_Nil2)
  qed
  finally show ?thesis
    by (simp only: frameDrawn_effects sc append_assoc)
qed


text \<open>
  Claim C8, amended. While \<open>gameRunning\<close> is false, a frame callback returns the state as
  it is (no update, no drawing, no new request; the browser only takes the callback off
  its queue), and a flap does nothing. A frame callback entered while the game runs runs
  to its end, whether or not the game ends in it: it is the cloud update, the bird update,
  the pipe update, the particle update, the draw pass and the collision check, in this
  order, and then the request for the next frame. So the pipes are moved, counted and
  pruned, the spawn timer is advanced, the particles are updated, the page is painted, the
  collision is tested and the next callback is queued also in the frame whose bird update
  has ended the game at the floor; that frame ends the game a second time when the
  grounded bird overlaps a pipe. In a frame that the collision check ends, with or
  without a floor hit before, nothing follows that end but the request for the next frame.
\<close>

theorem frame_runs_to_its_end:
  "(\<not> gameRunning s \<longrightarrow>
      gameLoop fr s = s \<and> flap rs s = s \<and>
      handle (Frame h fr) s = s\<lparr>scheduled := removeAll h (scheduled s)\<rparr>) \<and>
   (gameRunning s \<longrightarrow>
      gameLoop fr s =
        (checkCollisions (draw (updateParticles (updatePipes (pipeDraw fr)
           (updateBird (updateClouds (cloudRoll fr) (cloudDraws fr) s))))))
          \<lparr>scheduled :=
             scheduled (checkCollisions (draw (updateParticles (updatePipes (pipeDraw fr)
               (updateBird (updateClouds (cloudRoll fr) (cloudDraws fr) s)))))) @ [nextHandle s],
           nextHandle := Suc (nextHandle s),
           animationFrameId := Some (nextHandle s)\<rparr> \<and>
      bird (gameLoop fr s) = bird (updateBird s) \<and>
      pipes (gameLoop fr s) =
        filter onScreen (map (pipeFrame (bird_x (bird s))) (pipes (spawnTick (pipeDraw fr) s))) \<and>
      score (gameLoop fr s) =
        score s + int (length (filter (scoresNow (bird_x (bird s)))
          (pipes (spawnTick (pipeDraw fr) s)))) \<and>
      spawnTimer (gameLoop fr s) = spawnTimer (spawnTick (pipeDraw fr) s) \<and>
      particles (gameLoop fr s) = particles (updateParticles s) \<and>
      clouds (gameLoop fr s) = clouds (updateClouds (cloudRoll fr) (cloudDraws fr) s) \<and>
      effects (gameLoop fr s) =
        effects s @ (if hitsFloor s then [GameOverUI (score s)] else []) @
        scoreTexts (score s)
          (length (filter (scoresNow (bird_x (bird s))) (pipes (spawnTick (pipeDraw fr) s)))) @
        [Painted] @
        (if \<exists>p\<in>set (pipes (frameDrawn fr s)). hits (frameDrawn fr s) p
         then [GameOverUI (score (gameLoop fr s))] else []) \<and>
      nextHandle s \<in> set (scheduled (gameLoop fr s)) \<and>
      animationFrameId (gameLoop fr s) = Some (nextHandle s) \<and>
      (gameRunning (gameLoop fr s) \<longleftrightarrow>
         \<not> hitsFloor s \<and> \<not> (\<exists>p\<in>set (pipes (frameDrawn fr s)). hits (frameDrawn fr s) p))) \<and>
   (gameRunning s \<and> hitsFloor s \<longrightarrow>
      \<not> gameRunning (updateBird (updateClouds (cloudRoll fr) (cloudDraws fr) s)) \<and>
      effects (updateBird (updateClouds (cloudRoll fr) (cloudDraws fr) s)) =
        effects s @ [GameOverUI (score s)] \<and>
      gameEnds (effects (gameLoop fr s)) =
        gameEnds (effects s) +
        (if \<exists>p\<in>set (pipes (frameDrawn fr s)). hits (frameDrawn fr s) p then 2 else 1)) \<and>
   (gameRunning s \<and> (\<exists>p\<in>set (pipes (frameDrawn fr s)). hits (frameDrawn fr s) p) \<longrightarrow>
      gameLoop fr s =
        (endGame (frameDrawn fr s))
          \<lparr>scheduled := scheduled (endGame (frameDrawn fr s)) @ [nextHandle s],
           nextHandle := Suc (nextHandle s),
           animationFrameId := Some (nextHandle s)\<rparr>)"
  (is "?idle \<and> ?frame \<and> ?floor \<and> ?hit")
proof -
  let ?d = "frameDrawn fr s"
  let ?c = "updateClouds (cloudRoll fr) (cloudDraws fr) s"
  have idle: ?idle
  proof
    assume n: "\<not> gameRunning s"
    have "h \<notin> set (scheduled s) \<Longrightarrow> s\<lparr>scheduled := removeAll h (scheduled s)\<rparr> = s"
      by simp
    then show "gameLoop fr s = s \<and> flap rs s = s \<and>
      handle (Frame h fr) s = s\<lparr>scheduled := removeAll h (scheduled s)\<rparr>"
      using n by (simp add: gameLoop_def flap_def)
  qed
  have frame: ?frame
  proof
    assume run: "gameRunning s"
    note g = gameLoop_running [OF run, of fr]
    have 1: "gameLoop fr s =
        (checkCollisions (draw (updateParticles (updatePipes (pipeDraw fr)
           (updateBird (updateClouds (cloudRoll fr) (cloudDraws fr) s))))))
          \<lparr>scheduled :=
             scheduled (checkCollisions (draw (updateParticles (updatePipes (pipeDraw fr)
               (updateBird (updateClouds (cloudRoll fr) (cloudDraws fr) s)))))) @ [nextHandle s],
           nextHandle := Suc (nextHandle s),
           animationFrameId := Some (nextHandle s)\<rparr>"
      using g by (simp only: frameDrawn_def)
    have 2: "bird (gameLoop fr s) = bird (updateBird s)"
      using run by (simp add: gameLoop_bird)
    have 3: "spawnTimer (gameLoop fr s) = spawnTimer (spawnTick (pipeDraw fr) s)"
      by (simp add: g frameDrawn_queue)
    have 4: "particles (gameLoop fr s) = particles (updateParticles s)"
      by (simp add: g frameDrawn_rest)
    have 5: "clouds (gameLoop fr s) = clouds (updateClouds (cloudRoll fr) (cloudDraws fr) s)"
      by (simp add: g frameDrawn_rest)
    have 6: "nextHandle s \<in> set (scheduled (gameLoop fr s))"
      "animationFrameId (gameLoop fr s) = Some (nextHandle s)"
      by (simp_all add: g)
    have 7: "gameRunning (gameLoop fr s) \<longleftrightarrow>
         \<not> hitsFloor s \<and> \<not> (\<exists>p\<in>set (pipes ?d). hits ?d p)"
    proof (cases "\<exists>p\<in>set (pipes ?d). hits ?d p")
      case True
      then have "checkCollisions ?d = endGame ?d" by (simp only: checkCollisions_eq if_True)
      then have "\<not> gameRunning (gameLoop fr s)" by (simp add: g)
      then show ?thesis using True by blast
    next
      case False
      then have "checkCollisions ?d = ?d" by (simp only: checkCollisions_eq if_False)
      then have "gameRunning (gameLoop fr s) = gameRunning ?d" by (simp add: g)
      then show ?thesis using False run by simp
    qed
    show "gameLoop fr s =
        (checkCollisions (draw (updateParticles (updatePipes (pipeDraw fr)
           (updateBird (updateClouds (cloudRoll fr) (cloudDraws fr) s))))))
          \<lparr>scheduled :=
             scheduled (checkCollisions (draw (updateParticles (updatePipes (pipeDraw fr)
               (updateBird (updateClouds (cloudRoll fr) (cloudDraws fr) s)))))) @ [nextHandle s],
           nextHandle := Suc (nextHandle s),
           animationFrameId := Some (nextHandle s)\<rparr> \<and>
      bird (gameLoop fr s) = bird (updateBird s) \<and>
      pipes (gameLoop fr s) =
        filter onScreen (map (pipeFrame (bird_x (bird s))) (pipes (spawnTick (pipeDraw fr) s))) \<and>
      score (gameLoop fr s) =
        score s + int (length (filter (scoresNow (bird_x (bird s)))
          (pipes (spawnTick (pipeDraw fr) s)))) \<and>
      spawnTimer (gameLoop fr s) = spawnTimer (spawnTick (pipeDraw fr) s) \<and>
      particles (gameLoop fr s) = particles (updateParticles s) \<and>
      clouds (gameLoop fr s) = clouds (updateClouds (cloudRoll fr) (cloudDraws fr) s) \<and>
      effects (gameLoop fr s) =
        effects s @ (if hitsFloor s then [GameOverUI (score s)] else []) @
        scoreTexts (score s)
          (length (filter (scoresNow (bird_x (bird s))) (pipes (spawnTick (pipeDraw fr) s)))) @
        [Painted] @
        (if \<exists>p\<in>set (pipes (frameDrawn fr s)). hits (frameDrawn fr s) p
         then [GameOverUI (score (gameLoop fr s))] else []) \<and>
      nextHandle s \<in> set (scheduled (gameLoop fr s)) \<and>
      animationFrameId (gameLoop fr s) = Some (nextHandle s) \<and>
      (gameRunning (gameLoop fr s) \<longleftrightarrow>
         \<not> hitsFloor s \<and> \<not> (\<exists>p\<in>set (pipes (frameDrawn fr s)). hits (frameDrawn fr s) p))"
      by (intro conjI 1 2 3 4 5 6 7 gameLoop_pipes [OF run] gameLoop_score [OF run]
          gameLoop_effects [OF run])
  qed
  have floor: ?floor
  proof
    assume a: "gameRunning s \<and> hitsFloor s"
    then have run: "gameRunning s" and fl: "hitsFloor s" by simp_all
    have hf: "hitsFloor ?c" using fl by (simp add: hitsFloor_def)
    have 1: "\<not> gameRunning (updateBird ?c)"
      using hf by (simp add: updateBird_gameRunning)
    have 2: "effects (updateBird ?c) = effects s @ [GameOverUI (score s)]"
      using hf by (simp add: updateBird_effects)
    have 3: "gameEnds (effects (gameLoop fr s)) =
        gameEnds (effects s) + (if \<exists>p\<in>set (pipes ?d). hits ?d p then 2 else 1)"
      by (simp only: gameLoop_effects [OF run] fl if_True)
         (simp del: frameDrawn_fields)
    show "\<not> gameRunning (updateBird ?c) \<and>
      effects (updateBird ?c) = effects s @ [GameOverUI (score s)] \<and>
      gameEnds (effects (gameLoop fr s)) =
        gameEnds (effects s) + (if \<exists>p\<in>set (pipes ?d). hits ?d p then 2 else 1)"
      by (intro conjI 1 2 3)
  qed
  have hit: ?hit
  proof
    assume a: "gameRunning s \<and> (\<exists>p\<in>set (pipes ?d). hits ?d p)"
    then have "checkCollisions ?d = endGame ?d" by (simp only: checkCollisions_eq if_True)
    then show "gameLoop fr s =
        (endGame ?d)\<lparr>scheduled := scheduled (endGame ?d) @ [nextHandle s],
           nextHandle := Suc (nextHandle s), animationFrameId := Some (nextHandle s)\<rparr>"
      using a by (simp only: gameLoop_running)
  qed
  show ?thesis by (intro conjI idle frame floor hit)
qed

theorem frame_runs_to_its_end_witness:
  "\<not> gameRunning loadedPage \<and>
   gameLoop calmFrame loadedPage = loadedPage \<and>
   flap calmFeathers loadedPage = loadedPage \<and>
   handle (Frame 1 calmFrame) loadedPage = loadedPage \<and>
   gameRunning groundedAtPipe \<and> hitsFloor groundedAtPipe \<and>
   (\<exists>p\<in>set (pipes (frameDrawn calmFrame groundedAtPipe)).
      hits (frameDrawn calmFrame groundedAtPipe) p) \<and>
   \<not> gameRunning (updateBird
      (updateClouds (cloudRoll calmFrame) (cloudDraws calmFrame) groundedAtPipe)) \<and>
   pipes (gameLoop calmFrame groundedAtPipe) =
     [\<lparr>pipe_x = 389 / 5, topHeight = 200, bottomY = 400, passed = False\<rparr>] \<and>
   spawnTimer (gameLoop calmFrame groundedAtPipe) = 20 \<and>
   effects (gameLoop calmFrame groundedAtPipe) = [GameOverUI 0, Painted, GameOverUI 0] \<and>
   gameEnds (effects (gameLoop calmFrame groundedAtPipe)) = 2 \<and>
   scheduled (gameLoop calmFrame groundedAtPipe) = [8] \<and>
   gameLoop calmFrame groundedAtPipe =
     (endGame (frameDrawn calmFrame groundedAtPipe))
       \<lparr>scheduled := [8], nextHandle := 9, animationFrameId := Some 8\<rparr> \<and>
   gameRunning sinkingAtPipe \<and> \<not> hitsFloor sinkingAtPipe \<and>
   (\<exists>p\<in>set (pipes (frameDrawn calmFrame sinkingAtPipe)).
      hits (frameDrawn calmFrame sinkingAtPipe) p) \<and>
   effects (gameLoop calmFrame sinkingAtPipe) = [Painted, GameOverUI 0] \<and>
   gameLoop calmFrame sinkingAtPipe =
     (endGame (frameDrawn calmFrame sinkingAtPipe))
       \<lparr>scheduled := [8], nextHandle := 9, animationFrameId := Some 8\<rparr>"
proof -
  let ?g = groundedAtPipe
  let ?w = sinkingAtPipe
  have l: "\<not> gameRunning loadedPage" "scheduled loadedPage = []"
    "loadedPage\<lparr>scheduled := []\<rparr> = loadedPage"
    by (simp_all add: loadedPage_def)
  note idle = frame_runs_to_its_end [of loadedPage calmFrame calmFeathers 1,
      THEN conjunct1, THEN mp, OF l(1)]
  have g: "gameRunning ?g" "bird_x (bird ?g) = 50" "bird_width (bird ?g) = 28"
    "bird_height (bird ?g) = 21"
    "pipes ?g = [\<lparr>pipe_x = 398 / 5, topHeight = 200, bottomY = 400, passed = False\<rparr>]"
    "spawnTimer ?g = 19" "effects ?g = []" "score ?g = 0" "nextHandle ?g = 8"
    "scheduled ?g = []" "animationFrameId ?g = Some 7"
    by (simp_all add: groundedAtPipe_def)
  have w: "gameRunning ?w" "bird_x (bird ?w) = 50" "bird_width (bird ?w) = 28"
    "bird_height (bird ?w) = 21"
    "pipes ?w = [\<lparr>pipe_x = 398 / 5, topHeight = 200, bottomY = 400, passed = False\<rparr>]"
    "spawnTimer ?w = 19" "effects ?w = []" "score ?w = 0" "nextHandle ?w = 8"
    "scheduled ?w = []" "animationFrameId ?w = Some 7"
    by (simp_all add: sinkingAtPipe_def groundedAtPipe_def initialBird_def constants)
  have gfl: "hitsFloor ?g"
    by (simp add: hitsFloor_def groundedAtPipe_def constants)
  have wfl: "\<not> hitsFloor ?w"
    by (simp add: hitsFloor_def sinkingAtPipe_def groundedAtPipe_def initialBird_def constants)
  have gy: "bird_y (bird (updateBird ?g)) = 579"
    by (simp add: groundedAtPipe_def updateBird_def Let_def constants)
  have wy: "bird_y (bird (updateBird ?w)) = 4533 / 10"
    by (simp add: sinkingAtPipe_def groundedAtPipe_def initialBird_def updateBird_def Let_def
        constants)
  have gsp: "pipes (spawnTick (pipeDraw calmFrame) ?g) =
      [\<lparr>pipe_x = 398 / 5, topHeight = 200, bottomY = 400, passed = False\<rparr>]"
    "spawnTimer (spawnTick (pipeDraw calmFrame) ?g) = 20"
    by (simp_all add: spawnTick_eq g constants)
  have wsp: "pipes (spawnTick (pipeDraw calmFrame) ?w) =
      [\<lparr>pipe_x = 398 / 5, topHeight = 200, bottomY = 400, passed = False\<rparr>]"
    by (simp add: spawnTick_eq w constants)
  have gdp: "pipes (updatePipes (pipeDraw calmFrame) ?g) =
      [\<lparr>pipe_x = 389 / 5, topHeight = 200, bottomY = 400, passed = False\<rparr>]"
    by (simp add: updatePipes_pipes gsp g pipeFrame_def onScreen_def constants)
  have wdp: "pipes (updatePipes (pipeDraw calmFrame) ?w) =
      [\<lparr>pipe_x = 389 / 5, topHeight = 200, bottomY = 400, passed = False\<rparr>]"
    by (simp add: updatePipes_pipes wsp w pipeFrame_def onScreen_def constants)
  have ghit: "\<exists>p\<in>set (pipes (frameDrawn calmFrame ?g)). hits (frameDrawn calmFrame ?g) p"
    by (simp add: gdp hits_def isColliding_def birdRect_def topPipeRect_def bottomPipeRect_def
        g gy constants)
  have whit: "\<exists>p\<in>set (pipes (frameDrawn calmFrame ?w)). hits (frameDrawn calmFrame ?w) p"
    by (simp add: wdp hits_def isColliding_def birdRect_def topPipeRect_def bottomPipeRect_def
        w wy constants)
  have gsch: "scheduled (endGame (frameDrawn calmFrame ?g)) = []"
    by (simp add: endGame_eq frameDrawn_queue updateBird_scheduled g)
  have wsch: "scheduled (endGame (frameDrawn calmFrame ?w)) = []"
    by (simp add: endGame_eq frameDrawn_queue updateBird_scheduled w)
  note gframe = frame_runs_to_its_end [of ?g calmFrame calmFeathers 1,
      THEN conjunct2, THEN conjunct1, THEN mp, OF g(1), THEN conjunct2]
  note gfloor = frame_runs_to_its_end [of ?g calmFrame calmFeathers 1,
      THEN conjunct2, THEN conjunct2, THEN conjunct1, THEN mp, OF conjI [OF g(1) gfl]]
  note gend = frame_runs_to_its_end [of ?g calmFrame calmFeathers 1,
      THEN conjunct2, THEN conjunct2, THEN conjunct2, THEN mp, OF conjI [OF g(1) ghit]]
  note wframe = frame_runs_to_its_end [of ?w calmFrame calmFeathers 1,
      THEN conjunct2, THEN conjunct1, THEN mp, OF w(1), THEN conjunct2]
  note wend = frame_runs_to_its_end [of ?w calmFrame calmFeathers 1,
      THEN conjunct2, THEN conjunct2, THEN conjunct2, THEN mp, OF conjI [OF w(1) whit]]
  have i: "gameLoop calmFrame loadedPage = loadedPage \<and>
      flap calmFeathers loadedPage = loadedPage \<and>
      handle (Frame 1 calmFrame) loadedPage = loadedPage"
    using idle by (simp add: l)
  have g1: "pipes (gameLoop calmFrame ?g) =
        [\<lparr>pipe_x = 389 / 5, topHeight = 200, bottomY = 400, passed = False\<rparr>] \<and>
      spawnTimer (gameLoop calmFrame ?g) = 20 \<and>
      effects (gameLoop calmFrame ?g) = [GameOverUI 0, Painted, GameOverUI 0]"
    using ghit gfl gframe
    by (simp del: frameDrawn_fields add: g gsp scoresNow_def pipeFrame_def onScreen_def constants)
  have g2: "\<not> gameRunning (updateBird
        (updateClouds (cloudRoll calmFrame) (cloudDraws calmFrame) ?g)) \<and>
      gameEnds (effects (gameLoop calmFrame ?g)) = 2"
    using ghit gfloor by (simp del: frameDrawn_fields add: g)
  have g3: "gameLoop calmFrame ?g =
      (endGame (frameDrawn calmFrame ?g))
        \<lparr>scheduled := [8], nextHandle := 9, animationFrameId := Some 8\<rparr>"
    using gend by (simp only: gsch g append_Nil) simp
  have g4: "scheduled (gameLoop calmFrame ?g) = [8]"
    by (subst g3) simp
  have w1: "effects (gameLoop calmFrame ?w) = [Painted, GameOverUI 0]"
    using whit wfl wframe
    by (simp del: frameDrawn_fields add: w wsp scoresNow_def pipeFrame_def onScreen_def constants)
  have w3: "gameLoop calmFrame ?w =
      (endGame (frameDrawn calmFrame ?w))
        \<lparr>scheduled := [8], nextHandle := 9, animationFrameId := Some 8\<rparr>"
    using wend by (simp only: wsch w append_Nil) simp
  show ?thesis
    by (intro conjI l(1) g(1) gfl ghit w(1) wfl whit i [THEN conjunct1]
        i [THEN conjunct2, THEN conjunct1] i [THEN conjunct2, THEN conjunct2]
        g1 [THEN conjunct1] g1 [THEN conjunct2, THEN conjunct1]
        g1 [THEN conjunct2, THEN conjunct2] g2 [THEN conjunct1] g2 [THEN conjunct2]
        g3 g4 w1 w3)
qed

end
